theory Spec2Isabelle
  imports Main
begin

section \<open>Strings and the regular expressions of the tool handler\<close>

text \<open>
  JavaScript strings are modelled as \<^typ>\<open>string\<close>: a list of code units in the range
  U+0000 .. U+00FF. Every regular expression of the source is written out as the scanning
  function that the backtracking matcher performs for it; a global \<open>replace\<close> is
  \<open>gsub\<close> applied to the function that matches the expression at the start of a string.
\<close>

definition lower_ascii :: "char \<Rightarrow> char" where
  "lower_ascii c =
     (case map_of (zip ''ABCDEFGHIJKLMNOPQRSTUVWXYZ'' ''abcdefghijklmnopqrstuvwxyz'') c of
        Some d \<Rightarrow> d
      | None \<Rightarrow> c)"

definition is_space :: "char \<Rightarrow> bool" where
  \<comment> \<open>the class \<open>\s\<close> on code units below 256\<close>
  "is_space c = (c \<in> set [CHR 0x09, CHR 0x0A, CHR 0x0B, CHR 0x0C, CHR 0x0D, CHR 0x20, CHR 0xA0])"

definition is_digit :: "char \<Rightarrow> bool" where
  "is_digit c = (c \<in> set ''0123456789'')"

definition is_word :: "char \<Rightarrow> bool" where
  \<comment> \<open>the class \<open>\w\<close>, which decides \<open>\b\<close>\<close>
  "is_word c =
     (c \<in> set ''ABCDEFGHIJKLMNOPQRSTUVWXYZabcdefghijklmnopqrstuvwxyz0123456789_'')"

definition skip_spaces :: "string \<Rightarrow> string" where
  "skip_spaces s = dropWhile is_space s"

fun strip_prefix :: "string \<Rightarrow> string \<Rightarrow> string option" where
  "strip_prefix [] s = Some s"
| "strip_prefix (p # ps) [] = None"
| "strip_prefix (p # ps) (c # cs) = (if c = p then strip_prefix ps cs else None)"

fun strip_prefix_ci :: "string \<Rightarrow> string \<Rightarrow> string option" where
  \<comment> \<open>a literal under the \<open>i\<close> flag\<close>
  "strip_prefix_ci [] s = Some s"
| "strip_prefix_ci (p # ps) [] = None"
| "strip_prefix_ci (p # ps) (c # cs) =
     (if lower_ascii c = lower_ascii p then strip_prefix_ci ps cs else None)"

definition until_gt :: "string \<Rightarrow> (string \<times> string) option" where
  \<comment> \<open>\<open>([^>]*)>\<close>: the text before the first \<open>>\<close> and the text after it\<close>
  "until_gt s =
     (case dropWhile (\<lambda>c. c \<noteq> CHR ''>'') s of
        [] \<Rightarrow> None
      | _ # rest \<Rightarrow> Some (takeWhile (\<lambda>c. c \<noteq> CHR ''>'') s, rest))"

definition match_tag_open :: "string \<Rightarrow> string \<Rightarrow> (string \<times> string) option" where
  \<comment> \<open>\<open><name[^>]*>\<close> under the \<open>i\<close> flag: the matched text and the remainder\<close>
  "match_tag_open name s =
     (case strip_prefix_ci (CHR ''<'' # name) s of
        None \<Rightarrow> None
      | Some r \<Rightarrow>
          (case until_gt r of
             None \<Rightarrow> None
           | Some (_, rest) \<Rightarrow> Some (take (length s - length rest) s, rest)))"

fun match_first_tag :: "string list \<Rightarrow> string \<Rightarrow> (string \<times> string) option" where
  \<comment> \<open>\<open><(n1|n2|...)[^>]*>\<close>: the alternatives in their order\<close>
  "match_first_tag [] s = None"
| "match_first_tag (n # ns) s =
     (case match_tag_open n s of
        Some m \<Rightarrow> Some m
      | None \<Rightarrow> match_first_tag ns s)"

fun match_first_close :: "string list \<Rightarrow> string \<Rightarrow> (string \<times> string) option" where
  \<comment> \<open>\<open></(n1|n2|...)>\<close>: the matched text and the remainder\<close>
  "match_first_close [] s = None"
| "match_first_close (n # ns) s =
     (case strip_prefix_ci (''</'' @ n @ ''>'') s of
        Some rest \<Rightarrow> Some (take (length s - length rest) s, rest)
      | None \<Rightarrow> match_first_close ns s)"

fun skip_brs :: "string \<Rightarrow> string" where
  \<comment> \<open>\<open>(<br>)*\<close>, greedy\<close>
  "skip_brs (a # b # c # d # rest) =
     (if strip_prefix_ci ''<br>'' [a, b, c, d] = Some [] then skip_brs rest
      else a # b # c # d # rest)"
| "skip_brs s = s"

fun gsub :: "(string \<Rightarrow> (string \<times> string) option) \<Rightarrow> string \<Rightarrow> string" where
  \<comment> \<open>\<open>s.replace(/re/g, ...)\<close>: \<open>m\<close> matches the expression at the start of a string
      and gives the replacement and the remainder; an empty match advances by one\<close>
  "gsub m [] = (case m [] of Some (rep, _) \<Rightarrow> rep | None \<Rightarrow> [])"
| "gsub m (c # cs) =
     (case m (c # cs) of
        None \<Rightarrow> c # gsub m cs
      | Some (rep, rest) \<Rightarrow>
          (if length rest < length (c # cs) then rep @ gsub m rest
           else rep @ c # gsub m cs))"


section \<open>The reply formatter\<close>

definition pre_end_here :: "string \<Rightarrow> string option" where
  \<comment> \<open>\<open>(?:<\/code>\s*)?<\/pre>\<close> at the start of the string\<close>
  "pre_end_here s =
     (case (case strip_prefix_ci ''</code>'' s of
              None \<Rightarrow> None
            | Some r \<Rightarrow> strip_prefix_ci ''</pre>'' (skip_spaces r)) of
        Some rest \<Rightarrow> Some rest
      | None \<Rightarrow> strip_prefix_ci ''</pre>'' s)"

fun find_pre_end :: "string \<Rightarrow> (string \<times> string) option" where
  \<comment> \<open>the lazy \<open>([\s\S]*?)\<close>: the shortest content after which the closing part matches\<close>
  "find_pre_end [] = None"
| "find_pre_end (c # cs) =
     (case pre_end_here (c # cs) of
        Some rest \<Rightarrow> Some ([], rest)
      | None \<Rightarrow>
          (case find_pre_end cs of
             None \<Rightarrow> None
           | Some (content, rest) \<Rightarrow> Some (c # content, rest)))"

definition match_pre :: "string \<Rightarrow> (string \<times> string) option" where
  \<comment> \<open>\<open><pre[^>]*>(?:\s*<code[^>]*>)?([\s\S]*?)(?:<\/code>\s*)?<\/pre>\<close>: the content
      and the remainder; the optional \<open><code>\<close> is tried first and given up when the
      rest cannot match after it\<close>
  "match_pre s =
     (case match_tag_open ''pre'' s of
        None \<Rightarrow> None
      | Some (_, r1) \<Rightarrow>
          (case (case strip_prefix_ci ''<code'' (skip_spaces r1) of
                   None \<Rightarrow> None
                 | Some r \<Rightarrow>
                     (case until_gt r of
                        None \<Rightarrow> None
                      | Some (_, r2) \<Rightarrow> find_pre_end r2)) of
             Some res \<Rightarrow> Some res
           | None \<Rightarrow> find_pre_end r1))"

definition nl_to_br :: "string \<Rightarrow> string" where
  \<comment> \<open>\<open>content.replace(/\n/g, '<br>')\<close>\<close>
  "nl_to_br s = concat (map (\<lambda>c. if c = CHR 0x0A then ''<br>'' else [c]) s)"

definition pre_to_div :: "string \<Rightarrow> (string \<times> string) option" where
  "pre_to_div s =
     (case match_pre s of
        None \<Rightarrow> None
      | Some (content, rest) \<Rightarrow> Some (''<div>'' @ nl_to_br content @ ''</div>'', rest))"

fun has_class_word :: "char \<Rightarrow> string \<Rightarrow> bool" where
  \<comment> \<open>the lookahead \<open>[^>]*\bclass\b\<close>; the first argument is the character before\<close>
  "has_class_word prev [] = False"
| "has_class_word prev (c # cs) =
     (if c = CHR ''>'' then False
      else (\<not> is_word prev \<and>
            (case strip_prefix_ci ''class'' (c # cs) of
               None \<Rightarrow> False
             | Some [] \<Rightarrow> True
             | Some (d # _) \<Rightarrow> \<not> is_word d))
           \<or> has_class_word c cs)"

definition bare_code :: "string \<Rightarrow> (string \<times> string) option" where
  \<comment> \<open>\<open><code(?![^>]*\bclass\b)([^>]*)>\<close> replaced by \<open><code class="inline-code"$1>\<close>\<close>
  "bare_code s =
     (case strip_prefix_ci ''<code'' s of
        None \<Rightarrow> None
      | Some r \<Rightarrow>
          (if has_class_word (CHR ''e'') r then None
           else (case until_gt r of
                   None \<Rightarrow> None
                 | Some (attrs, rest) \<Rightarrow>
                     Some (''<code class='' @ [CHR 0x22] @ ''inline-code'' @ [CHR 0x22]
                             @ attrs @ ''>'', rest))))"

definition p_open :: "string \<Rightarrow> (string \<times> string) option" where
  \<comment> \<open>\<open><p[^>]*>\<close> replaced by the empty string\<close>
  "p_open s =
     (case match_tag_open ''p'' s of
        None \<Rightarrow> None
      | Some (_, rest) \<Rightarrow> Some ([], rest))"

definition p_close :: "string \<Rightarrow> (string \<times> string) option" where
  \<comment> \<open>\<open><\/p>\<close> replaced by \<open><br><br>\<close>\<close>
  "p_close s =
     (case strip_prefix_ci ''</p>'' s of
        None \<Rightarrow> None
      | Some rest \<Rightarrow> Some (''<br><br>'', rest))"

definition brs_before :: "string list \<Rightarrow> string \<Rightarrow> string \<Rightarrow> (string \<times> string) option" where
  \<comment> \<open>\<open>(<br>)+\s*(<(names)[^>]*>)\<close> replaced by \<open>lead\<close> followed by \<open>$2\<close>\<close>
  "brs_before names lead s =
     (case strip_prefix_ci ''<br>'' s of
        None \<Rightarrow> None
      | Some r \<Rightarrow>
          (case match_first_tag names (skip_spaces (skip_brs r)) of
             None \<Rightarrow> None
           | Some (tag, rest) \<Rightarrow> Some (lead @ tag, rest)))"

definition after_block :: "string \<Rightarrow> string \<Rightarrow> (string \<times> string) option" where
  \<comment> \<open>\<open>(</(ul|ol|blockquote|div)>)\s*(<br>)*\<close> replaced by \<open>$1\<close> followed by \<open>trail\<close>\<close>
  "after_block trail s =
     (case match_first_close [''ul'', ''ol'', ''blockquote'', ''div''] s of
        None \<Rightarrow> None
      | Some (tag, rest) \<Rightarrow> Some (tag @ trail, skip_brs (skip_spaces rest)))"

fun trim_trailing_brs :: "string \<Rightarrow> string" where
  \<comment> \<open>\<open>result.replace(/(<br>)+$/i, '')\<close>: the leftmost suffix made of breaks only\<close>
  "trim_trailing_brs [] = []"
| "trim_trailing_brs (c # cs) =
     (if skip_brs (c # cs) = [] then [] else c # trim_trailing_brs cs)"

definition formatReplyHtml :: "string \<Rightarrow> bool \<Rightarrow> string" where
  "formatReplyHtml html compact =
     (let result = gsub pre_to_div html;
          result = gsub bare_code result;
          result = gsub p_open result;
          result = gsub p_close result;
          result = gsub (brs_before [''ul'', ''ol'', ''div''] []) result;
          result = (if compact
                    then gsub (after_block [])
                           (gsub (brs_before [''blockquote''] []) result)
                    else gsub (after_block ''<br>'')
                           (gsub (brs_before [''blockquote''] ''<br><br>'') result))
      in trim_trailing_brs result)"


section \<open>Configuration\<close>

datatype reply_spacing = Compact | Relaxed

record config =
  defaultInboxId :: "string option"
  replySpacing :: reply_spacing
  allowSendReply :: bool
  allowPii :: bool
  verboseResponses :: bool

definition truthy :: "string option \<Rightarrow> bool" where
  \<comment> \<open>a value that may be undefined, used as a condition: defined and not empty\<close>
  "truthy v = (case v of None \<Rightarrow> False | Some s \<Rightarrow> s \<noteq> [])"

definition loadConfig :: "(string \<rightharpoonup> string) \<Rightarrow> config" where
  \<comment> \<open>the fields of \<open>config\<close> that the tool handler reads, from the process environment\<close>
  "loadConfig env =
     \<lparr> defaultInboxId = env ''HELPSCOUT_DEFAULT_INBOX_ID'',
       replySpacing =
         (if env ''HELPSCOUT_REPLY_SPACING'' = Some ''compact'' then Compact else Relaxed),
       allowSendReply = (env ''HELPSCOUT_ALLOW_SEND_REPLY'' = Some ''true''),
       allowPii = (env ''REDACT_MESSAGE_CONTENT'' \<noteq> Some ''true''),
       verboseResponses = (env ''HELPSCOUT_VERBOSE_RESPONSES'' = Some ''true'') \<rparr>"

section \<open>Errors\<close>

datatype error_code = INVALID_INPUT | NOT_FOUND | UNAUTHORIZED | RATE_LIMIT | UPSTREAM_ERROR

text \<open>
  Modelled from the spec: \<open>isApiError\<close> of \<open>utils/mcp-errors.js\<close>, which is not among the
  sources. A rejection is either an error of the fixed taxonomy of \<open>ErrorSchema\<close>, with
  its code and message, or any other thrown value, of which the message is kept;
  \<open>isApiError\<close> holds of the first kind only.
\<close>

datatype error = ApiError error_code string | OtherError string

fun isApiError :: "error \<Rightarrow> bool" where
  "isApiError (ApiError _ _) = True"
| "isApiError (OtherError _) = False"

section \<open>Creating a reply\<close>

datatype customer_ref =
    CustomerId int
  | CustomerEmail string "string option" "string option"

datatype reply_status = RActive | RClosed | ROpen | RPending | RSpam

record create_reply_input =
  cr_conversationId :: string
  cr_text :: string
  cr_customer :: customer_ref
  cr_draft :: bool
  cr_user :: "int option"
  cr_assignTo :: "int option"
  cr_status :: "reply_status option"
  cr_cc :: "string list option"
  cr_bcc :: "string list option"

record reply_request_body =
  body_text :: string
  body_customer :: customer_ref
  body_draft :: bool
  body_user :: "int option"
  body_assignTo :: "int option"
  body_status :: "reply_status option"
  body_cc :: "string list option"
  body_bcc :: "string list option"

text \<open>
  \<open>helpScoutClient.postWithResponse\<close> is the network layer: given the path and the body
  it rejects or answers with the \<open>resource-id\<close> header of the response. A call of
  \<open>createReply\<close> yields its outcome together with the requests it issued.
\<close>

type_synonym post_client = "string \<Rightarrow> reply_request_body \<Rightarrow> error + string option"

datatype reply_result =
    ReplyRefused string string string
  | ReplyCreated string "string option" bool string

definition published_disabled_message :: string where
  "published_disabled_message =
     ''Sending non-draft replies requires HELPSCOUT_ALLOW_SEND_REPLY=true in the environment. This is a safety measure to prevent accidental sends. Draft replies are always allowed.''"

definition published_disabled_suggestion :: string where
  "published_disabled_suggestion =
     ''Either set draft=true (default) to create a draft, or set the HELPSCOUT_ALLOW_SEND_REPLY=true environment variable to enable sending.''"

definition createReply ::
  "config \<Rightarrow> post_client \<Rightarrow> create_reply_input
     \<Rightarrow> (error + reply_result) \<times> (string \<times> reply_request_body) list" where
  "createReply cfg post input =
     (let isDraft = cr_draft input in
      if \<not> isDraft \<and> \<not> allowSendReply cfg
      then (Inr (ReplyRefused ''Published replies are disabled''
                   published_disabled_message published_disabled_suggestion), [])
      else
        let requestBody =
              \<lparr> body_text = formatReplyHtml (cr_text input) (replySpacing cfg = Compact),
                body_customer = cr_customer input,
                body_draft = isDraft,
                body_user = cr_user input,
                body_assignTo = cr_assignTo input,
                body_status = cr_status input,
                body_cc = cr_cc input,
                body_bcc = cr_bcc input \<rparr>;
            path = ''/conversations/'' @ cr_conversationId input @ ''/reply''
        in (case post path requestBody of
              Inl e \<Rightarrow> (Inl e, [(path, requestBody)])
            | Inr resourceId \<Rightarrow>
                (Inr (ReplyCreated (cr_conversationId input)
                        (if truthy resourceId then resourceId else None)
                        isDraft
                        (if isDraft
                         then ''Draft reply created successfully. It can be reviewed and sent from Help Scout.''
                         else ''Reply sent successfully.'')),
                 [(path, requestBody)])))"

section \<open>Conversations and the upstream listing\<close>

text \<open>
  A conversation as the Mailbox API returns it, with the fields that \<open>slimConversation\<close>
  reads. \<open>createdAt\<close> is kept as the instant it denotes, in milliseconds since the epoch:
  the value of \<open>new Date(conv.createdAt).getTime()\<close>, which is all that sorting and
  filtering read of it. The upstream's timestamps are taken to be dates.
\<close>

record person =
  p_id :: int
  p_type :: "string option"
  p_first :: "string option"
  p_firstName :: "string option"
  p_last :: "string option"
  p_lastName :: "string option"
  p_email :: "string option"

datatype tag = TagObject "string option" "string option" | TagString string

record conversation =
  conv_id :: int
  conv_number :: int
  conv_subject :: string
  conv_status :: string
  conv_preview :: string
  conv_mailboxId :: int
  conv_assignee :: "person option"
  conv_createdBy :: "person option"
  conv_customer :: "person option"
  conv_tags :: "tag list"
  conv_createdAt :: int
  conv_closedAt :: "string option"
  conv_waitingSince :: "string option"

record slim_person =
  sp_id :: int
  sp_first :: "string option"
  sp_last :: "string option"
  sp_email :: "string option"

datatype slim_tag = TagName string | TagAsIs tag

record slim_conversation =
  slim_id :: int
  slim_number :: int
  slim_subject :: string
  slim_status :: string
  slim_preview :: string
  slim_mailboxId :: int
  slim_assignee :: "slim_person option"
  slim_customer :: "slim_person option"
  slim_tags :: "slim_tag list"
  slim_createdAt :: int
  slim_closedAt :: "string option"
  slim_waitingSince :: "string option"

definition or_else :: "string option \<Rightarrow> string option \<Rightarrow> string option" where
  \<comment> \<open>\<open>a || b\<close> on strings that may be undefined\<close>
  "or_else a b = (if truthy a then a else b)"

definition slimPerson :: "person \<Rightarrow> slim_person" where
  "slimPerson p =
     \<lparr> sp_id = p_id p,
       sp_first = or_else (p_first p) (p_firstName p),
       sp_last = or_else (p_last p) (p_lastName p),
       sp_email = p_email p \<rparr>"

fun slimTag :: "tag \<Rightarrow> slim_tag" where
  \<comment> \<open>\<open>t.tag || t.name || t\<close>\<close>
  "slimTag (TagObject tg nm) =
     (case or_else tg nm of
        Some s \<Rightarrow> if s \<noteq> [] then TagName s else TagAsIs (TagObject tg nm)
      | None \<Rightarrow> TagAsIs (TagObject tg nm))"
| "slimTag (TagString s) = TagName s"

definition slimConversation :: "conversation \<Rightarrow> slim_conversation" where
  "slimConversation conv =
     \<lparr> slim_id = conv_id conv,
       slim_number = conv_number conv,
       slim_subject = conv_subject conv,
       slim_status = conv_status conv,
       slim_preview = conv_preview conv,
       slim_mailboxId = conv_mailboxId conv,
       slim_assignee = map_option slimPerson (conv_assignee conv),
       slim_customer =
         (case conv_createdBy conv of
            Some p \<Rightarrow>
              if p_type p = Some ''customer'' then Some (slimPerson p)
              else map_option slimPerson (conv_customer conv)
          | None \<Rightarrow> map_option slimPerson (conv_customer conv)),
       slim_tags = map slimTag (conv_tags conv),
       slim_createdAt = conv_createdAt conv,
       slim_closedAt = conv_closedAt conv,
       slim_waitingSince = conv_waitingSince conv \<rparr>"

datatype conv_out = Full conversation | Slim slim_conversation

definition render :: "bool \<Rightarrow> conversation \<Rightarrow> conv_out" where
  \<comment> \<open>\<open>verbose ? c : this.slimConversation(c)\<close>\<close>
  "render verbose c = (if verbose then Full c else Slim (slimConversation c))"

fun out_id :: "conv_out \<Rightarrow> int" where
  "out_id (Full c) = conv_id c"
| "out_id (Slim c) = slim_id c"

fun out_createdAt :: "conv_out \<Rightarrow> int" where
  "out_createdAt (Full c) = conv_createdAt c"
| "out_createdAt (Slim c) = slim_createdAt c"

text \<open>
  The query parameters of \<open>GET /conversations\<close> and what the handler reads of the
  response: \<open>_embedded?.conversations\<close>, \<open>page?.totalElements\<close> and whether
  \<open>_links?.next\<close> is present. \<open>helpScoutClient.get\<close> is a function from the parameters
  to a rejection or a response.
\<close>

record conv_query =
  q_page :: nat
  q_size :: nat
  q_sortField :: string
  q_sortOrder :: string
  q_query :: "string option"
  q_mailbox :: "string option"
  q_tag :: "string option"
  q_status :: "string option"

record conv_page =
  pg_conversations :: "conversation list option"
  pg_totalElements :: "nat option"
  pg_next :: bool

type_synonym conv_client = "conv_query \<Rightarrow> error + conv_page"

function fetchLoop ::
  "conv_client \<Rightarrow> conv_query \<Rightarrow> nat \<Rightarrow> nat \<Rightarrow> conversation list \<Rightarrow> nat \<Rightarrow> nat \<Rightarrow> bool
     \<Rightarrow> (error + conversation list \<times> nat) \<times> nat list" where
  \<comment> \<open>the \<open>while\<close> loop of \<open>fetchConversationPages\<close> from a state of its variables; the
      second component lists the pages requested\<close>
  "fetchLoop get params desiredCount effectiveMaxPages conversations totalElements
     currentPage hasMore =
     (if length conversations < desiredCount \<and> hasMore \<and> currentPage \<le> effectiveMaxPages
      then
        (case get (params\<lparr>q_page := currentPage\<rparr>) of
           Inl e \<Rightarrow> (Inl e, [currentPage])
         | Inr response \<Rightarrow>
             apsnd ((#) currentPage)
               (fetchLoop get params desiredCount effectiveMaxPages
                  (conversations @
                     (case pg_conversations response of None \<Rightarrow> [] | Some cs \<Rightarrow> cs))
                  (case pg_totalElements response of
                     None \<Rightarrow> totalElements
                   | Some t \<Rightarrow> if t \<noteq> 0 then t else totalElements)
                  (currentPage + 1)
                  (pg_next response)))
      else (Inr (conversations, totalElements), []))"
  by pat_completeness auto
termination
  by (relation "measure (\<lambda>(get, params, desiredCount, effectiveMaxPages, conversations,
                            totalElements, currentPage, hasMore).
                          Suc effectiveMaxPages - currentPage)") auto

declare fetchLoop.simps [simp del]

definition effectiveMaxPages :: "nat option \<Rightarrow> nat \<Rightarrow> nat" where
  \<comment> \<open>\<open>maxPages || Math.ceil(desiredCount / 25) + 1\<close>\<close>
  "effectiveMaxPages maxPages desiredCount =
     (case maxPages of
        Some m \<Rightarrow> if m \<noteq> 0 then m else (desiredCount + 24) div 25 + 1
      | None \<Rightarrow> (desiredCount + 24) div 25 + 1)"

definition fetchTrace ::
  "conv_client \<Rightarrow> conv_query \<Rightarrow> nat \<Rightarrow> nat option
     \<Rightarrow> (error + conversation list \<times> nat) \<times> nat list" where
  "fetchTrace get params desiredCount maxPages =
     fetchLoop get params desiredCount (effectiveMaxPages maxPages desiredCount) [] 0 1 True"

definition fetchConversationPages ::
  "conv_client \<Rightarrow> conv_query \<Rightarrow> nat \<Rightarrow> nat option \<Rightarrow> error + conversation list \<times> nat" where
  "fetchConversationPages get params desiredCount maxPages =
     fst (fetchTrace get params desiredCount maxPages)"

section \<open>Query strings\<close>

fun join :: "string \<Rightarrow> string list \<Rightarrow> string" where
  \<comment> \<open>\<open>xs.join(sep)\<close>\<close>
  "join sep [] = []"
| "join sep [x] = x"
| "join sep (x # y # ys) = x @ sep @ join sep (y # ys)"

definition escapeQueryTerm :: "string \<Rightarrow> string" where
  \<comment> \<open>every backslash is doubled, then every double quote gets a backslash before it\<close>
  "escapeQueryTerm t =
     concat (map (\<lambda>c. if c = CHR 0x22 then [CHR 0x5C, CHR 0x22] else [c])
       (concat (map (\<lambda>c. if c = CHR 0x5C then [CHR 0x5C, CHR 0x5C] else [c]) t)))"

definition field_clause :: "string \<Rightarrow> string \<Rightarrow> string" where
  \<comment> \<open>the template \<open>field:"value"\<close>\<close>
  "field_clause field v = field @ '':'' @ [CHR 0x22] @ v @ [CHR 0x22]"

definition isoDatePattern :: "string \<Rightarrow> bool" where
  \<comment> \<open>\<open>/^\d{4}-\d{2}-\d{2}(T[\d:.]+Z?)?$/.test(s)\<close>\<close>
  "isoDatePattern s =
     (case s of
        y1 # y2 # y3 # y4 # d1 # m1 # m2 # d2 # a1 # a2 # rest \<Rightarrow>
          is_digit y1 \<and> is_digit y2 \<and> is_digit y3 \<and> is_digit y4 \<and> d1 = CHR ''-''
          \<and> is_digit m1 \<and> is_digit m2 \<and> d2 = CHR ''-'' \<and> is_digit a1 \<and> is_digit a2
          \<and> (case rest of
                 [] \<Rightarrow> True
               | t # time \<Rightarrow>
                   t = CHR ''T''
                   \<and> takeWhile (\<lambda>c. is_digit c \<or> c = CHR '':'' \<or> c = CHR ''.'') time \<noteq> []
                   \<and> (case dropWhile (\<lambda>c. is_digit c \<or> c = CHR '':'' \<or> c = CHR ''.'') time of
                          [] \<Rightarrow> True
                        | z # after \<Rightarrow> z = CHR ''Z'' \<and> after = []))
      | _ \<Rightarrow> False)"

definition strip_millis :: "string \<Rightarrow> string" where
  \<comment> \<open>\<open>d.replace(/\.\d{3}Z$/, 'Z')\<close>\<close>
  "strip_millis d =
     (case rev d of
        z # d3 # d2 # d1 # dot # front \<Rightarrow>
          if z = CHR ''Z'' \<and> is_digit d3 \<and> is_digit d2 \<and> is_digit d1 \<and> dot = CHR ''.''
          then rev front @ ''Z'' else d
      | _ \<Rightarrow> d)"

definition appendCreatedAtFilter ::
  "string option \<Rightarrow> string option \<Rightarrow> string option \<Rightarrow> error + string option" where
  "appendCreatedAtFilter existingQuery createdAfter createdBefore =
     (if \<not> truthy createdAfter \<and> \<not> truthy createdBefore then Inr existingQuery
      else if truthy createdAfter \<and> \<not> isoDatePattern (the createdAfter)
      then Inl (OtherError (''Invalid createdAfter date format: '' @ the createdAfter
                  @ ''. Expected ISO 8601 (e.g., 2024-01-15T00:00:00Z)''))
      else if truthy createdBefore \<and> \<not> isoDatePattern (the createdBefore)
      then Inl (OtherError (''Invalid createdBefore date format: '' @ the createdBefore
                  @ ''. Expected ISO 8601 (e.g., 2024-01-15T00:00:00Z)''))
      else
        let start = (if truthy createdAfter then strip_millis (the createdAfter) else ''*'');
            end' = (if truthy createdBefore then strip_millis (the createdBefore) else ''*'');
            clause = ''(createdAt:['' @ start @ '' TO '' @ end' @ ''])''
        in if \<not> truthy existingQuery then Inr (Some clause)
           else Inr (Some (''('' @ the existingQuery @ '') AND '' @ clause)))"

datatype search_location = BODY | SUBJECT | BOTH

fun buildSearchQuery_loop ::
  "search_location list \<Rightarrow> string list \<Rightarrow> string list \<Rightarrow> string list" where
  \<comment> \<open>the \<open>for\<close> loop of \<open>buildSearchQuery\<close> over the remaining terms, with \<open>queries\<close>\<close>
  "buildSearchQuery_loop searchIn [] queries = queries"
| "buildSearchQuery_loop searchIn (t # ts) queries =
     (let escapedTerm = escapeQueryTerm t;
          termQueries =
            (if BODY \<in> set searchIn \<or> BOTH \<in> set searchIn
             then [field_clause ''body'' escapedTerm] else [])
            @ (if SUBJECT \<in> set searchIn \<or> BOTH \<in> set searchIn
               then [field_clause ''subject'' escapedTerm] else [])
      in buildSearchQuery_loop searchIn ts
           (if termQueries \<noteq> [] then queries @ [''('' @ join '' OR '' termQueries @ '')'']
            else queries))"

definition buildSearchQuery :: "string list \<Rightarrow> search_location list \<Rightarrow> string" where
  "buildSearchQuery terms searchIn = join '' OR '' (buildSearchQuery_loop searchIn terms [])"

text \<open>
  \<open>calculateTimeRange\<close> reads the clock: \<open>isoDaysAgo n\<close> stands for
  \<open>toISOString()\<close> of the current time set back by \<open>n\<close> days.
\<close>

definition calculateTimeRange :: "(nat \<Rightarrow> string) \<Rightarrow> nat \<Rightarrow> string" where
  "calculateTimeRange isoDaysAgo timeframeDays = strip_millis (isoDaysAgo timeframeDays)"

section \<open>Searching conversations\<close>

datatype status_name = Active | Pending | Closed | Spam

fun status_str :: "status_name \<Rightarrow> string" where
  "status_str Active = ''active''"
| "status_str Pending = ''pending''"
| "status_str Closed = ''closed''"
| "status_str Spam = ''spam''"

text \<open>
  The parsed input of \<open>searchConversations\<close>. A date that the handler parses is carried
  as the string together with the instant that \<open>new Date\<close> reads from it, \<open>None\<close> when the
  string is not a date.
\<close>

type_synonym date_arg = "string \<times> int option"

record search_input =
  si_query :: "string option"
  si_inboxId :: "string option"
  si_tag :: "string option"
  si_status :: "status_name option"
  si_statuses :: "status_name list option"
  si_createdAfter :: "string option"
  si_createdBefore :: "date_arg option"
  si_limit :: nat
  si_sort :: string
  si_order :: string
  si_searchTerms :: "string list option"
  si_searchIn :: "search_location list"
  si_timeframeDays :: nat
  si_contentTerms :: "string list option"
  si_subjectTerms :: "string list option"
  si_customerEmail :: "string option"
  si_emailDomain :: "string option"
  si_tags :: "string list option"
  si_includeTranscripts :: bool
  si_transcriptMaxMessages :: nat

definition DEFAULT_PAGE_SIZE :: nat where
  "DEFAULT_PAGE_SIZE = 50"

definition limit_or_default :: "nat \<Rightarrow> nat" where
  \<comment> \<open>\<open>input.limit || TOOL_CONSTANTS.DEFAULT_PAGE_SIZE\<close>\<close>
  "limit_or_default n = (if n \<noteq> 0 then n else DEFAULT_PAGE_SIZE)"

definition nonempty :: "'a list option \<Rightarrow> bool" where
  \<comment> \<open>\<open>xs?.length\<close> used as a condition\<close>
  "nonempty xs = (case xs of None \<Rightarrow> False | Some l \<Rightarrow> l \<noteq> [])"

definition isVerbose :: "config \<Rightarrow> bool option \<Rightarrow> bool" where
  \<comment> \<open>the \<open>verbose\<close> argument of the call, else the configured default\<close>
  "isVerbose cfg v = (case v of Some b \<Rightarrow> b | None \<Rightarrow> verboseResponses cfg)"

definition date_truthy :: "date_arg option \<Rightarrow> bool" where
  "date_truthy d = (case d of None \<Rightarrow> False | Some (raw, _) \<Rightarrow> raw \<noteq> [])"

definition applyCreatedBeforeFilter ::
  "conversation list \<Rightarrow> date_arg \<Rightarrow> error + conversation list \<times> bool \<times> nat" where
  "applyCreatedBeforeFilter conversations createdBefore =
     (case snd createdBefore of
        None \<Rightarrow>
          Inl (OtherError (''Invalid createdBefore date format: '' @ fst createdBefore
                 @ ''. Expected ISO 8601 format (e.g., 2023-01-15T00:00:00Z)''))
      | Some beforeDate \<Rightarrow>
          let originalCount = length conversations;
              filtered = filter (\<lambda>conv. conv_createdAt conv < beforeDate) conversations;
              removedCount = originalCount - length filtered
          in Inr (filtered, removedCount > 0, removedCount))"

fun show_nat :: "nat \<Rightarrow> string" where
  \<comment> \<open>a count inside a template string\<close>
  "show_nat n =
     (if n < 10 then [''0123456789'' ! n]
      else show_nat (n div 10) @ [''0123456789'' ! (n mod 10)])"

declare show_nat.simps [simp del]

text \<open>
  \<open>String(n)\<close> for a number that holds an integer, as \<open>Number::toString\<close> gives it. A
  number has a significand of 53 bits: \<open>number_value\<close> is the number nearest to an
  integer, ties to the even significand. The digits written are the fewest that read back
  as the number, the nearest such value when there are several. Up to 21 digits are written
  out, with zeros after the significant ones; a longer value is written with an exponent,
  so \<open>String(1e21)\<close> is \<open>1e+21\<close>. An integer below \<open>2^53\<close> is written in full.
\<close>

fun bit_length :: "nat \<Rightarrow> nat" where
  "bit_length n = (if n = 0 then 0 else Suc (bit_length (n div 2)))"

declare bit_length.simps [simp del]

definition number_value :: "nat \<Rightarrow> nat" where
  "number_value v =
     (if bit_length v \<le> 53 then v
      else
        let e = bit_length v - 53;
            q = v div 2 ^ e;
            r = v mod 2 ^ e
        in (if 2 ^ e < 2 * r \<or> (2 * r = 2 ^ e \<and> odd q) then q + 1 else q) * 2 ^ e)"

function shortest_decimal :: "nat \<Rightarrow> nat \<Rightarrow> nat \<Rightarrow> nat" where
  \<comment> \<open>the value with the fewest significant digits, from \<open>k\<close> digits on, that reads back
      as the number \<open>x\<close> of \<open>n\<close> digits\<close>
  "shortest_decimal x n k =
     (if n \<le> k then x
      else
        let u = 10 ^ (n - k);
            lo = (x div u) * u;
            hi = lo + u
        in if number_value lo = x \<and> number_value hi = x
           then (if x - lo < hi - x then lo
                 else if hi - x < x - lo then hi
                 else if even (x div u) then lo else hi)
           else if number_value lo = x then lo
           else if number_value hi = x then hi
           else shortest_decimal x n (k + 1))"
  by pat_completeness auto
termination
  by (relation "measure (\<lambda>(x, n, k). n - k)") auto

declare shortest_decimal.simps [simp del]

definition number_string :: "int \<Rightarrow> string" where
  "number_string i =
     (if i = 0 then ''0''
      else
        let x = number_value (nat \<bar>i\<bar>);
            sign = (if i < 0 then ''-'' else [])
        in if 1024 < bit_length x then sign @ ''Infinity''
           else
             let ds = show_nat (shortest_decimal x (length (show_nat x)) 1);
                 n = length ds;
                 s = rev (dropWhile (\<lambda>c. c = CHR ''0'') (rev ds))
             in sign @ (if n \<le> 21 then ds
                        else (if length s = 1 then s else hd s # ''.'' @ tl s)
                             @ ''e+'' @ show_nat (n - 1)))"

record failed_status =
  fs_status :: string
  fs_message :: string
  fs_code :: string

text \<open>
  A pagination object of a result: each key may be absent. \<open>JSON.stringify\<close> leaves out
  the keys whose value is \<open>undefined\<close>.
\<close>

record pagination =
  pa_returned :: "nat option"
  pa_totalAvailable :: "nat option"
  pa_totalResults :: "nat option"
  pa_totalElements :: "nat option"
  pa_errors :: "failed_status list option"
  pa_note :: "string option"

definition no_pagination :: pagination where
  "no_pagination =
     \<lparr> pa_returned = None, pa_totalAvailable = None, pa_totalResults = None,
       pa_totalElements = None, pa_errors = None, pa_note = None \<rparr>"

definition show_count :: "nat option \<Rightarrow> string" where
  "show_count n = (case n of None \<Rightarrow> ''undefined'' | Some k \<Rightarrow> show_nat k)"

definition buildFilteredPagination ::
  "nat \<Rightarrow> pagination option \<Rightarrow> bool \<Rightarrow> pagination option" where
  "buildFilteredPagination filteredCount apiPage wasFiltered =
     (if \<not> wasFiltered then apiPage
      else
        let apiTotal = (case apiPage of None \<Rightarrow> None | Some pg \<Rightarrow> pa_totalElements pg)
        in Some (no_pagination
             \<lparr> pa_totalResults := Some filteredCount,
               pa_totalAvailable := apiTotal,
               pa_note := Some (''Results filtered client-side by createdBefore. totalResults shows filtered count (''
                  @ show_nat filteredCount
                  @ ''), totalAvailable shows pre-filter API total ('' @ show_count apiTotal
                  @ '').'') \<rparr>))"

subsection \<open>Keyword mode\<close>

record single_status_params =
  ss_status :: string
  ss_searchQuery :: string
  ss_createdAfter :: string
  ss_limitPerStatus :: nat
  ss_inboxId :: "string option"
  ss_createdBefore :: "date_arg option"
  ss_verbose :: bool

record status_group =
  sg_status :: string
  sg_totalCount :: nat
  sg_conversations :: "conv_out list"

definition single_status_request :: "single_status_params \<Rightarrow> error + conv_query" where
  \<comment> \<open>\<open>queryParams\<close> of \<open>searchSingleStatus\<close>\<close>
  "single_status_request params =
     (case appendCreatedAtFilter (Some (ss_searchQuery params)) (Some (ss_createdAfter params))
             None of
        Inl e \<Rightarrow> Inl e
      | Inr queryWithDate \<Rightarrow>
          Inr \<lparr> q_page = 1,
                q_size = ss_limitPerStatus params,
                q_sortField = ''createdAt'',
                q_sortOrder = ''desc'',
                q_query = (if truthy queryWithDate then queryWithDate
                           else Some (ss_searchQuery params)),
                q_mailbox = (if truthy (ss_inboxId params) then ss_inboxId params else None),
                q_tag = None,
                q_status = Some (ss_status params) \<rparr>)"

definition searchSingleStatus ::
  "conv_client \<Rightarrow> single_status_params \<Rightarrow> error + status_group" where
  "searchSingleStatus get params =
     (case single_status_request params of
        Inl e \<Rightarrow> Inl e
      | Inr queryParams \<Rightarrow>
          (case fetchConversationPages get queryParams (ss_limitPerStatus params) None of
             Inl e \<Rightarrow> Inl e
           | Inr (fetched, apiTotalElements) \<Rightarrow>
               (case (if date_truthy (ss_createdBefore params)
                      then map_sum id (\<lambda>(filtered, wasFiltered, _). (filtered, wasFiltered))
                             (applyCreatedBeforeFilter fetched (the (ss_createdBefore params)))
                      else Inr (fetched, False)) of
                  Inl e \<Rightarrow> Inl e
                | Inr (conversations, filteredByDate) \<Rightarrow>
                    let conversations = take (ss_limitPerStatus params) conversations
                    in Inr \<lparr> sg_status = ss_status params,
                             sg_totalCount = (if filteredByDate then length conversations
                                              else apiTotalElements),
                             sg_conversations =
                               map (render (ss_verbose params)) conversations \<rparr>)))"

fun error_code_name :: "error_code \<Rightarrow> string" where
  "error_code_name INVALID_INPUT = ''INVALID_INPUT''"
| "error_code_name NOT_FOUND = ''NOT_FOUND''"
| "error_code_name UNAUTHORIZED = ''UNAUTHORIZED''"
| "error_code_name RATE_LIMIT = ''RATE_LIMIT''"
| "error_code_name UPSTREAM_ERROR = ''UPSTREAM_ERROR''"

fun api_code :: "error \<Rightarrow> error_code option" where
  \<comment> \<open>\<open>error.code\<close>\<close>
  "api_code (ApiError code _) = Some code"
| "api_code (OtherError _) = None"

fun error_message :: "error \<Rightarrow> string" where
  "error_message (ApiError _ msg) = msg"
| "error_message (OtherError msg) = msg"

fun keyword_collect ::
  "(string \<times> (error + status_group)) list \<Rightarrow> status_group list
     \<Rightarrow> error + status_group list" where
  \<comment> \<open>the loop over \<open>settled.entries()\<close>, with \<open>allResults\<close>\<close>
  "keyword_collect [] allResults = Inr allResults"
| "keyword_collect ((status, Inr v) # rest) allResults =
     keyword_collect rest (allResults @ [v])"
| "keyword_collect ((status, Inl e) # rest) allResults =
     (if \<not> isApiError e then Inl e
      else if api_code e = Some UNAUTHORIZED \<or> api_code e = Some INVALID_INPUT then Inl e
      else keyword_collect rest
             (allResults @ [\<lparr> sg_status = status, sg_totalCount = 0, sg_conversations = [] \<rparr>]))"

record keyword_group =
  kg_status :: string
  kg_count :: nat
  kg_totalAvailable :: nat
  kg_conversations :: "conv_out list"

record keyword_result =
  kr_query :: string
  kr_totalConversationsFound :: nat
  kr_totalAvailable :: nat
  kr_resultsByStatus :: "keyword_group list"

definition default_statuses :: "status_name list" where
  "default_statuses = [Active, Pending, Closed]"

definition search_statuses :: "search_input \<Rightarrow> status_name list" where
  \<comment> \<open>\<open>input.statuses?.length ? input.statuses : ['active', 'pending', 'closed']\<close>\<close>
  "search_statuses input =
     (if nonempty (si_statuses input) then the (si_statuses input) else default_statuses)"

definition effective_inbox :: "config \<Rightarrow> search_input \<Rightarrow> string option" where
  \<comment> \<open>\<open>input.inboxId || config.helpscout.defaultInboxId\<close>\<close>
  "effective_inbox cfg input = or_else (si_inboxId input) (defaultInboxId cfg)"

definition keyword_createdAfter :: "(nat \<Rightarrow> string) \<Rightarrow> search_input \<Rightarrow> string" where
  \<comment> \<open>\<open>input.createdAfter || this.calculateTimeRange(input.timeframeDays)\<close>\<close>
  "keyword_createdAfter isoDaysAgo input =
     (if truthy (si_createdAfter input) then the (si_createdAfter input)
      else calculateTimeRange isoDaysAgo (si_timeframeDays input))"

definition keyword_params ::
  "config \<Rightarrow> (nat \<Rightarrow> string) \<Rightarrow> search_input \<Rightarrow> bool \<Rightarrow> status_name
     \<Rightarrow> single_status_params" where
  \<comment> \<open>the argument of \<open>searchSingleStatus\<close> for one status\<close>
  "keyword_params cfg isoDaysAgo input verbose st =
     \<lparr> ss_status = status_str st,
       ss_searchQuery = buildSearchQuery (the (si_searchTerms input)) (si_searchIn input),
       ss_createdAfter = keyword_createdAfter isoDaysAgo input,
       ss_limitPerStatus = limit_or_default (si_limit input),
       ss_inboxId = effective_inbox cfg input,
       ss_createdBefore = si_createdBefore input,
       ss_verbose = verbose \<rparr>"

definition keyword_branches ::
  "config \<Rightarrow> conv_client \<Rightarrow> (nat \<Rightarrow> string) \<Rightarrow> search_input \<Rightarrow> bool
     \<Rightarrow> (string \<times> (error + status_group)) list" where
  \<comment> \<open>\<open>Promise.allSettled\<close> over the statuses: every branch runs to its own outcome\<close>
  "keyword_branches cfg get isoDaysAgo input verbose =
     map (\<lambda>st. (status_str st,
                 searchSingleStatus get (keyword_params cfg isoDaysAgo input verbose st)))
       (search_statuses input)"

definition searchConversationsKeyword ::
  "config \<Rightarrow> conv_client \<Rightarrow> (nat \<Rightarrow> string) \<Rightarrow> search_input \<Rightarrow> bool
     \<Rightarrow> error + keyword_result" where
  "searchConversationsKeyword cfg get isoDaysAgo input verbose =
     (case keyword_collect (keyword_branches cfg get isoDaysAgo input verbose) [] of
        Inl e \<Rightarrow> Inl e
      | Inr allResults \<Rightarrow>
          Inr \<lparr> kr_query = buildSearchQuery (the (si_searchTerms input)) (si_searchIn input),
                kr_totalConversationsFound =
                  foldl (\<lambda>sum r. sum + length (sg_conversations r)) 0 allResults,
                kr_totalAvailable = foldl (\<lambda>sum r. sum + sg_totalCount r) 0 allResults,
                kr_resultsByStatus =
                  map (\<lambda>r. \<lparr> kg_status = sg_status r,
                               kg_count = length (sg_conversations r),
                               kg_totalAvailable = sg_totalCount r,
                               kg_conversations = sg_conversations r \<rparr>) allResults \<rparr>)"

subsection \<open>Merging the statuses\<close>

fun push_unseen ::
  "conversation list \<Rightarrow> int set \<times> conversation list \<Rightarrow> int set \<times> conversation list" where
  \<comment> \<open>the inner loop over one status: a conversation whose id is not in \<open>seenIds\<close> is
      recorded there and pushed\<close>
  "push_unseen [] (seenIds, conversations) = (seenIds, conversations)"
| "push_unseen (conv # rest) (seenIds, conversations) =
     (if conv_id conv \<notin> seenIds
      then push_unseen rest (insert (conv_id conv) seenIds, conversations @ [conv])
      else push_unseen rest (seenIds, conversations))"

definition sort_newest_first :: "conversation list \<Rightarrow> conversation list" where
  \<comment> \<open>\<open>conversations.sort((a, b) => time(b) - time(a))\<close>; the sort is stable\<close>
  "sort_newest_first cs = sort_key (\<lambda>c. - conv_createdAt c) cs"

subsection \<open>Structured mode\<close>

record structured_result =
  sr_results :: "conv_out list"
  sr_query :: "string option"
  sr_returned :: nat
  sr_statuses :: "string list option"
  sr_clientSideFiltering :: bool

definition structured_query :: "search_input \<Rightarrow> string option" where
  \<comment> \<open>\<open>queryParts\<close> joined by \<open>AND\<close>\<close>
  "structured_query input =
     (let queryParts =
            (if nonempty (si_contentTerms input)
             then [''('' @ join '' OR ''
                     (map (\<lambda>t. field_clause ''body'' (escapeQueryTerm t))
                        (the (si_contentTerms input))) @ '')'']
             else [])
            @ (if nonempty (si_subjectTerms input)
               then [''('' @ join '' OR ''
                       (map (\<lambda>t. field_clause ''subject'' (escapeQueryTerm t))
                          (the (si_subjectTerms input))) @ '')'']
               else [])
            @ (if truthy (si_customerEmail input)
               then [field_clause ''email'' (escapeQueryTerm (the (si_customerEmail input)))]
               else [])
            @ (if truthy (si_emailDomain input)
               then [field_clause ''email''
                       (escapeQueryTerm (remove1 (CHR ''@'') (the (si_emailDomain input))))]
               else [])
            @ (if nonempty (si_tags input)
               then [''('' @ join '' OR ''
                       (map (\<lambda>t. field_clause ''tag'' (escapeQueryTerm t))
                          (the (si_tags input))) @ '')'']
               else [])
      in if queryParts \<noteq> [] then Some (join '' AND '' queryParts) else None)"

fun structured_merge ::
  "(error + conversation list \<times> nat) list \<Rightarrow> int set \<times> conversation list
     \<Rightarrow> int set \<times> conversation list" where
  \<comment> \<open>the loop over the settled results: only the fulfilled ones are read\<close>
  "structured_merge [] acc = acc"
| "structured_merge (Inr (convs, _) # rest) acc = structured_merge rest (push_unseen convs acc)"
| "structured_merge (Inl _ # rest) acc = structured_merge rest acc"

definition searchConversationsStructured ::
  "config \<Rightarrow> conv_client \<Rightarrow> search_input \<Rightarrow> bool \<Rightarrow> error + structured_result" where
  "searchConversationsStructured cfg get input verbose =
     (let queryString = structured_query input;
          effectiveLimit = limit_or_default (si_limit input);
          effectiveInboxId = effective_inbox cfg input
      in case appendCreatedAtFilter (if truthy queryString then queryString else None)
                (si_createdAfter input) None of
           Inl e \<Rightarrow> Inl e
         | Inr queryWithDate \<Rightarrow>
             let queryParams =
                   \<lparr> q_page = 1,
                     q_size = effectiveLimit,
                     q_sortField = ''createdAt'',
                     q_sortOrder = ''desc'',
                     q_query = (if truthy queryWithDate then queryWithDate
                                else if truthy queryString then queryString else None),
                     q_mailbox = (if truthy effectiveInboxId then effectiveInboxId else None),
                     q_tag = None,
                     q_status = None \<rparr>;
                 statuses = (if nonempty (si_statuses input) then si_statuses input else None)
             in case (case statuses of
                        Some sts \<Rightarrow>
                          Inr (sort_newest_first
                                 (snd (structured_merge
                                         (map (\<lambda>st. fetchConversationPages get
                                                  (queryParams\<lparr>q_status := Some (status_str st)\<rparr>)
                                                  effectiveLimit None) sts)
                                         ({}, []))))
                      | None \<Rightarrow>
                          map_sum id fst
                            (fetchConversationPages get
                               (queryParams\<lparr>q_status :=
                                  Some (case si_status input of
                                          Some st \<Rightarrow> status_str st | None \<Rightarrow> ''all'')\<rparr>)
                               effectiveLimit None)) of
                  Inl e \<Rightarrow> Inl e
                | Inr conversations \<Rightarrow>
                    (case (if date_truthy (si_createdBefore input)
                           then map_sum id (\<lambda>(filtered, wasFiltered, _). (filtered, wasFiltered))
                                  (applyCreatedBeforeFilter conversations
                                     (the (si_createdBefore input)))
                           else Inr (conversations, False)) of
                       Inl e \<Rightarrow> Inl e
                     | Inr (conversations, clientSideFiltered) \<Rightarrow>
                         let conversations = take effectiveLimit conversations
                         in Inr \<lparr> sr_results = map (render verbose) conversations,
                                  sr_query = queryString,
                                  sr_returned = length conversations,
                                  sr_statuses = map_option (map status_str) statuses,
                                  sr_clientSideFiltering = clientSideFiltered \<rparr>))"

subsection \<open>List mode\<close>

record merge_state =
  ms_seenIds :: "int set"
  ms_conversations :: "conversation list"
  ms_failedStatuses :: "failed_status list"
  ms_totalAvailable :: nat

fun list_merge ::
  "(string \<times> (error + conversation list \<times> nat)) list \<Rightarrow> merge_state \<Rightarrow> error + merge_state" where
  \<comment> \<open>the loop over \<open>results.entries()\<close>, each result with the status of its index\<close>
  "list_merge [] st = Inr st"
| "list_merge ((status, Inr (convs, totalElements)) # rest) st =
     (let (seen, merged) = push_unseen convs (ms_seenIds st, ms_conversations st)
      in list_merge rest
           (st\<lparr> ms_totalAvailable := ms_totalAvailable st + totalElements,
                ms_seenIds := seen, ms_conversations := merged \<rparr>))"
| "list_merge ((status, Inl reason) # rest) st =
     (let errorMessage = error_message reason;
          errorCode = (case api_code reason of
                         Some code \<Rightarrow> error_code_name code | None \<Rightarrow> ''UNKNOWN'')
      in if \<not> isApiError reason then Inl reason
         else if errorCode = ''UNAUTHORIZED'' \<or> errorCode = ''INVALID_INPUT'' then Inl reason
         else list_merge rest
                (st\<lparr> ms_failedStatuses := ms_failedStatuses st
                       @ [\<lparr> fs_status = status, fs_message = errorMessage,
                            fs_code = errorCode \<rparr>] \<rparr>))"

record list_result =
  lr_results :: "conv_out list"
  lr_pagination :: "pagination option"
  lr_query :: "string option"
  lr_statuses :: "string list"
  lr_clientSideFiltering :: bool

definition list_params :: "config \<Rightarrow> search_input \<Rightarrow> error + conv_query" where
  \<comment> \<open>\<open>baseParams\<close>\<close>
  "list_params cfg input =
     (case appendCreatedAtFilter (if truthy (si_query input) then si_query input else None)
             (si_createdAfter input) None of
        Inl e \<Rightarrow> Inl e
      | Inr queryWithDate \<Rightarrow>
          Inr \<lparr> q_page = 1,
                q_size = si_limit input,
                q_sortField = si_sort input,
                q_sortOrder = si_order input,
                q_query = (if truthy queryWithDate then queryWithDate
                           else if truthy (si_query input) then si_query input else None),
                q_mailbox = (if truthy (effective_inbox cfg input)
                             then effective_inbox cfg input else None),
                q_tag = (if truthy (si_tag input) then si_tag input else None),
                q_status = None \<rparr>)"

definition list_branches ::
  "conv_client \<Rightarrow> conv_query \<Rightarrow> nat \<Rightarrow> status_name list
     \<Rightarrow> (string \<times> (error + conversation list \<times> nat)) list" where
  \<comment> \<open>\<open>Promise.allSettled\<close> over the statuses: every branch runs to its own outcome\<close>
  "list_branches get baseParams effectiveLimit statuses =
     map (\<lambda>st. (status_str st,
                 fetchConversationPages get (baseParams\<lparr>q_status := Some (status_str st)\<rparr>)
                   effectiveLimit None))
       statuses"

definition list_fetch ::
  "conv_client \<Rightarrow> conv_query \<Rightarrow> search_input
     \<Rightarrow> error + conversation list \<times> string list \<times> pagination" where
  \<comment> \<open>the two branches of \<open>searchConversationsList\<close> that fetch: the conversations, the
      statuses searched and the pagination\<close>
  "list_fetch get baseParams input =
     (let effectiveLimit = limit_or_default (si_limit input)
      in if si_status input \<noteq> None \<and> si_statuses input = None
         then
           (case fetchConversationPages get
                   (baseParams\<lparr>q_status := Some (status_str (the (si_status input)))\<rparr>)
                   effectiveLimit None of
              Inl e \<Rightarrow> Inl e
            | Inr (fetched, totalElements) \<Rightarrow>
                let conversations = take effectiveLimit fetched
                in Inr (conversations, [status_str (the (si_status input))],
                        no_pagination\<lparr> pa_returned := Some (length conversations),
                                       pa_totalAvailable := Some totalElements \<rparr>))
         else
           (let statuses = search_statuses input
            in case list_merge (list_branches get baseParams effectiveLimit statuses)
                      \<lparr> ms_seenIds = {}, ms_conversations = [], ms_failedStatuses = [],
                        ms_totalAvailable = 0 \<rparr> of
                 Inl e \<Rightarrow> Inl e
               | Inr st \<Rightarrow>
                   let failedStatuses = ms_failedStatuses st;
                       searchedStatuses =
                         (if failedStatuses \<noteq> []
                          then filter (\<lambda>s. \<not> (\<exists>f \<in> set failedStatuses. fs_status f = s))
                                 (map status_str statuses)
                          else map status_str statuses);
                       conversations =
                         take effectiveLimit (sort_newest_first (ms_conversations st))
                   in Inr (conversations, searchedStatuses,
                           no_pagination
                             \<lparr> pa_returned := Some (length conversations),
                               pa_totalAvailable := Some (ms_totalAvailable st),
                               pa_errors := (if failedStatuses \<noteq> [] then Some failedStatuses
                                             else None) \<rparr>)))"

definition searchConversationsList ::
  "config \<Rightarrow> conv_client \<Rightarrow> search_input \<Rightarrow> bool \<Rightarrow> error + list_result" where
  "searchConversationsList cfg get input verbose =
     (case list_params cfg input of
        Inl e \<Rightarrow> Inl e
      | Inr baseParams \<Rightarrow>
          (case list_fetch get baseParams input of
             Inl e \<Rightarrow> Inl e
           | Inr (conversations, searchedStatuses, originalPagination) \<Rightarrow>
               (case (if date_truthy (si_createdBefore input)
                      then map_sum id (\<lambda>(filtered, wasFiltered, _). (filtered, wasFiltered))
                             (applyCreatedBeforeFilter conversations
                                (the (si_createdBefore input)))
                      else Inr (conversations, False)) of
                  Inl e \<Rightarrow> Inl e
                | Inr (conversations, clientSideFiltered) \<Rightarrow>
                    let pagination =
                          (if clientSideFiltered
                           then (if si_status input \<noteq> None
                                 then buildFilteredPagination (length conversations)
                                        (Some originalPagination) True
                                 else Some (no_pagination
                                        \<lparr> pa_totalResults := Some (length conversations),
                                          pa_totalAvailable := pa_totalAvailable originalPagination,
                                          pa_errors := pa_errors originalPagination,
                                          pa_note := Some (''Client-side createdBefore filter applied to merged results. ''
                                             @ (case pa_note originalPagination of
                                                  None \<Rightarrow> [] | Some n \<Rightarrow> n)) \<rparr>))
                           else Some originalPagination)
                    in Inr \<lparr> lr_results = map (render verbose) conversations,
                             lr_pagination = pagination,
                             lr_query = (if truthy (si_query input) then si_query input else None),
                             lr_statuses = searchedStatuses,
                             lr_clientSideFiltering = clientSideFiltered \<rparr>)))"

section \<open>Upstreams and inputs for the examples\<close>

text \<open>
  An upstream that holds the conversations \<open>all\<close> and serves them in pages of \<open>P\<close>
  records, with the total in \<open>page.totalElements\<close> and \<open>_links.next\<close> present exactly
  when records remain after the page.
\<close>

definition paged_upstream :: "nat \<Rightarrow> conversation list \<Rightarrow> conv_client" where
  "paged_upstream P all q =
     Inr \<lparr> pg_conversations = Some (take P (drop ((q_page q - 1) * P) all)),
           pg_totalElements = Some (length all),
           pg_next = (q_page q * P < length all) \<rparr>"

definition sample_conversation :: "int \<Rightarrow> int \<Rightarrow> conversation" where
  "sample_conversation i t =
     \<lparr> conv_id = i, conv_number = i, conv_subject = ''subject'', conv_status = ''active'',
       conv_preview = ''preview'', conv_mailboxId = 1, conv_assignee = None,
       conv_createdBy = None, conv_customer = None, conv_tags = [],
       conv_createdAt = t, conv_closedAt = None, conv_waitingSince = None \<rparr>"

definition sample_input :: search_input where
  "sample_input =
     \<lparr> si_query = None, si_inboxId = None, si_tag = None, si_status = None,
       si_statuses = None, si_createdAfter = None, si_createdBefore = None, si_limit = 50,
       si_sort = ''createdAt'', si_order = ''desc'', si_searchTerms = None,
       si_searchIn = [BOTH], si_timeframeDays = 60, si_contentTerms = None,
       si_subjectTerms = None, si_customerEmail = None, si_emailDomain = None,
       si_tags = None, si_includeTranscripts = False, si_transcriptMaxMessages = 10 \<rparr>"

section \<open>Threads and transcripts\<close>

text \<open>
  A thread of a conversation, with the fields that the handler reads; \<open>createdAt\<close> is
  the instant it denotes, as for conversations, and \<open>attachments\<close> is the length of the
  array when the thread has one.
\<close>

record thread =
  th_id :: int
  th_type :: string
  th_state :: string
  th_status :: string
  th_body :: "string option"
  th_customer :: "person option"
  th_createdBy :: "person option"
  th_createdAt :: int
  th_attachments :: "nat option"

record thread_page =
  tp_threads :: "thread list option"
  tp_totalElements :: "nat option"
  tp_next :: bool

type_synonym thread_client = "string \<Rightarrow> nat \<Rightarrow> nat \<Rightarrow> error + thread_page"

function fetchThreadLoop ::
  "thread_client \<Rightarrow> string \<Rightarrow> nat \<Rightarrow> nat \<Rightarrow> thread list \<Rightarrow> nat \<Rightarrow> nat \<Rightarrow> bool
     \<Rightarrow> error + thread list \<times> nat" where
  \<comment> \<open>the \<open>while\<close> loop of \<open>fetchThreadPages\<close> from a state of its variables; the client
      takes the conversation, the page and the size\<close>
  "fetchThreadLoop getThreadPage conversationId desiredCount maxPages threads totalElements
     currentPage hasMore =
     (if length threads < desiredCount \<and> hasMore \<and> currentPage \<le> maxPages
      then
        (case getThreadPage conversationId currentPage desiredCount of
           Inl e \<Rightarrow> Inl e
         | Inr response \<Rightarrow>
             fetchThreadLoop getThreadPage conversationId desiredCount maxPages
               (threads @ (case tp_threads response of None \<Rightarrow> [] | Some ts \<Rightarrow> ts))
               (case tp_totalElements response of
                  None \<Rightarrow> totalElements
                | Some t \<Rightarrow> if t \<noteq> 0 then t else totalElements)
               (currentPage + 1)
               (tp_next response))
      else Inr (threads, totalElements))"
  by pat_completeness auto
termination
  by (relation "measure (\<lambda>(getThreadPage, conversationId, desiredCount, maxPages, threads,
                            totalElements, currentPage, hasMore).
                          Suc maxPages - currentPage)") auto

declare fetchThreadLoop.simps [simp del]

definition fetchThreadPages ::
  "thread_client \<Rightarrow> string \<Rightarrow> nat \<Rightarrow> error + thread list \<times> nat" where
  "fetchThreadPages getThreadPage conversationId desiredCount =
     fetchThreadLoop getThreadPage conversationId desiredCount
       ((desiredCount + 24) div 25 + 1) [] 0 1 True"

subsection \<open>Plain text of a message body\<close>

definition js_trim :: "string \<Rightarrow> string" where
  \<comment> \<open>\<open>s.trim()\<close>\<close>
  "js_trim s = rev (dropWhile is_space (rev (dropWhile is_space s)))"

fun split_on :: "char \<Rightarrow> string \<Rightarrow> string list" where
  \<comment> \<open>\<open>s.split(c)\<close>\<close>
  "split_on c [] = [[]]"
| "split_on c (x # xs) =
     (if x = c then [] # split_on c xs
      else (case split_on c xs of
              [] \<Rightarrow> [[x]]
            | w # ws \<Rightarrow> (x # w) # ws))"

definition replace_ci :: "string \<Rightarrow> string \<Rightarrow> string \<Rightarrow> string" where
  \<comment> \<open>\<open>s.replace(/literal/gi, rep)\<close>\<close>
  "replace_ci pat rep s =
     gsub (\<lambda>t. case strip_prefix_ci pat t of None \<Rightarrow> None | Some rest \<Rightarrow> Some (rep, rest)) s"

definition replace_lit :: "string \<Rightarrow> string \<Rightarrow> string \<Rightarrow> string" where
  \<comment> \<open>\<open>s.replace(/literal/g, rep)\<close>\<close>
  "replace_lit pat rep s =
     gsub (\<lambda>t. case strip_prefix pat t of None \<Rightarrow> None | Some rest \<Rightarrow> Some (rep, rest)) s"

definition br_tag :: "string \<Rightarrow> (string \<times> string) option" where
  \<comment> \<open>\<open><br\s*\/?>\<close> replaced by a newline\<close>
  "br_tag s =
     (case strip_prefix_ci ''<br'' s of
        None \<Rightarrow> None
      | Some r \<Rightarrow>
          (case skip_spaces r of
             c # rest \<Rightarrow>
               if c = CHR ''>'' then Some ([CHR 0x0A], rest)
               else if c = CHR ''/''
               then (case rest of
                       d # rest' \<Rightarrow> if d = CHR ''>'' then Some ([CHR 0x0A], rest') else None
                     | [] \<Rightarrow> None)
               else None
           | [] \<Rightarrow> None))"

definition any_tag :: "string \<Rightarrow> (string \<times> string) option" where
  \<comment> \<open>\<open><[^>]+>\<close> replaced by the empty string\<close>
  "any_tag s =
     (case s of
        c # r \<Rightarrow>
          if c = CHR ''<''
          then (case until_gt r of
                  None \<Rightarrow> None
                | Some (inner, rest) \<Rightarrow> if inner = [] then None else Some ([], rest))
          else None
      | [] \<Rightarrow> None)"

definition run_of :: "char \<Rightarrow> nat \<Rightarrow> string \<Rightarrow> string \<Rightarrow> (string \<times> string) option" where
  \<comment> \<open>\<open>c{n,}\<close> replaced by \<open>rep\<close>\<close>
  "run_of c n rep s =
     (if n \<le> length (takeWhile (\<lambda>x. x = c) s)
      then Some (rep, dropWhile (\<lambda>x. x = c) s) else None)"

definition stripHtml :: "string \<Rightarrow> string" where
  "stripHtml html =
     (let s = gsub br_tag html;
          s = replace_ci ''</p>'' [CHR 0x0A] s;
          s = replace_ci ''</div>'' [CHR 0x0A] s;
          s = gsub any_tag s;
          s = replace_ci ''&nbsp;'' '' '' s;
          s = replace_ci ''&amp;'' ''&'' s;
          s = replace_ci ''&lt;'' ''<'' s;
          s = replace_ci ''&gt;'' ''>'' s;
          s = replace_ci ''&quot;'' [CHR 0x22] s;
          s = replace_ci ''&#39;'' [CHR 0x27] s;
          s = replace_lit [CHR 0x0D, CHR 0x0A] [CHR 0x0A] s;
          s = replace_lit [CHR 0x0D] [CHR 0x0A] s;
          s = replace_lit [CHR 0x09] '' '' s;
          s = gsub (run_of (CHR '' '') 2 '' '') s;
          s = gsub (run_of (CHR 0x0A) 3 [CHR 0x0A, CHR 0x0A]) s
      in js_trim (join [CHR 0x0A] (map js_trim (split_on (CHR 0x0A) s))))"

subsection \<open>Beacon forms\<close>

fun contains :: "string \<Rightarrow> string \<Rightarrow> bool" where
  \<comment> \<open>\<open>/literal/.test(s)\<close>\<close>
  "contains pat [] = (pat = [])"
| "contains pat (c # cs) = (strip_prefix pat (c # cs) \<noteq> None \<or> contains pat cs)"

fun find_ci :: "string \<Rightarrow> string \<Rightarrow> (string \<times> string) option" where
  \<comment> \<open>the lazy \<open>[\s\S]*?\<close> before a literal: the text before its first occurrence and
      the text after it\<close>
  "find_ci pat [] = (if pat = [] then Some ([], []) else None)"
| "find_ci pat (c # cs) =
     (case strip_prefix_ci pat (c # cs) of
        Some rest \<Rightarrow> Some ([], rest)
      | None \<Rightarrow>
          (case find_ci pat cs of
             None \<Rightarrow> None
           | Some (before, rest) \<Rightarrow> Some (c # before, rest)))"

fun first_match :: "(string \<Rightarrow> 'a option) \<Rightarrow> string \<Rightarrow> 'a option" where
  \<comment> \<open>\<open>s.match(/re/)\<close>: the match at the leftmost position that has one\<close>
  "first_match m [] = m []"
| "first_match m (c # cs) =
     (case m (c # cs) of Some r \<Rightarrow> Some r | None \<Rightarrow> first_match m cs)"

fun all_matches :: "(string \<Rightarrow> ('a \<times> string) option) \<Rightarrow> string \<Rightarrow> 'a list" where
  \<comment> \<open>the loop \<open>while ((match = re.exec(s)) !== null)\<close> of a global expression: \<open>m\<close>
      gives the capture and the remainder\<close>
  "all_matches m [] = []"
| "all_matches m (c # cs) =
     (case m (c # cs) of
        None \<Rightarrow> all_matches m cs
      | Some (cap, rest) \<Rightarrow>
          (if length rest < length (c # cs) then cap # all_matches m rest
           else cap # all_matches m cs))"

definition spaces1 :: "string \<Rightarrow> string option" where
  \<comment> \<open>\<open>\s+\<close>\<close>
  "spaces1 s = (case s of c # r \<Rightarrow> if is_space c then Some (skip_spaces r) else None
                | [] \<Rightarrow> None)"

definition ticket_link :: "string \<Rightarrow> string option" where
  \<comment> \<open>\<open><a\s+href="([^"]+)"[^>]*>View Full Ticket<\/a>\<close> under the \<open>i\<close> flag: the group\<close>
  "ticket_link s =
     Option.bind (strip_prefix_ci ''<a'' s) (\<lambda>r.
     Option.bind (spaces1 r) (\<lambda>r1.
     Option.bind (strip_prefix_ci (''href='' @ [CHR 0x22]) r1) (\<lambda>r2.
     let url = takeWhile (\<lambda>c. c \<noteq> CHR 0x22) r2
     in if url = [] then None
        else Option.bind (strip_prefix [CHR 0x22] (dropWhile (\<lambda>c. c \<noteq> CHR 0x22) r2)) (\<lambda>r3.
             Option.bind (until_gt r3) (\<lambda>(_, r4).
             Option.bind (strip_prefix_ci ''View Full Ticket</a>'' r4) (\<lambda>_.
             Some url))))))"

definition hidden_span :: "string \<Rightarrow> string option" where
  \<comment> \<open>\<open><span style="display: none">([\s\S]*?)<\/span>\<close> under the \<open>i\<close> flag: the group\<close>
  "hidden_span s =
     (case strip_prefix_ci (''<span style='' @ [CHR 0x22] @ ''display: none'' @ [CHR 0x22] @ ''>'') s of
        None \<Rightarrow> None
      | Some r \<Rightarrow> map_option fst (find_ci ''</span>'' r))"

definition answer_row :: "string \<Rightarrow> (string \<times> string) option" where
  \<comment> \<open>\<open>answerRegex\<close> at the start of the string: the group and the remainder. Each lazy
      \<open>[\s\S]*?\<close> stops at the first occurrence of what follows it\<close>
  "answer_row s =
     Option.bind (strip_prefix_ci ''<tr'' s) (\<lambda>r.
     Option.bind (spaces1 r) (\<lambda>r1.
     Option.bind (strip_prefix_ci (''bgcolor='' @ [CHR 0x22] @ ''#FFFFFF'' @ [CHR 0x22]) r1) (\<lambda>r2.
     Option.bind (until_gt r2) (\<lambda>(_, r3).
     Option.bind (find_ci ''<td'' r3) (\<lambda>(_, r4).
     Option.bind (find_ci ''<font'' r4) (\<lambda>(_, r5).
     Option.bind (until_gt r5) (\<lambda>(_, r6).
     Option.bind (find_ci ''</font>'' r6) (\<lambda>(answer, r7).
     Option.bind (find_ci ''</tr>'' r7) (\<lambda>(_, r8).
     Some (answer, r8))))))))))"

definition source_suffix :: "string \<Rightarrow> string" where
  \<comment> \<open>the text appended when the source link is known\<close>
  "source_suffix sourceUrl =
     (if sourceUrl \<noteq> [] then ''<br>'' @ [CHR 0x0A] @ ''<br>'' @ [CHR 0x0A] @ ''Source: '' @ sourceUrl
      else [])"

definition cleanBeaconForm :: "string \<Rightarrow> string" where
  "cleanBeaconForm html =
     (if \<not> contains (''bgcolor='' @ [CHR 0x22] @ ''#EAEAEA'' @ [CHR 0x22]) html then html
      else
        let sourceUrl = (case first_match ticket_link html of
                           Some url \<Rightarrow> replace_ci ''&amp;'' ''&'' url
                         | None \<Rightarrow> []);
            hiddenMatch = first_match hidden_span html
        in if (case hiddenMatch of Some h \<Rightarrow> js_trim h \<noteq> [] | None \<Rightarrow> False)
           then the hiddenMatch @ source_suffix sourceUrl
           else
             let answers = filter (\<lambda>t. t \<noteq> [] \<and> t \<noteq> ''&nbsp;'')
                             (map js_trim (all_matches answer_row html));
                 message = (if answers \<noteq> [] then last answers else [])
                             @ source_suffix sourceUrl
             in if message \<noteq> [] then message else html)"

subsection \<open>Transcripts\<close>

definition redacted :: string where
  "redacted = ''[Content hidden - set REDACT_MESSAGE_CONTENT=false to view]''"

record transcript_message =
  tm_role :: string
  tm_from :: string
  tm_date :: int
  tm_body :: string
  tm_attachments :: "nat option"

definition person_name :: "person \<Rightarrow> string" where
  \<comment> \<open>the first and the last name, with a space between, trimmed\<close>
  "person_name p =
     js_trim ((case or_else (p_first p) (p_firstName p) of
                 Some n \<Rightarrow> n | None \<Rightarrow> [])
              @ '' ''
              @ (case or_else (p_last p) (p_lastName p) of
                   Some n \<Rightarrow> n | None \<Rightarrow> []))"

definition attachment_count :: "nat option \<Rightarrow> nat option" where
  \<comment> \<open>the key \<open>attachments\<close> is present when the array is not empty\<close>
  "attachment_count a = (case a of Some n \<Rightarrow> if n > 0 then Some n else None | None \<Rightarrow> None)"

definition is_dialogue :: "thread \<Rightarrow> bool" where
  \<comment> \<open>the filter of \<open>buildTranscript\<close>\<close>
  "is_dialogue t =
     (if th_type t \<noteq> ''customer'' \<and> th_type t \<noteq> ''message'' then False
      else if th_state t = ''draft'' then False
      else True)"

definition transcript_entry :: "config \<Rightarrow> thread \<Rightarrow> transcript_message" where
  "transcript_entry cfg t =
     (let isCustomer = (th_type t = ''customer'');
          person = (if isCustomer then th_customer t else th_createdBy t);
          rawBody = (case th_body t of Some b \<Rightarrow> b | None \<Rightarrow> [])
      in \<lparr> tm_role = (if isCustomer then ''customer'' else ''staff''),
           tm_from = (case person of
                        Some p \<Rightarrow> person_name p
                      | None \<Rightarrow> if isCustomer then ''Customer'' else ''Staff''),
           tm_date = th_createdAt t,
           tm_body = (if allowPii cfg then stripHtml (cleanBeaconForm rawBody) else redacted),
           tm_attachments = attachment_count (th_attachments t) \<rparr>)"

definition buildTranscript :: "config \<Rightarrow> thread list \<Rightarrow> nat \<Rightarrow> transcript_message list" where
  "buildTranscript cfg threads maxMessages =
     (let dialogueThreads = filter is_dialogue threads;
          dialogueThreads = sort_key th_createdAt dialogueThreads;
          limited = take maxMessages dialogueThreads
      in map (transcript_entry cfg) limited)"

text \<open>
  A conversation of a search result with what \<open>attachTranscripts\<close> adds to it: the
  transcript, or \<open>transcript: null\<close> with \<open>transcriptError\<close>.
\<close>

record with_transcript =
  wt_conversation :: conv_out
  wt_transcript :: "transcript_message list option"
  wt_transcriptError :: "string option"

definition attachTranscripts ::
  "config \<Rightarrow> thread_client \<Rightarrow> conv_out list \<Rightarrow> nat \<Rightarrow> with_transcript list" where
  \<comment> \<open>\<open>Promise.allSettled\<close> over the conversations, then the map over the outcomes\<close>
  "attachTranscripts cfg getThreadPage conversations maxMessages =
     map (\<lambda>conv.
            case fetchThreadPages getThreadPage (number_string (out_id conv)) maxMessages of
              Inr (threads, _) \<Rightarrow>
                \<lparr> wt_conversation = conv,
                  wt_transcript = Some (buildTranscript cfg threads maxMessages),
                  wt_transcriptError = None \<rparr>
            | Inl _ \<Rightarrow>
                \<lparr> wt_conversation = conv, wt_transcript = None,
                  wt_transcriptError = Some ''Failed to fetch'' \<rparr>)
       conversations"

subsection \<open>Search with transcripts\<close>

datatype search_result =
    KeywordResult keyword_result
  | StructuredResult structured_result
  | ListResult list_result

text \<open>
  The result of \<open>searchConversations\<close>: the result of the search mode, and with
  \<open>includeTranscripts\<close> the conversations with their transcripts (one list per status
  group in keyword mode, one list otherwise) and \<open>transcriptMaxMessages\<close>.
\<close>

datatype search_outcome =
    Plain search_result
  | WithTranscripts search_result "with_transcript list list" nat

definition enrichWithTranscripts ::
  "config \<Rightarrow> thread_client \<Rightarrow> search_result \<Rightarrow> nat \<Rightarrow> search_outcome" where
  "enrichWithTranscripts cfg getThreadPage result maxMessages =
     (case result of
        KeywordResult r \<Rightarrow>
          WithTranscripts result
            (map (\<lambda>statusGroup. attachTranscripts cfg getThreadPage
                                  (kg_conversations statusGroup) maxMessages)
               (kr_resultsByStatus r))
            maxMessages
      | StructuredResult r \<Rightarrow>
          WithTranscripts result
            [attachTranscripts cfg getThreadPage (sr_results r) maxMessages] maxMessages
      | ListResult r \<Rightarrow>
          WithTranscripts result
            [attachTranscripts cfg getThreadPage (lr_results r) maxMessages] maxMessages)"

definition searchConversations ::
  "config \<Rightarrow> conv_client \<Rightarrow> thread_client \<Rightarrow> (nat \<Rightarrow> string) \<Rightarrow> nat option \<Rightarrow> bool option
     \<Rightarrow> search_input \<Rightarrow> error + search_outcome" where
  \<comment> \<open>\<open>limitArg\<close> and \<open>verboseArg\<close> are the arguments \<open>limit\<close> and \<open>verbose\<close> as given;
      the schema's default for \<open>limit\<close> is 50\<close>
  "searchConversations cfg get getThreadPage isoDaysAgo limitArg verboseArg parsed =
     (let verbose = isVerbose cfg verboseArg;
          input = parsed\<lparr> si_limit :=
                    (if si_includeTranscripts parsed
                        \<and> (case limitArg of None \<Rightarrow> True | Some l \<Rightarrow> l = 0)
                     then 10
                     else (case limitArg of None \<Rightarrow> 50 | Some l \<Rightarrow> l)) \<rparr>;
          result =
            (if nonempty (si_searchTerms input)
             then map_sum id KeywordResult
                    (searchConversationsKeyword cfg get isoDaysAgo input verbose)
             else if nonempty (si_contentTerms input) \<or> nonempty (si_subjectTerms input)
                     \<or> truthy (si_customerEmail input) \<or> truthy (si_emailDomain input)
                     \<or> nonempty (si_tags input)
             then map_sum id StructuredResult
                    (searchConversationsStructured cfg get input verbose)
             else map_sum id ListResult (searchConversationsList cfg get input verbose))
      in case result of
           Inl e \<Rightarrow> Inl e
         | Inr r \<Rightarrow>
             if si_includeTranscripts input
             then Inr (enrichWithTranscripts cfg getThreadPage r (si_transcriptMaxMessages input))
             else Inr (Plain r))"

definition transcriptMaxMessages_default :: nat where
  \<comment> \<open>\<open>transcriptMaxMessages: z.number().min(1).max(50).default(10)\<close>\<close>
  "transcriptMaxMessages_default = 10"

definition parse_transcriptMaxMessages :: "nat option \<Rightarrow> error + nat" where
  "parse_transcriptMaxMessages arg =
     (case arg of
        None \<Rightarrow> Inr transcriptMaxMessages_default
      | Some n \<Rightarrow>
          if n < 1 then Inl (OtherError ''Number must be greater than or equal to 1'')
          else if 50 < n then Inl (OtherError ''Number must be less than or equal to 50'')
          else Inr n)"

section \<open>Reading threads\<close>

datatype thread_format = FullFormat | TranscriptFormat

record get_threads_input =
  gt_conversationId :: string
  gt_format :: thread_format
  gt_limit :: nat
  gt_verbose :: "bool option"

record slim_author =
  sa_id :: int
  sa_type :: "string option"
  sa_first :: "string option"
  sa_last :: "string option"
  sa_email :: "string option"

record slim_thread =
  sth_id :: int
  sth_type :: string
  sth_status :: string
  sth_body :: "string option"
  sth_createdBy :: "slim_author option"
  sth_customer :: "slim_person option"
  sth_createdAt :: int
  sth_attachments :: "nat option"

datatype threads_result =
    TranscriptThreads string "transcript_message list" nat nat
  | VerboseThreads string "thread list" nat nat
  | SlimThreads string "slim_thread list" nat nat

definition slimThread :: "config \<Rightarrow> thread \<Rightarrow> slim_thread" where
  "slimThread cfg t =
     \<lparr> sth_id = th_id t,
       sth_type = th_type t,
       sth_status = th_status t,
       sth_body = (if allowPii cfg then th_body t else Some redacted),
       sth_createdBy =
         map_option (\<lambda>p. \<lparr> sa_id = p_id p, sa_type = p_type p,
                           sa_first = or_else (p_first p) (p_firstName p),
                           sa_last = or_else (p_last p) (p_lastName p),
                           sa_email = p_email p \<rparr>) (th_createdBy t),
       sth_customer = map_option slimPerson (th_customer t),
       sth_createdAt = th_createdAt t,
       sth_attachments = attachment_count (th_attachments t) \<rparr>"

definition getThreads ::
  "config \<Rightarrow> thread_client \<Rightarrow> get_threads_input \<Rightarrow> error + threads_result" where
  "getThreads cfg getThreadPage input =
     (case fetchThreadPages getThreadPage (gt_conversationId input) (gt_limit input) of
        Inl e \<Rightarrow> Inl e
      | Inr (allThreads, totalElements) \<Rightarrow>
          let threads = take (gt_limit input) allThreads
          in if gt_format input = TranscriptFormat
             then
               (let transcript = buildTranscript cfg threads (length threads)
                in Inr (TranscriptThreads (gt_conversationId input) transcript
                          (length transcript) totalElements))
             else if isVerbose cfg (gt_verbose input)
             then
               (let redactedThreads =
                      (if allowPii cfg then threads
                       else map (\<lambda>t. t\<lparr> th_body := Some redacted \<rparr>) threads)
                in Inr (VerboseThreads (gt_conversationId input) redactedThreads
                          (length threads) totalElements))
             else Inr (SlimThreads (gt_conversationId input) (map (slimThread cfg) threads)
                         (length threads) totalElements))"

record summary_message =
  sm_id :: int
  sm_body :: "string option"
  sm_createdAt :: int
  sm_person :: "person option"

datatype summary_result =
    VerboseSummary conversation "thread list"
  | SlimSummary slim_conversation "summary_message option" "summary_message option"

definition first_of :: "'a list \<Rightarrow> 'a option" where
  \<comment> \<open>\<open>xs[0]\<close>, undefined on the empty array\<close>
  "first_of xs = (case xs of [] \<Rightarrow> None | x # _ \<Rightarrow> Some x)"

definition getConversationSummary ::
  "config \<Rightarrow> (string \<Rightarrow> error + conversation) \<Rightarrow> thread_client \<Rightarrow> string \<Rightarrow> bool option
     \<Rightarrow> error + summary_result" where
  "getConversationSummary cfg getConversation getThreadPage conversationId verboseArg =
     (case getConversation conversationId of
        Inl e \<Rightarrow> Inl e
      | Inr conversation \<Rightarrow>
          (case fetchThreadPages getThreadPage conversationId 200 of
             Inl e \<Rightarrow> Inl e
           | Inr (threads, _) \<Rightarrow>
               if isVerbose cfg verboseArg then Inr (VerboseSummary conversation threads)
               else
                 let customerThreads = filter (\<lambda>t. th_type t = ''customer'') threads;
                     staffThreads = filter (\<lambda>t. th_type t = ''message'' \<and> th_createdBy t \<noteq> None)
                                      threads;
                     firstCustomerMessage = first_of (sort_key th_createdAt customerThreads);
                     latestStaffReply =
                       first_of (sort_key (\<lambda>t. - th_createdAt t) staffThreads)
                 in Inr (SlimSummary (slimConversation conversation)
                           (map_option
                              (\<lambda>t. \<lparr> sm_id = th_id t,
                                     sm_body = (if allowPii cfg then th_body t
                                                else Some redacted),
                                     sm_createdAt = th_createdAt t,
                                     sm_person = th_customer t \<rparr>) firstCustomerMessage)
                           (map_option
                              (\<lambda>t. \<lparr> sm_id = th_id t,
                                     sm_body = (if allowPii cfg then th_body t
                                                else Some redacted),
                                     sm_createdAt = th_createdAt t,
                                     sm_person = th_createdBy t \<rparr>) latestStaffReply))))"

section \<open>Dispatching a tool call\<close>

datatype arg_value =
    Str string
  | Num int
  | Bool bool
  | Obj "(string \<times> arg_value) list"
  | Arr "arg_value list"

record tool_call_context =
  tc_toolName :: string
  tc_arguments :: "(string \<times> arg_value) list"
  tc_userQuery :: "string option"
  tc_previousCalls :: "string list"

record validation_result =
  vr_isValid :: bool
  vr_errors :: "string list"
  vr_suggestions :: "string list"
  vr_requiredPrerequisites :: "string list option"

record handler_state =
  hs_callHistory :: "string list"
  hs_currentUserQuery :: "string option"

record validation_failure =
  vf_error :: string
  vf_errors :: "string list"
  vf_suggestions :: "string list"
  vf_requiredPrerequisites :: "string list option"
  vf_message :: string
  vf_requiredActions :: "string list"
  vf_requirementSuggestions :: "string list"

text \<open>
  A call ends in one of three tool results: the validation failure, the payload of the
  tool with the guidance added to it, or the error result made of what the tool threw.
  \<open>HelpScoutAPIConstraints.validateToolCall\<close>, the tools themselves (\<open>run\<close>, which gives
  the payload or what was thrown, and the network requests issued) and
  \<open>generateToolGuidance\<close> are parameters of the dispatcher.
\<close>

datatype 'p tool_result =
    ValidationFailed validation_failure
  | ToolPayload 'p "string list"
  | ToolError error

definition callTool ::
  "(tool_call_context \<Rightarrow> validation_result)
     \<Rightarrow> (string \<Rightarrow> (string \<times> arg_value) list \<Rightarrow> (error + 'p) \<times> 'r list)
     \<Rightarrow> (string \<Rightarrow> 'p \<Rightarrow> tool_call_context \<Rightarrow> string list)
     \<Rightarrow> handler_state \<Rightarrow> string \<Rightarrow> (string \<times> arg_value) list option
     \<Rightarrow> 'p tool_result \<times> handler_state \<times> 'r list" where
  "callTool validateToolCall run generateToolGuidance st name arguments =
     (let args = (case arguments of None \<Rightarrow> [] | Some a \<Rightarrow> a);
          validationContext =
            \<lparr> tc_toolName = name, tc_arguments = args,
              tc_userQuery = hs_currentUserQuery st,
              tc_previousCalls = hs_callHistory st \<rparr>;
          validation = validateToolCall validationContext
      in if \<not> vr_isValid validation
         then (ValidationFailed
                 \<lparr> vf_error = ''API Constraint Validation Failed'',
                   vf_errors = vr_errors validation,
                   vf_suggestions = vr_suggestions validation,
                   vf_requiredPrerequisites = vr_requiredPrerequisites validation,
                   vf_message = ''This call violates Help Scout API constraints'',
                   vf_requiredActions =
                     (case vr_requiredPrerequisites validation of
                        None \<Rightarrow> [] | Some ps \<Rightarrow> ps),
                   vf_requirementSuggestions = vr_suggestions validation \<rparr>,
               st, [])
         else
           (case run name args of
              (Inl e, requests) \<Rightarrow> (ToolError e, st, requests)
            | (Inr payload, requests) \<Rightarrow>
                (ToolPayload payload (generateToolGuidance name payload validationContext),
                 st\<lparr> hs_callHistory := hs_callHistory st @ [name] \<rparr>,
                 requests)))"

text \<open>
  Modelled from the spec: \<open>HelpScoutAPIConstraints.validateToolCall\<close> of
  \<open>utils/api-constraints\<close>, which is not among the sources. The rules of a reply are the
  specification's: \<open>conversationId\<close> must match \<open>^\d+$\<close>, and \<open>text\<close> and \<open>customer\<close> are
  required; the messages are those that the handler's tests expect. The specification
  does not give the suggestions and the prerequisite tools of a failure: they are
  parameters.
\<close>

definition all_digits :: "string \<Rightarrow> bool" where
  \<comment> \<open>\<open>/^\d+$/.test(s)\<close>\<close>
  "all_digits s = (s \<noteq> [] \<and> (\<forall>c \<in> set s. is_digit c))"

definition reply_rule_errors :: "(string \<times> arg_value) list \<Rightarrow> string list" where
  "reply_rule_errors args =
     (case map_of args ''conversationId'' of
        Some (Str s) \<Rightarrow> if all_digits s then [] else [''Invalid conversation ID format'']
      | _ \<Rightarrow> [])
     @ (if map_of args ''text'' = None then [''text is required''] else [])
     @ (if map_of args ''customer'' = None then [''customer is required''] else [])"

definition spec_validateToolCall ::
  "(tool_call_context \<Rightarrow> string list) \<Rightarrow> (tool_call_context \<Rightarrow> string list option)
     \<Rightarrow> tool_call_context \<Rightarrow> validation_result" where
  "spec_validateToolCall suggestionsFor prerequisitesFor ctx =
     (let errs = (if tc_toolName ctx = ''createReply''
                  then reply_rule_errors (tc_arguments ctx) else [])
      in \<lparr> vr_isValid = (errs = []),
           vr_errors = errs,
           vr_suggestions = (if errs = [] then [] else suggestionsFor ctx),
           vr_requiredPrerequisites = (if errs = [] then None else prerequisitesFor ctx) \<rparr>)"

section \<open>The joins as the specification words them\<close>

text \<open>
  The definitions of this section restate, for the theorems, what a join of settled
  branches yields: which rejection aborts the call, the records of the fulfilled
  branches, the first record of each id, the markers of the failed statuses.
\<close>

definition aborts_call :: "error \<Rightarrow> bool" where
  "aborts_call e =
     (\<not> isApiError e \<or> api_code e = Some UNAUTHORIZED \<or> api_code e = Some INVALID_INPUT)"

fun first_abort :: "(string \<times> (error + 'a)) list \<Rightarrow> error option" where
  "first_abort [] = None"
| "first_abort ((s, Inr _) # rest) = first_abort rest"
| "first_abort ((s, Inl e) # rest) = (if aborts_call e then Some e else first_abort rest)"

fun first_by_id :: "conversation list \<Rightarrow> conversation list" where
  "first_by_id [] = []"
| "first_by_id (c # cs) = c # first_by_id (filter (\<lambda>d. conv_id d \<noteq> conv_id c) cs)"

definition fulfilled_conversations ::
  "(string \<times> (error + conversation list \<times> nat)) list \<Rightarrow> conversation list" where
  "fulfilled_conversations branches =
     concat (map (\<lambda>(s, r). case r of Inr (cs, _) \<Rightarrow> cs | Inl _ \<Rightarrow> []) branches)"

definition failed_statuses ::
  "(string \<times> (error + 'a)) list \<Rightarrow> failed_status list" where
  "failed_statuses branches =
     concat (map (\<lambda>(s, r). case r of
                    Inl e \<Rightarrow> [\<lparr> fs_status = s, fs_message = error_message e,
                                fs_code = (case api_code e of
                                             Some code \<Rightarrow> error_code_name code
                                           | None \<Rightarrow> ''UNKNOWN'') \<rparr>]
                  | Inr _ \<Rightarrow> []) branches)"

definition total_available ::
  "(string \<times> (error + conversation list \<times> nat)) list \<Rightarrow> nat" where
  "total_available branches =
     sum_list (map (\<lambda>(s, r). case r of Inr (_, t) \<Rightarrow> t | Inl _ \<Rightarrow> 0) branches)"


definition empty_group :: "string \<Rightarrow> status_group" where
  "empty_group s = \<lparr> sg_status = s, sg_totalCount = 0, sg_conversations = [] \<rparr>"

definition fold_branch :: "string \<times> (error + status_group) \<Rightarrow> status_group" where
  "fold_branch b = (case snd b of Inr g \<Rightarrow> g | Inl _ \<Rightarrow> empty_group (fst b))"


text \<open>
  A \<open>createdBefore\<close> argument that is read as a date keeps the records created before
  it; an absent or empty argument keeps every record; an argument that is not empty and
  is not a date makes \<open>applyCreatedBeforeFilter\<close> throw.
\<close>

definition before_bound :: "date_arg option \<Rightarrow> conversation \<Rightarrow> bool" where
  "before_bound d c =
     (case d of
        None \<Rightarrow> True
      | Some (raw, None) \<Rightarrow> True
      | Some (raw, Some b) \<Rightarrow> raw = [] \<or> conv_createdAt c < b)"

definition bound_invalid :: "date_arg option \<Rightarrow> bool" where
  "bound_invalid d =
     (case d of
        None \<Rightarrow> False
      | Some (raw, None) \<Rightarrow> raw \<noteq> []
      | Some (raw, Some b) \<Rightarrow> False)"

definition structured_params :: "config \<Rightarrow> search_input \<Rightarrow> string option \<Rightarrow> conv_query" where
  \<comment> \<open>\<open>queryParams\<close> of \<open>searchConversationsStructured\<close> before a status is added, given
      the query that \<open>appendCreatedAtFilter\<close> returned\<close>
  "structured_params cfg input queryWithDate =
     \<lparr> q_page = 1,
       q_size = limit_or_default (si_limit input),
       q_sortField = ''createdAt'',
       q_sortOrder = ''desc'',
       q_query = (if truthy queryWithDate then queryWithDate
                  else if truthy (structured_query input) then structured_query input
                  else None),
       q_mailbox = (if truthy (effective_inbox cfg input) then effective_inbox cfg input
                    else None),
       q_tag = None,
       q_status = None \<rparr>"

definition succeeded_statuses ::
  "(string \<times> (error + 'a)) list \<Rightarrow> string list \<Rightarrow> string list" where
  \<comment> \<open>the statuses that no entry of \<open>failedStatuses\<close> names\<close>
  "succeeded_statuses branches statuses =
     (if failed_statuses branches \<noteq> []
      then filter (\<lambda>s. \<not> (\<exists>f \<in> set (failed_statuses branches). fs_status f = s)) statuses
      else statuses)"

section \<open>The keyword query as the specification words it\<close>

definition spec_fields :: "search_location list \<Rightarrow> string list" where
  \<comment> \<open>the target fields of a term: body and/or subject, per \<open>searchIn\<close>\<close>
  "spec_fields searchIn =
     (if BODY \<in> set searchIn \<or> BOTH \<in> set searchIn then [''body''] else [])
     @ (if SUBJECT \<in> set searchIn \<or> BOTH \<in> set searchIn then [''subject''] else [])"

definition spec_term_group :: "string list \<Rightarrow> string \<Rightarrow> string" where
  \<comment> \<open>the field clauses of one term, joined by \<open>OR\<close>, in parentheses\<close>
  "spec_term_group fs t =
     ''('' @ join '' OR '' (map (\<lambda>f. field_clause f (escapeQueryTerm t)) fs) @ '')''"

definition spec_keyword_query :: "string list \<Rightarrow> search_location list \<Rightarrow> string" where
  \<comment> \<open>the groups of the terms, joined by \<open>OR\<close>\<close>
  "spec_keyword_query terms searchIn =
     join '' OR '' (map (spec_term_group (spec_fields searchIn)) terms)"

definition digits_at :: "string \<Rightarrow> nat list \<Rightarrow> bool" where
  "digits_at s ns = (\<forall>n \<in> set ns. is_digit (s ! n))"

definition iso_millis :: "string \<Rightarrow> bool" where
  \<comment> \<open>the format of \<open>toISOString\<close>: \<open>YYYY-MM-DDTHH:mm:ss.sssZ\<close>\<close>
  "iso_millis s =
     (length s = 24 \<and> digits_at s [0, 1, 2, 3, 5, 6, 8, 9, 11, 12, 14, 15, 17, 18, 20, 21, 22]
      \<and> s ! 4 = CHR ''-'' \<and> s ! 7 = CHR ''-'' \<and> s ! 10 = CHR ''T'' \<and> s ! 13 = CHR '':''
      \<and> s ! 16 = CHR '':'' \<and> s ! 19 = CHR ''.'' \<and> s ! 23 = CHR ''Z'')"

definition iso_seconds :: "string \<Rightarrow> bool" where
  \<comment> \<open>a whole-second instant: \<open>YYYY-MM-DDTHH:mm:ssZ\<close>\<close>
  "iso_seconds s =
     (length s = 20 \<and> digits_at s [0, 1, 2, 3, 5, 6, 8, 9, 11, 12, 14, 15, 17, 18]
      \<and> s ! 4 = CHR ''-'' \<and> s ! 7 = CHR ''-'' \<and> s ! 10 = CHR ''T'' \<and> s ! 13 = CHR '':''
      \<and> s ! 16 = CHR '':'' \<and> s ! 19 = CHR ''Z'')"




text \<open>
  An upstream that holds the conversations \<open>all s\<close> under the status \<open>s\<close> and serves them
  in pages of \<open>P\<close> records, and sixty conversations for each status, newest first, with
  ids of their own.
\<close>

definition paged_by_status :: "nat \<Rightarrow> (string \<Rightarrow> conversation list) \<Rightarrow> conv_client" where
  "paged_by_status P all q =
     paged_upstream P (all (case q_status q of None \<Rightarrow> [] | Some s \<Rightarrow> s)) q"

definition sixty_per_status :: "string \<Rightarrow> conversation list" where
  "sixty_per_status s =
     map (\<lambda>i. sample_conversation
                 (int i + (if s = ''active'' then 1000 else if s = ''pending'' then 2000 else 3000))
                 (1000 - int i))
       [0 ..< 60]"

section \<open>Threads and failing upstreams for the examples\<close>

definition sample_thread :: "int \<Rightarrow> string \<Rightarrow> string \<Rightarrow> int \<Rightarrow> string \<Rightarrow> thread" where
  "sample_thread i type state t body =
     \<lparr> th_id = i, th_type = type, th_state = state, th_status = ''active'',
       th_body = Some body, th_customer = None, th_createdBy = None, th_createdAt = t,
       th_attachments = None \<rparr>"

definition sample_threads :: "thread list" where
  "sample_threads =
     [sample_thread 202 ''message'' ''published'' 3600 ''<p>Happy to help with billing</p>'',
      sample_thread 203 ''note'' ''published'' 1800 ''Internal note'',
      sample_thread 201 ''customer'' ''published'' 0 ''<p>I have a billing question</p>'',
      sample_thread 204 ''message'' ''draft'' 4000 ''<p>Draft reply</p>'',
      sample_thread 205 ''lineitem'' ''published'' 5000 ''Status changed'']"

definition threads_upstream :: "thread list \<Rightarrow> thread_client" where
  "threads_upstream all conversationId page pageSize =
     Inr \<lparr> tp_threads = Some (take 25 (drop ((page - 1) * 25) all)),
           tp_totalElements = Some (length all),
           tp_next = (page * 25 < length all) \<rparr>"



text \<open>A configuration with \<open>REDACT_MESSAGE_CONTENT=true\<close>, and the bodies a result carries.\<close>

definition redacting_config :: config where
  "redacting_config = loadConfig [''REDACT_MESSAGE_CONTENT'' \<mapsto> ''true'']"

fun threads_result_bodies :: "threads_result \<Rightarrow> string option list" where
  "threads_result_bodies (TranscriptThreads _ messages _ _) = map (\<lambda>m. Some (tm_body m)) messages"
| "threads_result_bodies (VerboseThreads _ threads _ _) = map th_body threads"
| "threads_result_bodies (SlimThreads _ threads _ _) = map sth_body threads"

fun summary_result_bodies :: "summary_result \<Rightarrow> string option list" where
  "summary_result_bodies (VerboseSummary _ threads) = map th_body threads"
| "summary_result_bodies (SlimSummary _ first latest) =
     (case first of None \<Rightarrow> [] | Some m \<Rightarrow> [sm_body m])
     @ (case latest of None \<Rightarrow> [] | Some m \<Rightarrow> [sm_body m])"

section \<open>Properties of the reply formatter and of reply creation\<close>

text \<open>
  C4. In relaxed mode the formatter turns \<open><p>A</p><ul><li>x</li></ul><p>B</p>\<close> into
  \<open>A<ul><li>x</li></ul><br>B\<close>: no break stands before the list, exactly one break
  follows it, and formatting that output again returns it unchanged.
\<close>

theorem formatReplyHtml_list_example:
  "formatReplyHtml ''<p>A</p><ul><li>x</li></ul><p>B</p>'' False = ''A<ul><li>x</li></ul><br>B''
   \<and> formatReplyHtml ''A<ul><li>x</li></ul><br>B'' False = ''A<ul><li>x</li></ul><br>B''"
  by code_simp

theorem formatReplyHtml_list_example_witness:
  "formatReplyHtml (formatReplyHtml ''<p>A</p><ul><li>x</li></ul><p>B</p>'' False) False
     = ''A<ul><li>x</li></ul><br>B''"
  using formatReplyHtml_list_example by simp

text \<open>
  C5. A reply with \<open>draft: false\<close> is refused with the message
  \<open>Published replies are disabled\<close>, and nothing is sent, when
  \<open>HELPSCOUT_ALLOW_SEND_REPLY\<close> is not \<open>true\<close>; when it is \<open>true\<close> the call issues exactly
  one request, to the reply endpoint of the conversation, whose body has \<open>draft: false\<close>.
\<close>

theorem createReply_draft_gate:
  assumes "cr_draft input = False"
  shows "(env ''HELPSCOUT_ALLOW_SEND_REPLY'' \<noteq> Some ''true'' \<longrightarrow>
            createReply (loadConfig env) post input =
              (Inr (ReplyRefused ''Published replies are disabled''
                      published_disabled_message published_disabled_suggestion), []))
       \<and> (env ''HELPSCOUT_ALLOW_SEND_REPLY'' = Some ''true'' \<longrightarrow>
            (\<exists>body. snd (createReply (loadConfig env) post input) =
                      [(''/conversations/'' @ cr_conversationId input @ ''/reply'', body)]
                    \<and> body_draft body = False
                    \<and> body_customer body = cr_customer input
                    \<and> body_text body =
                        formatReplyHtml (cr_text input)
                          (env ''HELPSCOUT_REPLY_SPACING'' = Some ''compact'')))"
  using assms
  by (auto simp: createReply_def loadConfig_def Let_def split: sum.splits)

theorem createReply_draft_gate_witness:
  "createReply (loadConfig Map.empty) (\<lambda>path body. Inr (Some ''88888''))
     \<lparr> cr_conversationId = ''12345'', cr_text = ''<p>Test</p>'', cr_customer = CustomerId 789,
       cr_draft = False, cr_user = None, cr_assignTo = None, cr_status = None,
       cr_cc = None, cr_bcc = None \<rparr>
     = (Inr (ReplyRefused ''Published replies are disabled''
               published_disabled_message published_disabled_suggestion), [])
   \<and> (\<exists>body. snd (createReply (loadConfig [''HELPSCOUT_ALLOW_SEND_REPLY'' \<mapsto> ''true''])
                      (\<lambda>path body. Inr (Some ''88888''))
                      \<lparr> cr_conversationId = ''12345'', cr_text = ''<p>Test</p>'',
                        cr_customer = CustomerId 789, cr_draft = False, cr_user = None,
                        cr_assignTo = None, cr_status = None, cr_cc = None, cr_bcc = None \<rparr>)
                = [(''/conversations/12345/reply'', body)]
              \<and> body_draft body = False)"
  using createReply_draft_gate
          [of "\<lparr> cr_conversationId = ''12345'', cr_text = ''<p>Test</p>'',
                 cr_customer = CustomerId 789, cr_draft = False, cr_user = None,
                 cr_assignTo = None, cr_status = None, cr_cc = None, cr_bcc = None \<rparr>"
              Map.empty "\<lambda>path body. Inr (Some ''88888'')"]
        createReply_draft_gate
          [of "\<lparr> cr_conversationId = ''12345'', cr_text = ''<p>Test</p>'',
                 cr_customer = CustomerId 789, cr_draft = False, cr_user = None,
                 cr_assignTo = None, cr_status = None, cr_cc = None, cr_bcc = None \<rparr>"
              "[''HELPSCOUT_ALLOW_SEND_REPLY'' \<mapsto> ''true'']"
              "\<lambda>path body. Inr (Some ''88888'')"]
  by auto

section \<open>Properties of auto-pagination\<close>

lemma fetchLoop_paged:
  assumes "0 < P" and "D \<le> P * M"
    and "1 \<le> page"
    and "convs = take ((page - 1) * P) all"
    and "hasMore \<longleftrightarrow> (page = 1 \<or> (page - 1) * P < length all)"
    and "tot = (if 1 < page then length all else 0)"
  shows "\<exists>cs t pages.
           fetchLoop (paged_upstream P all) params D M convs tot page hasMore
             = (Inr (cs, t), pages)
         \<and> take D cs = take D all
         \<and> (1 < page \<or> pages \<noteq> [] \<longrightarrow> t = length all)
         \<and> pages = [page ..< page + length pages]
         \<and> (\<forall>p \<in> set pages. length (take ((p - 1) * P) all) < D
                \<and> (p = 1 \<or> (p - 1) * P < length all))"
  using assms
proof (induction "paged_upstream P all" params D M convs tot page hasMore
        rule: fetchLoop.induct)
  case (1 params D M convs tot page hasMore)
  let ?go = "length convs < D \<and> hasMore \<and> page \<le> M"
  show ?case
  proof (cases ?go)
    case False
    have res: "fetchLoop (paged_upstream P all) params D M convs tot page hasMore
                 = (Inr (convs, tot), [])"
      using False by (subst fetchLoop.simps) auto
    have "take D convs = take D all"
    proof -
      consider "D \<le> length convs" | "\<not> hasMore" | "M < page"
        using False by fastforce
      then show ?thesis
      proof cases
        case 1
        then show ?thesis using "1.prems"(4) by (simp add: min_def split: if_splits)
      next
        case 2
        then show ?thesis using "1.prems"(4,5) by simp
      next
        case 3
        then have "M \<le> page - 1" by simp
        then have a: "P * M \<le> (page - 1) * P" by (simp add: mult.commute)
        have "D \<le> (page - 1) * P" using "1.prems"(2) a by (rule order_trans)
        then show ?thesis using "1.prems"(4) by (simp add: min_def)
      qed
    qed
    then show ?thesis using res "1.prems"(6) by simp
  next
    case True
    let ?resp = "\<lparr> pg_conversations = Some (take P (drop ((page - 1) * P) all)),
           pg_totalElements = Some (length all),
           pg_next = (page * P < length all) \<rparr>"
    have get: "paged_upstream P all (params\<lparr>q_page := page\<rparr>) = Inr ?resp"
      by (simp add: paged_upstream_def)
    have convs': "convs @ take P (drop ((page - 1) * P) all) = take ((page + 1 - 1) * P) all"
    proof -
      have "(page + 1 - 1) * P = (page - 1) * P + P"
        using "1.prems"(3) by (cases page) simp_all
      then show ?thesis using "1.prems"(4) by (simp add: take_add)
    qed
    have tot: "(if length all \<noteq> 0 then length all else tot) = length all"
      using True "1.prems" by (cases "page = 1") auto
    have IH: "\<exists>cs t pages.
           fetchLoop (paged_upstream P all) params D M
             (convs @ take P (drop ((page - 1) * P) all)) (length all) (page + 1)
             (page * P < length all)
             = (Inr (cs, t), pages)
         \<and> take D cs = take D all
         \<and> t = length all
         \<and> pages = [page + 1 ..< page + 1 + length pages]
         \<and> (\<forall>p \<in> set pages. length (take ((p - 1) * P) all) < D
                \<and> (p = 1 \<or> (p - 1) * P < length all))"
      using "1.hyps"[OF True get] "1.prems"(1,2,3) convs' tot by simp
    then obtain cs t pages where
      r: "fetchLoop (paged_upstream P all) params D M
             (convs @ take P (drop ((page - 1) * P) all)) (length all) (page + 1)
             (page * P < length all) = (Inr (cs, t), pages)"
      and p: "take D cs = take D all" "t = length all"
         "pages = [page + 1 ..< page + 1 + length pages]"
         "\<forall>p \<in> set pages. length (take ((p - 1) * P) all) < D
                \<and> (p = 1 \<or> (p - 1) * P < length all)"
      by blast
    have res: "fetchLoop (paged_upstream P all) params D M convs tot page hasMore
                 = (Inr (cs, t), page # pages)"
      using True get r tot by (subst fetchLoop.simps) (simp add: tot)
    have here: "length (take ((page - 1) * P) all) < D \<and> (page = 1 \<or> (page - 1) * P < length all)"
      using True "1.prems"(4,5) by auto
    have "[page ..< page + length (page # pages)]
            = page # [Suc page ..< page + length (page # pages)]"
      by (rule upt_conv_Cons) simp
    also have "\<dots> = page # [page + 1 ..< page + 1 + length pages]"
      by (simp del: upt_Suc)
    also have "\<dots> = page # pages"
      by (rule arg_cong[OF p(3)[symmetric]])
    finally have seq: "page # pages = [page ..< page + length (page # pages)]"
      by (rule sym)
    show ?thesis
    proof (intro exI conjI)
      show "fetchLoop (paged_upstream P all) params D M convs tot page hasMore
              = (Inr (cs, t), page # pages)"
        by (rule res)
      show "take D cs = take D all" by (rule p(1))
      show "1 < page \<or> page # pages \<noteq> [] \<longrightarrow> t = length all" using p(2) by simp
      show "page # pages = [page ..< page + length (page # pages)]" by (rule seq)
      show "\<forall>p \<in> set (page # pages). length (take ((p - 1) * P) all) < D
                \<and> (p = 1 \<or> (p - 1) * P < length all)"
        using p(4) here by simp
    qed
  qed
qed


lemma fetchTrace_paged:
  assumes "0 < P" and "N \<le> P * ((N + 24) div 25 + 1)"
  shows "\<exists>cs t pages.
           fetchTrace (paged_upstream P all) params N None = (Inr (cs, t), pages)
         \<and> take N cs = take N all
         \<and> (pages \<noteq> [] \<longrightarrow> t = length all)
         \<and> pages = [1 ..< 1 + length pages]
         \<and> (\<forall>p \<in> set pages. length (take ((p - 1) * P) all) < N
                \<and> (p = 1 \<or> (p - 1) * P < length all))"
  using fetchLoop_paged[where P = P and D = N and M = "(N + 24) div 25 + 1" and page = 1
          and convs = "[]" and hasMore = True and all = all and tot = 0 and params = params]
        assms
  by (simp add: fetchTrace_def effectiveMaxPages_def)

lemma render_id [simp]: "out_id (render v c) = conv_id c"
  by (simp add: render_def slimConversation_def)

lemma render_createdAt [simp]: "out_createdAt (render v c) = conv_createdAt c"
  by (simp add: render_def slimConversation_def)

section \<open>Properties of the keyword query\<close>

lemma loop_eq:
  "buildSearchQuery_loop searchIn ts queries
     = queries @ (if spec_fields searchIn = [] then []
                  else map (spec_term_group (spec_fields searchIn)) ts)"
  by (induction ts arbitrary: queries)
     (auto simp: spec_fields_def spec_term_group_def Let_def)

lemma buildSearchQuery_spec:
  "searchIn \<noteq> [] \<Longrightarrow> buildSearchQuery terms searchIn = spec_keyword_query terms searchIn"
proof -
  assume "searchIn \<noteq> []"
  then obtain l ls where "searchIn = l # ls" by (cases searchIn) auto
  then have "spec_fields searchIn \<noteq> []"
    by (cases l) (auto simp: spec_fields_def)
  then show ?thesis
    by (simp add: buildSearchQuery_def spec_keyword_query_def loop_eq)
qed

lemma join_nonempty: "xs \<noteq> [] \<Longrightarrow> \<forall>x \<in> set xs. x \<noteq> [] \<Longrightarrow> join sep xs \<noteq> []"
  by (induction sep xs rule: join.induct) auto

lemma spec_keyword_query_nonempty:
  "terms \<noteq> [] \<Longrightarrow> spec_keyword_query terms searchIn \<noteq> []"
  unfolding spec_keyword_query_def
  by (rule join_nonempty) (auto simp: spec_term_group_def)

lemma iso_millis_strip:
  assumes "iso_millis s"
  shows "iso_seconds (strip_millis s) \<and> isoDatePattern s"
proof -
  from assms have "length s = 24" by (simp add: iso_millis_def)
  then obtain c0 c1 c2 c3 c4 c5 c6 c7 c8 c9 c10 c11 c12 c13 c14 c15 c16 c17 c18 c19 c20
      c21 c22 c23
    where s: "s = [c0, c1, c2, c3, c4, c5, c6, c7, c8, c9, c10, c11, c12, c13, c14, c15, c16,
                   c17, c18, c19, c20, c21, c22, c23]"
    by (auto simp: eval_nat_numeral length_Suc_conv)
  have nd: "\<not> is_digit (CHR ''Z'')" "\<not> is_digit (CHR ''T'')"
    by (simp_all add: is_digit_def)
  show ?thesis
    using assms nd unfolding s
    by (simp add: iso_millis_def iso_seconds_def digits_at_def strip_millis_def
          isoDatePattern_def eval_nat_numeral)
qed


lemma iso_seconds_fixed:
  assumes "iso_seconds s"
  shows "strip_millis s = s \<and> isoDatePattern s"
proof -
  from assms have "length s = 20" by (simp add: iso_seconds_def)
  then obtain c0 c1 c2 c3 c4 c5 c6 c7 c8 c9 c10 c11 c12 c13 c14 c15 c16 c17 c18 c19
    where s: "s = [c0, c1, c2, c3, c4, c5, c6, c7, c8, c9, c10, c11, c12, c13, c14, c15, c16,
                   c17, c18, c19]"
    by (auto simp: eval_nat_numeral length_Suc_conv)
  have nd: "\<not> is_digit (CHR ''Z'')" "\<not> is_digit (CHR ''T'')" "\<not> is_digit (CHR '':'')"
    by (simp_all add: is_digit_def)
  show ?thesis
    using assms nd unfolding s
    by (auto simp add: iso_seconds_def digits_at_def strip_millis_def
          isoDatePattern_def eval_nat_numeral)
qed

text \<open>
  C8, as amended. In keyword mode, when \<open>searchIn\<close> names at least one location and the
  start date (\<open>createdAfter\<close>, or else the computed time range) matches the date pattern,
  the query sent for each status is the groups of the terms joined by \<open>OR\<close>, each group
  the term's field clauses joined by \<open>OR\<close>, in parentheses and followed by
  \<open>AND (createdAt:[start TO *])\<close>. \<open>start\<close> is the date without a final \<open>.ddd\<close> before
  \<open>Z\<close>: a whole-second instant when the date has the format of \<open>toISOString\<close>, as the
  computed time range has.
\<close>

theorem keyword_query_shape:
  assumes "si_searchTerms input = Some terms" and "terms \<noteq> []"
    and "si_searchIn input \<noteq> []"
    and "(truthy (si_createdAfter input) \<and> isoDatePattern (the (si_createdAfter input)))
         \<or> (\<not> truthy (si_createdAfter input)
             \<and> iso_millis (isoDaysAgo (si_timeframeDays input)))"
  shows "\<exists>qp start.
           single_status_request (keyword_params cfg isoDaysAgo input verbose st) = Inr qp
         \<and> q_query qp =
             Some (''('' @ spec_keyword_query terms (si_searchIn input)
                   @ '') AND (createdAt:['' @ start @ '' TO *])'')
         \<and> start = strip_millis (keyword_createdAfter isoDaysAgo input)
         \<and> (\<not> truthy (si_createdAfter input) \<longrightarrow> iso_seconds start)
         \<and> (iso_millis (keyword_createdAfter isoDaysAgo input) \<longrightarrow> iso_seconds start)"
proof -
  let ?ca = "keyword_createdAfter isoDaysAgo input"
  let ?q = "spec_keyword_query terms (si_searchIn input)"
  have q: "buildSearchQuery (the (si_searchTerms input)) (si_searchIn input) = ?q"
    using assms(1,3) by (simp add: buildSearchQuery_spec)
  have qn: "?q \<noteq> []" using assms(2) by (rule spec_keyword_query_nonempty)
  have pat: "isoDatePattern ?ca"
    and sec: "\<not> truthy (si_createdAfter input) \<longrightarrow> iso_seconds (strip_millis ?ca)"
    using assms(4) iso_millis_strip[of "isoDaysAgo (si_timeframeDays input)"]
      iso_seconds_fixed[of "strip_millis (isoDaysAgo (si_timeframeDays input))"]
    by (auto simp: keyword_createdAfter_def calculateTimeRange_def)
  have ne: "?ca \<noteq> []" using pat by (auto simp: isoDatePattern_def)
  have app: "appendCreatedAtFilter (Some ?q) (Some ?ca) None
               = Inr (Some (''('' @ ?q @ '') AND (createdAt:['' @ strip_millis ?ca @ '' TO *])''))"
    using pat ne qn by (simp add: appendCreatedAtFilter_def truthy_def Let_def)
  show ?thesis
  proof (intro exI conjI)
    show "single_status_request (keyword_params cfg isoDaysAgo input verbose st)
            = Inr \<lparr> q_page = 1,
                q_size = limit_or_default (si_limit input),
                q_sortField = ''createdAt'',
                q_sortOrder = ''desc'',
                q_query = Some (''('' @ ?q @ '') AND (createdAt:['' @ strip_millis ?ca @ '' TO *])''),
                q_mailbox = (if truthy (effective_inbox cfg input) then effective_inbox cfg input else None),
                q_tag = None,
                q_status = Some (status_str st) \<rparr>"
      using app q by (simp add: single_status_request_def keyword_params_def truthy_def)
    show "\<not> truthy (si_createdAfter input) \<longrightarrow> iso_seconds (strip_millis ?ca)" by (rule sec)
    show "iso_millis ?ca \<longrightarrow> iso_seconds (strip_millis ?ca)"
      using iso_millis_strip[of ?ca] by simp
  qed simp_all
qed

theorem keyword_query_shape_witness:
  "\<exists>qp. single_status_request
           (keyword_params (loadConfig Map.empty) (\<lambda>n. ''2024-01-15T10:20:30.123Z'')
              (sample_input\<lparr> si_searchTerms := Some [''refund''] \<rparr>) False Active) = Inr qp
        \<and> q_query qp =
            Some (''((body:'' @ [CHR 0x22] @ ''refund'' @ [CHR 0x22] @ '' OR subject:''
                  @ [CHR 0x22] @ ''refund'' @ [CHR 0x22]
                  @ '')) AND (createdAt:[2024-01-15T10:20:30Z TO *])'')"
proof -
  have m: "iso_millis ''2024-01-15T10:20:30.123Z''"
    by (simp add: iso_millis_def digits_at_def is_digit_def)
  have s: "strip_millis (strip_millis ''2024-01-15T10:20:30.123Z'') = ''2024-01-15T10:20:30Z''"
    by (simp add: strip_millis_def is_digit_def)
  have g: "spec_keyword_query [''refund''] [BOTH]
             = ''(body:'' @ [CHR 0x22] @ ''refund'' @ [CHR 0x22] @ '' OR subject:''
                  @ [CHR 0x22] @ ''refund'' @ [CHR 0x22] @ '')''"
    by (simp add: spec_keyword_query_def spec_term_group_def spec_fields_def field_clause_def
          escapeQueryTerm_def)
  from keyword_query_shape[of "sample_input\<lparr> si_searchTerms := Some [''refund''] \<rparr>"
         "[''refund'']" "\<lambda>n. ''2024-01-15T10:20:30.123Z''" "loadConfig Map.empty" False Active]
  show ?thesis
    using m s g
    by (auto simp add: sample_input_def truthy_def keyword_createdAfter_def
          calculateTimeRange_def)
qed

text \<open>
  C8 as stated fails: with an empty \<open>searchIn\<close> the query is the range clause alone, with
  no term groups and no \<open>AND\<close>, and a start date whose fraction is not three digits
  before \<open>Z\<close> keeps its fraction.
\<close>

theorem keyword_query_counterexample:
  "map_sum id q_query
     (single_status_request
        (keyword_params (loadConfig Map.empty) (\<lambda>n. ''2024-01-15T10:20:30.123Z'')
           (sample_input\<lparr> si_searchTerms := Some [''refund''], si_searchIn := [],
                         si_createdAfter := Some ''2024-01-15T00:00:00.5Z'' \<rparr>) False Active))
     = Inr (Some ''(createdAt:[2024-01-15T00:00:00.5Z TO *])'')
   \<and> \<not> iso_seconds ''2024-01-15T00:00:00.5Z''"
  by (simp add: single_status_request_def keyword_params_def sample_input_def
        keyword_createdAfter_def truthy_def buildSearchQuery_def appendCreatedAtFilter_def
        isoDatePattern_def is_digit_def strip_millis_def iso_seconds_def Let_def)


section \<open>Properties of the multi-status searches\<close>

lemma push_unseen_spec:
  "push_unseen cs (seen, acc)
     = (seen \<union> set (map conv_id cs),
        acc @ first_by_id (filter (\<lambda>c. conv_id c \<notin> seen) cs))"
proof (induction cs arbitrary: seen acc)
  case Nil
  then show ?case by simp
next
  case (Cons c cs)
  have "filter (\<lambda>d. conv_id d \<noteq> conv_id c) (filter (\<lambda>c. conv_id c \<notin> seen) cs)
          = filter (\<lambda>ca. conv_id ca \<notin> insert (conv_id c) seen) cs"
    by (induction cs) auto
  then show ?case using Cons by auto
qed

lemma first_by_id_filter:
  "first_by_id (filter (\<lambda>c. conv_id c \<notin> A) cs)
     = filter (\<lambda>c. conv_id c \<notin> A) (first_by_id cs)"
proof (induction "length cs" arbitrary: cs rule: less_induct)
  case less
  show ?case
  proof (cases cs)
    case Nil
    then show ?thesis by simp
  next
    case (Cons c cs')
    let ?rest = "filter (\<lambda>d. conv_id d \<noteq> conv_id c) cs'"
    have "length ?rest < length cs"
      using Cons by (simp add: less_Suc_eq_le)
    then have IH: "first_by_id (filter (\<lambda>c. conv_id c \<notin> A) ?rest)
                     = filter (\<lambda>c. conv_id c \<notin> A) (first_by_id ?rest)"
      by (rule less)
    have comm: "filter (\<lambda>d. conv_id d \<noteq> conv_id c) (filter (\<lambda>c. conv_id c \<notin> A) cs')
                  = filter (\<lambda>c. conv_id c \<notin> A) ?rest"
      by (induction cs') auto
    show ?thesis
    proof (cases "conv_id c \<in> A")
      case True
      then have "filter (\<lambda>c. conv_id c \<notin> A) ?rest = filter (\<lambda>c. conv_id c \<notin> A) cs'"
        by (induction cs') auto
      then show ?thesis using True Cons IH by simp
    next
      case False
      then show ?thesis using Cons IH comm by simp
    qed
  qed
qed

lemma set_first_by_id: "conv_id ` set (first_by_id cs) = conv_id ` set cs"
proof (induction cs rule: first_by_id.induct)
  case 1
  then show ?case by simp
next
  case (2 c cs)
  then show ?case by (auto simp: image_iff) 
qed

lemma first_by_id_subset: "set (first_by_id cs) \<subseteq> set cs"
  by (induction cs rule: first_by_id.induct) auto

lemma distinct_first_by_id: "distinct (map conv_id (first_by_id cs))"
proof (induction cs rule: first_by_id.induct)
  case 1
  then show ?case by simp
next
  case (2 c cs)
  have "conv_id c \<notin> conv_id ` set (first_by_id (filter (\<lambda>d. conv_id d \<noteq> conv_id c) cs))"
    using first_by_id_subset[of "filter (\<lambda>d. conv_id d \<noteq> conv_id c) cs"] by auto
  then show ?case using 2 by simp
qed

lemma first_by_id_append:
  "first_by_id (xs @ ys)
     = first_by_id xs @ first_by_id (filter (\<lambda>c. conv_id c \<notin> conv_id ` set xs) ys)"
proof (induction xs arbitrary: ys rule: first_by_id.induct)
  case 1
  then show ?case by simp
next
  case (2 c cs)
  have "filter (\<lambda>d. conv_id d \<noteq> conv_id c)
          (filter (\<lambda>ca. conv_id ca \<notin> conv_id ` {x \<in> set cs. conv_id x \<noteq> conv_id c}) ys)
        = filter (\<lambda>ca. conv_id ca \<noteq> conv_id c \<and> conv_id ca \<notin> conv_id ` set cs) ys"
    by (induction ys) (auto simp: image_iff)
  then show ?case using 2[of "filter (\<lambda>d. conv_id d \<noteq> conv_id c) ys"]
    by (simp add: first_by_id_filter[symmetric] conj_commute) 
qed

lemma applyCreatedBeforeFilter_valid:
  "applyCreatedBeforeFilter cs (raw, Some b)
     = Inr (filter (\<lambda>c. conv_createdAt c < b) cs,
            (\<exists>c \<in> set cs. b \<le> conv_createdAt c),
            length cs - length (filter (\<lambda>c. conv_createdAt c < b) cs))"
proof -
  have "(length (filter (\<lambda>c. conv_createdAt c < b) cs) < length cs)
          = (\<exists>c \<in> set cs. b \<le> conv_createdAt c)"
    by (induction cs) (auto simp: less_Suc_eq_le not_less)
  then show ?thesis by (simp add: applyCreatedBeforeFilter_def Let_def)
qed




lemma filter_unseen_twice:
  "filter (\<lambda>c. conv_id c \<notin> conv_id ` set (filter (\<lambda>c. conv_id c \<notin> A) xs))
     (filter (\<lambda>c. conv_id c \<notin> A) ys)
   = filter (\<lambda>c. conv_id c \<notin> A \<union> set (map conv_id xs)) ys"
  by (induction ys) (auto simp: image_iff)

lemma code_name_abort:
  "(error_code_name code = ''UNAUTHORIZED'' \<or> error_code_name code = ''INVALID_INPUT'')
     = (code = UNAUTHORIZED \<or> code = INVALID_INPUT)"
  by (cases code) simp_all

lemma list_merge_char:
  assumes "ms_seenIds st = conv_id ` set (ms_conversations st)"
  shows "list_merge brs st =
     (case first_abort brs of
        Some e \<Rightarrow> Inl e
      | None \<Rightarrow>
          Inr \<lparr> ms_seenIds = ms_seenIds st \<union> conv_id ` set (fulfilled_conversations brs),
                ms_conversations = ms_conversations st
                  @ first_by_id (filter (\<lambda>c. conv_id c \<notin> ms_seenIds st)
                                   (fulfilled_conversations brs)),
                ms_failedStatuses = ms_failedStatuses st @ failed_statuses brs,
                ms_totalAvailable = ms_totalAvailable st + total_available brs \<rparr>)"
  using assms
proof (induction brs arbitrary: st)
  case Nil
  then show ?case
    by (simp add: fulfilled_conversations_def failed_statuses_def total_available_def)
next
  case (Cons b rest)
  obtain status r where b: "b = (status, r)" by (cases b)
  show ?case
  proof (cases r)
    case (Inr v)
    obtain convs totalElements where v: "v = (convs, totalElements)" by (cases v)
    let ?seen = "ms_seenIds st"
    let ?new = "first_by_id (filter (\<lambda>c. conv_id c \<notin> ?seen) convs)"
    let ?st' = "st\<lparr> ms_totalAvailable := ms_totalAvailable st + totalElements,
                  ms_seenIds := ?seen \<union> set (map conv_id convs),
                  ms_conversations := ms_conversations st @ ?new \<rparr>"
    have pu: "push_unseen convs (ms_seenIds st, ms_conversations st)
                = (?seen \<union> set (map conv_id convs), ms_conversations st @ ?new)"
      by (rule push_unseen_spec)
    have inv: "ms_seenIds ?st' = conv_id ` set (ms_conversations ?st')"
      using Cons.prems set_first_by_id[of "filter (\<lambda>c. conv_id c \<notin> ?seen) convs"]
      by (auto simp: image_Un)
    have step: "list_merge (b # rest) st = list_merge rest ?st'"
      using pu b Inr v by simp
    have app: "first_by_id (filter (\<lambda>c. conv_id c \<notin> ?seen) (convs @ fulfilled_conversations rest))
                 = ?new @ first_by_id (filter (\<lambda>c. conv_id c \<notin> ?seen \<union> set (map conv_id convs))
                                         (fulfilled_conversations rest))"
    proof -
      have "first_by_id (filter (\<lambda>c. conv_id c \<notin> ?seen) (convs @ fulfilled_conversations rest))
              = first_by_id (filter (\<lambda>c. conv_id c \<notin> ?seen) convs
                  @ filter (\<lambda>c. conv_id c \<notin> ?seen) (fulfilled_conversations rest))"
        by simp
      also have "\<dots> = ?new @ first_by_id
                 (filter (\<lambda>c. conv_id c \<notin> conv_id ` set (filter (\<lambda>c. conv_id c \<notin> ?seen) convs))
                    (filter (\<lambda>c. conv_id c \<notin> ?seen) (fulfilled_conversations rest)))"
        by (rule first_by_id_append)
      finally show ?thesis by (simp only: filter_unseen_twice)
    qed
    have ful: "fulfilled_conversations (b # rest) = convs @ fulfilled_conversations rest"
      and fai: "failed_statuses (b # rest) = failed_statuses rest"
      and tot: "total_available (b # rest) = totalElements + total_available rest"
      and fa: "first_abort (b # rest) = first_abort rest"
      using b Inr v
      by (simp_all add: fulfilled_conversations_def failed_statuses_def total_available_def)
    show ?thesis
      unfolding step Cons.IH[OF inv] ful fai tot fa app
      by (auto split: option.splits simp: image_Un Un_assoc)
  next
    case (Inl e)
    let ?st' = "st\<lparr> ms_failedStatuses := ms_failedStatuses st
                       @ [\<lparr> fs_status = status, fs_message = error_message e,
                            fs_code = (case api_code e of
                                         Some code \<Rightarrow> error_code_name code
                                       | None \<Rightarrow> ''UNKNOWN'') \<rparr>] \<rparr>"
    have ful: "fulfilled_conversations (b # rest) = fulfilled_conversations rest"
      and tot: "total_available (b # rest) = total_available rest"
      using b Inl
      by (simp_all add: fulfilled_conversations_def total_available_def)
    show ?thesis
    proof (cases "aborts_call e")
      case True
      then show ?thesis
        using b Inl
        by (cases e) (auto simp: aborts_call_def code_name_abort Let_def)
    next
      case False
      then obtain code msg where e: "e = ApiError code msg"
        by (cases e) (auto simp: aborts_call_def)
      have step: "list_merge (b # rest) st = list_merge rest ?st'"
        using b Inl False e by (auto simp: aborts_call_def code_name_abort Let_def)
      have fa: "first_abort (b # rest) = first_abort rest" using b Inl False by simp
      have fai: "failed_statuses (b # rest)
                   = \<lparr> fs_status = status, fs_message = error_message e,
                       fs_code = (case api_code e of
                                    Some code \<Rightarrow> error_code_name code
                                  | None \<Rightarrow> ''UNKNOWN'') \<rparr> # failed_statuses rest"
        using b Inl by (simp add: failed_statuses_def)
      have inv: "ms_seenIds ?st' = conv_id ` set (ms_conversations ?st')"
        using Cons.prems by simp
      show ?thesis
        unfolding step Cons.IH[OF inv] ful fai tot fa
        by (auto split: option.splits)
    qed
  qed
qed

lemma keyword_collect_char:
  "keyword_collect brs acc =
     (case first_abort brs of
        Some e \<Rightarrow> Inl e
      | None \<Rightarrow> Inr (acc @ map fold_branch brs))"
proof (induction brs arbitrary: acc)
  case Nil
  then show ?case by simp
next
  case (Cons b rest)
  obtain status r where b: "b = (status, r)" by (cases b)
  show ?case
  proof (cases r)
    case (Inr g)
    then show ?thesis using b Cons.IH
      by (auto simp: fold_branch_def split: option.splits)
  next
    case (Inl e)
    then show ?thesis using b Cons.IH
      by (cases e)
         (auto simp: fold_branch_def empty_group_def aborts_call_def split: option.splits)
  qed
qed



lemma list_fetch_multi:
  assumes "si_status input = None \<or> si_statuses input \<noteq> None"
  shows "list_fetch get bp input =
     (let lim = limit_or_default (si_limit input);
          brs = list_branches get bp lim (search_statuses input)
      in case first_abort brs of
           Some e \<Rightarrow> Inl e
         | None \<Rightarrow>
             Inr (take lim (sort_newest_first (first_by_id (fulfilled_conversations brs))),
                  (if failed_statuses brs \<noteq> []
                   then filter (\<lambda>s. \<not> (\<exists>f \<in> set (failed_statuses brs). fs_status f = s))
                          (map status_str (search_statuses input))
                   else map status_str (search_statuses input)),
                  no_pagination
                    \<lparr> pa_returned := Some (length (take lim (sort_newest_first
                                              (first_by_id (fulfilled_conversations brs))))),
                      pa_totalAvailable := Some (total_available brs),
                      pa_errors := (if failed_statuses brs \<noteq> []
                                    then Some (failed_statuses brs) else None) \<rparr>))"
proof -
  have c: "\<not> (si_status input \<noteq> None \<and> si_statuses input = None)" using assms by auto
  show ?thesis
    unfolding list_fetch_def Let_def if_not_P[OF c]
    by (simp add: list_merge_char split: option.splits)
qed








lemma distinct_ids_sort_newest_first:
  "distinct (map conv_id (sort_newest_first cs)) = distinct (map conv_id cs)"
  by (simp add: sort_newest_first_def distinct_map)



subsection \<open>The client-side filter and the merged calls\<close>

lemma filter_step:
  assumes "\<not> bound_invalid d"
  shows "(if date_truthy d
          then map_sum id (\<lambda>(filtered, wasFiltered, _). (filtered, wasFiltered))
                 (applyCreatedBeforeFilter cs (the d))
          else Inr (cs, False))
         = Inr (filter (before_bound d) cs, (\<exists>c \<in> set cs. \<not> before_bound d c))"
proof (cases d)
  case None
  then show ?thesis by (simp add: date_truthy_def before_bound_def)
next
  case (Some p)
  obtain raw pb where p: "p = (raw, pb)" by (cases p)
  show ?thesis
  proof (cases "raw = []")
    case True
    then show ?thesis using Some p
      by (cases pb) (simp_all add: date_truthy_def before_bound_def)
  next
    case False
    then obtain b where pb: "pb = Some b"
      using assms Some p by (cases pb) (simp_all add: bound_invalid_def)
    have bb: "before_bound (Some (raw, Some b)) = (\<lambda>c. conv_createdAt c < b)"
      using False by (auto simp: before_bound_def fun_eq_iff)
    show ?thesis
      using Some p pb False
      by (simp add: date_truthy_def applyCreatedBeforeFilter_valid bb not_less)
  qed
qed

lemma before_bound_absent:
  "\<not> date_truthy d \<Longrightarrow> before_bound d c"
  by (auto simp: date_truthy_def before_bound_def split: option.splits prod.splits)


lemma structured_merge_char:
  "snd (structured_merge (map snd brs) (seen, acc))
     = acc @ first_by_id (filter (\<lambda>c. conv_id c \<notin> seen) (fulfilled_conversations brs))"
proof (induction brs arbitrary: seen acc)
  case Nil
  then show ?case by (simp add: fulfilled_conversations_def)
next
  case (Cons b rest)
  obtain status r where b: "b = (status, r)" by (cases b)
  show ?case
  proof (cases r)
    case (Inl e)
    then show ?thesis using b Cons.IH by (simp add: fulfilled_conversations_def)
  next
    case (Inr v)
    obtain convs t where v: "v = (convs, t)" by (cases v)
    let ?new = "first_by_id (filter (\<lambda>c. conv_id c \<notin> seen) convs)"
    have ful: "fulfilled_conversations (b # rest) = convs @ fulfilled_conversations rest"
      using b Inr v by (simp add: fulfilled_conversations_def)
    have app: "first_by_id (filter (\<lambda>c. conv_id c \<notin> seen) (convs @ fulfilled_conversations rest))
                 = ?new @ first_by_id (filter (\<lambda>c. conv_id c \<notin> seen \<union> set (map conv_id convs))
                                         (fulfilled_conversations rest))"
    proof -
      have "first_by_id (filter (\<lambda>c. conv_id c \<notin> seen) (convs @ fulfilled_conversations rest))
              = first_by_id (filter (\<lambda>c. conv_id c \<notin> seen) convs
                  @ filter (\<lambda>c. conv_id c \<notin> seen) (fulfilled_conversations rest))"
        by simp
      also have "\<dots> = ?new @ first_by_id
                 (filter (\<lambda>c. conv_id c \<notin> conv_id ` set (filter (\<lambda>c. conv_id c \<notin> seen) convs))
                    (filter (\<lambda>c. conv_id c \<notin> seen) (fulfilled_conversations rest)))"
        by (rule first_by_id_append)
      finally show ?thesis by (simp only: filter_unseen_twice)
    qed
    have "snd (structured_merge (map snd (b # rest)) (seen, acc))
            = snd (structured_merge (map snd rest)
                     (seen \<union> set (map conv_id convs), acc @ ?new))"
      using b Inr v by (simp add: push_unseen_spec)
    also have "\<dots> = (acc @ ?new)
                 @ first_by_id (filter (\<lambda>c. conv_id c \<notin> seen \<union> set (map conv_id convs))
                                  (fulfilled_conversations rest))"
      by (rule Cons.IH)
    finally show ?thesis unfolding ful app by simp
  qed
qed

lemma structured_branches:
  "map (\<lambda>st. fetchConversationPages get (qp\<lparr>q_status := Some (status_str st)\<rparr>) lim None) sts
     = map snd (list_branches get qp lim sts)"
  by (simp add: list_branches_def comp_def)


lemma distinct_merged:
  "distinct (map conv_id (take n (filter P (sort_newest_first (first_by_id cs)))))"
  "distinct (map conv_id (filter P (take n (sort_newest_first (first_by_id cs)))))"
proof -
  have d: "distinct (map conv_id (sort_newest_first (first_by_id cs)))"
    by (simp add: distinct_ids_sort_newest_first distinct_first_by_id)
  then have "distinct (map conv_id (filter P (sort_newest_first (first_by_id cs))))"
    by (rule distinct_map_filter)
  then show "distinct (map conv_id (take n (filter P (sort_newest_first (first_by_id cs)))))"
    by (simp add: take_map[symmetric] distinct_take del: take_map)
  from d have "distinct (map conv_id (take n (sort_newest_first (first_by_id cs))))"
    by (simp add: take_map[symmetric] distinct_take del: take_map)
  then show "distinct (map conv_id (filter P (take n (sort_newest_first (first_by_id cs)))))"
    by (rule distinct_map_filter)
qed


lemma list_call_multi:
  assumes lp: "list_params cfg input = Inr bp"
    and multi: "si_status input = None \<or> si_statuses input \<noteq> None"
    and v: "\<not> bound_invalid (si_createdBefore input)"
    and na: "first_abort (list_branches get bp (limit_or_default (si_limit input))
                            (search_statuses input)) = None"
    and brs: "brs = list_branches get bp (limit_or_default (si_limit input))
                      (search_statuses input)"
    and merged: "merged = take (limit_or_default (si_limit input))
                            (sort_newest_first (first_by_id (fulfilled_conversations brs)))"
    and removed: "removed = (\<exists>c \<in> set merged. \<not> before_bound (si_createdBefore input) c)"
  shows "\<exists>lres p.
           searchConversationsList cfg get input verbose = Inr lres
         \<and> lr_results lres
             = map (render verbose) (filter (before_bound (si_createdBefore input)) merged)
         \<and> lr_statuses lres
             = succeeded_statuses brs (map status_str (search_statuses input))
         \<and> lr_clientSideFiltering lres = removed
         \<and> lr_pagination lres = Some p
         \<and> pa_returned p = (if removed then None else Some (length merged))
         \<and> pa_totalResults p = (if removed then Some (length (lr_results lres)) else None)
         \<and> pa_totalAvailable p
             = (if removed \<and> si_status input \<noteq> None then None
                else Some (total_available brs))
         \<and> pa_errors p
             = (if removed \<and> si_status input \<noteq> None then None
                else if failed_statuses brs \<noteq> [] then Some (failed_statuses brs)
                else None)"
proof -
  let ?cb = "si_createdBefore input"
  let ?sts = "succeeded_statuses brs (map status_str (search_statuses input))"
  let ?pag = "no_pagination
                    \<lparr> pa_returned := Some (length merged),
                      pa_totalAvailable := Some (total_available brs),
                      pa_errors := (if failed_statuses brs \<noteq> []
                                    then Some (failed_statuses brs) else None) \<rparr>"
  let ?kept = "filter (before_bound ?cb) merged"
  let ?p = "(if removed
             then (if si_status input \<noteq> None
                   then buildFilteredPagination (length ?kept) (Some ?pag) True
                   else Some (no_pagination
                          \<lparr> pa_totalResults := Some (length ?kept),
                            pa_totalAvailable := pa_totalAvailable ?pag,
                            pa_errors := pa_errors ?pag,
                            pa_note := Some (''Client-side createdBefore filter applied to merged results. ''
                               @ (case pa_note ?pag of None \<Rightarrow> [] | Some n \<Rightarrow> n)) \<rparr>))
             else Some ?pag)"
  define lres where "lres =
     \<lparr> lr_results = map (render verbose) ?kept,
       lr_pagination = ?p,
       lr_query = (if truthy (si_query input) then si_query input else None),
       lr_statuses = ?sts,
       lr_clientSideFiltering = removed \<rparr>"
  have lf: "list_fetch get bp input = Inr (merged, ?sts, ?pag)"
    using list_fetch_multi[OF multi, of get bp] na
    by (simp add: Let_def brs merged succeeded_statuses_def)
  have res: "searchConversationsList cfg get input verbose = Inr lres"
    unfolding searchConversationsList_def Let_def filter_step[OF v]
    using lp lf by (simp add: lres_def removed)
  obtain p where p: "?p = Some p"
    by (cases removed; cases "si_status input")
       (simp_all add: buildFilteredPagination_def Let_def)
  have r: "pa_returned p = (if removed then None else Some (length merged))"
    and tr: "pa_totalResults p = (if removed then Some (length ?kept) else None)"
    and ta: "pa_totalAvailable p
             = (if removed \<and> si_status input \<noteq> None then None
                else Some (total_available brs))"
    and er: "pa_errors p
             = (if removed \<and> si_status input \<noteq> None then None
                else if failed_statuses brs \<noteq> [] then Some (failed_statuses brs)
                else None)"
    using p
    by (cases removed; cases "si_status input";
        auto simp: buildFilteredPagination_def Let_def no_pagination_def)+
  show ?thesis
  proof (intro exI conjI)
    show "searchConversationsList cfg get input verbose = Inr lres" by (rule res)
    show "lr_pagination lres = Some p" using p by (simp add: lres_def)
    show "pa_returned p = (if removed then None else Some (length merged))" by (rule r)
    show "pa_totalResults p = (if removed then Some (length (lr_results lres)) else None)"
      using tr by (simp add: lres_def)
    show "pa_totalAvailable p
             = (if removed \<and> si_status input \<noteq> None then None
                else Some (total_available brs))" by (rule ta)
    show "pa_errors p
             = (if removed \<and> si_status input \<noteq> None then None
                else if failed_statuses brs \<noteq> [] then Some (failed_statuses brs)
                else None)" by (rule er)
  qed (simp_all add: lres_def)
qed

lemma structured_call_multi:
  assumes a: "appendCreatedAtFilter
                (if truthy (structured_query input) then structured_query input else None)
                (si_createdAfter input) None = Inr qwd"
    and n: "nonempty (si_statuses input)"
    and v: "\<not> bound_invalid (si_createdBefore input)"
    and brs: "brs = list_branches get (structured_params cfg input qwd)
                      (limit_or_default (si_limit input)) (the (si_statuses input))"
    and merged: "merged = sort_newest_first (first_by_id (fulfilled_conversations brs))"
  shows "searchConversationsStructured cfg get input verbose
           = Inr \<lparr> sr_results =
                     map (render verbose)
                       (take (limit_or_default (si_limit input))
                          (filter (before_bound (si_createdBefore input)) merged)),
                   sr_query = structured_query input,
                   sr_returned =
                     length (take (limit_or_default (si_limit input))
                               (filter (before_bound (si_createdBefore input)) merged)),
                   sr_statuses = Some (map status_str (the (si_statuses input))),
                   sr_clientSideFiltering =
                     (\<exists>c \<in> set merged. \<not> before_bound (si_createdBefore input) c) \<rparr>"
proof -
  have m: "sort_newest_first
             (snd (structured_merge
                     (map (\<lambda>st. fetchConversationPages get
                              ((structured_params cfg input qwd)\<lparr>q_status := Some (status_str st)\<rparr>)
                              (limit_or_default (si_limit input)) None)
                        (the (si_statuses input)))
                     ({}, []))) = merged"
    unfolding structured_branches structured_merge_char merged brs by simp
  show ?thesis
    unfolding searchConversationsStructured_def Let_def filter_step[OF v]
    using a n m
    by (auto simp: structured_params_def nonempty_def split: option.splits)
qed

section \<open>Auto-pagination in the search modes\<close>

lemma fetchLoop_prefix:
  assumes "1 \<le> page" and "convs = take ((page - 1) * P) all"
  shows "\<exists>m t pages.
           fetchLoop (paged_upstream P all) params D M convs tot page hasMore
             = (Inr (take m all, t), pages)"
  using assms
proof (induction "paged_upstream P all" params D M convs tot page hasMore
        rule: fetchLoop.induct)
  case (1 params D M convs tot page hasMore)
  let ?go = "length convs < D \<and> hasMore \<and> page \<le> M"
  show ?case
  proof (cases ?go)
    case False
    have "fetchLoop (paged_upstream P all) params D M convs tot page hasMore
            = (Inr (convs, tot), [])"
      using False by (subst fetchLoop.simps) auto
    then show ?thesis using "1.prems"(2) by blast
  next
    case True
    let ?resp = "\<lparr> pg_conversations = Some (take P (drop ((page - 1) * P) all)),
           pg_totalElements = Some (length all),
           pg_next = (page * P < length all) \<rparr>"
    have get: "paged_upstream P all (params\<lparr>q_page := page\<rparr>) = Inr ?resp"
      by (simp add: paged_upstream_def)
    have convs': "convs @ take P (drop ((page - 1) * P) all) = take ((page + 1 - 1) * P) all"
    proof -
      have "(page + 1 - 1) * P = (page - 1) * P + P"
        using "1.prems"(1) by (cases page) simp_all
      then show ?thesis using "1.prems"(2) by (simp add: take_add)
    qed
    from "1.hyps"[OF True get] convs'
    obtain m t pages where
      r: "fetchLoop (paged_upstream P all) params D M
             (convs @ take P (drop ((page - 1) * P) all))
             (if length all \<noteq> 0 then length all else tot) (page + 1)
             (page * P < length all) = (Inr (take m all, t), pages)"
      by auto
    have "fetchLoop (paged_upstream P all) params D M convs tot page hasMore
            = (Inr (take m all, t), page # pages)"
      using True get r by (subst fetchLoop.simps) simp
    then show ?thesis by blast
  qed
qed

lemma fetchLoop_by_status:
  assumes "q_status params = Some s"
  shows "fetchLoop (paged_by_status P all) params D M convs tot page hasMore
           = fetchLoop (paged_upstream P (all s)) params D M convs tot page hasMore"
  using assms
proof (induction "paged_upstream P (all s)" params D M convs tot page hasMore
        rule: fetchLoop.induct)
  case (1 params D M convs tot page hasMore)
  have g: "paged_by_status P all (params\<lparr>q_page := page\<rparr>)
             = paged_upstream P (all s) (params\<lparr>q_page := page\<rparr>)"
    using "1.prems" by (simp add: paged_by_status_def)
  show ?case
  proof (cases "length convs < D \<and> hasMore \<and> page \<le> M")
    case False
    then show ?thesis
      by (auto simp: fetchLoop.simps[of "paged_by_status P all" params D M convs tot page hasMore]
            fetchLoop.simps[of "paged_upstream P (all s)" params D M convs tot page hasMore])
  next
    case True
    obtain response where r: "paged_upstream P (all s) (params\<lparr>q_page := page\<rparr>) = Inr response"
      by (simp add: paged_upstream_def)
    have L: "fetchLoop (paged_by_status P all) params D M convs tot page hasMore
               = apsnd ((#) page)
                   (fetchLoop (paged_by_status P all) params D M
                      (convs @ (case pg_conversations response of None \<Rightarrow> [] | Some cs \<Rightarrow> cs))
                      (case pg_totalElements response of
                         None \<Rightarrow> tot
                       | Some t \<Rightarrow> if t \<noteq> 0 then t else tot)
                      (page + 1) (pg_next response))"
      using True g r by (subst fetchLoop.simps) simp
    have R: "fetchLoop (paged_upstream P (all s)) params D M convs tot page hasMore
               = apsnd ((#) page)
                   (fetchLoop (paged_upstream P (all s)) params D M
                      (convs @ (case pg_conversations response of None \<Rightarrow> [] | Some cs \<Rightarrow> cs))
                      (case pg_totalElements response of
                         None \<Rightarrow> tot
                       | Some t \<Rightarrow> if t \<noteq> 0 then t else tot)
                      (page + 1) (pg_next response))"
      using True r by (subst fetchLoop.simps) simp
    show ?thesis
      unfolding L R using "1.hyps"[OF True r] "1.prems" by simp
  qed
qed

lemma fetchTrace_by_status:
  "q_status params = Some s \<Longrightarrow>
     fetchTrace (paged_by_status P all) params N maxPages
       = fetchTrace (paged_upstream P (all s)) params N maxPages"
  by (simp add: fetchTrace_def fetchLoop_by_status)

lemma fetch_paged:
  assumes "0 < P" and "0 < N" and "N \<le> P * ((N + 24) div 25 + 1)"
    and "q_status params = Some s"
  shows "\<exists>m. fetchConversationPages (paged_by_status P all) params N None
               = Inr (take m (all s), length (all s))
            \<and> take N (take m (all s)) = take N (all s)"
proof -
  let ?get = "paged_upstream P (all s)"
  from fetchTrace_paged[OF assms(1,3), of "all s" params]
  obtain cs t pages where
    f: "fetchTrace ?get params N None = (Inr (cs, t), pages)"
    and c: "take N cs = take N (all s)" "pages \<noteq> [] \<longrightarrow> t = length (all s)"
    by blast
  from fetchLoop_prefix[of 1 "[]" P "all s" params N "(N + 24) div 25 + 1" 0 True]
  obtain m t' pages' where
    "fetchTrace ?get params N None = (Inr (take m (all s), t'), pages')"
    by (auto simp: fetchTrace_def effectiveMaxPages_def)
  with f have cs: "cs = take m (all s)" by simp
  have "snd (fetchTrace ?get params N None) \<noteq> []"
    unfolding fetchTrace_def effectiveMaxPages_def
    using assms(2)
    by (subst fetchLoop.simps) (simp add: paged_upstream_def)
  with f have "pages \<noteq> []" by simp
  with c(2) have t: "t = length (all s)" by simp
  show ?thesis
    using f c(1) cs t assms(4)
    by (auto simp: fetchConversationPages_def fetchTrace_by_status)
qed

lemma take_take_prefix:
  "take N (take m xs) = take N xs \<Longrightarrow> min N (length (take m xs)) = min N (length xs)"
  by (drule arg_cong[where f = length]) (simp add: min.commute)

lemma first_by_id_distinct:
  "distinct (map conv_id cs) \<Longrightarrow> first_by_id cs = cs"
proof (induction cs)
  case Nil
  then show ?case by simp
next
  case (Cons c cs)
  then have "filter (\<lambda>d. conv_id d \<noteq> conv_id c) cs = cs"
    by (force simp: filter_id_conv image_iff)
  then show ?case using Cons by simp
qed

lemma distinct_concat_prefixes:
  assumes "distinct (map f (concat (map g xs)))"
    and "\<forall>x \<in> set xs. \<exists>m. h x = take m (g x)"
  shows "distinct (map f (concat (map h xs)))"
  using assms
proof (induction xs)
  case Nil
  then show ?case by simp
next
  case (Cons x xs)
  obtain m where m: "h x = take m (g x)" using Cons.prems(2) by auto
  have sub: "set (concat (map h xs)) \<subseteq> set (concat (map g xs))"
  proof
    fix y assume "y \<in> set (concat (map h xs))"
    then obtain z where z: "z \<in> set xs" "y \<in> set (h z)" by auto
    then obtain k where "h z = take k (g z)" using Cons.prems(2) by auto
    then have "y \<in> set (g z)" using z(2) by (auto dest: in_set_takeD)
    then show "y \<in> set (concat (map g xs))" using z(1) by auto
  qed
  have d1: "distinct (map f (g x))" and d2: "distinct (map f (concat (map g xs)))"
    and d3: "f ` set (g x) \<inter> f ` set (concat (map g xs)) = {}"
    using Cons.prems(1) by (simp_all del: set_concat)
  have "distinct (map f (take m (g x)))"
    using d1 by (simp add: take_map[symmetric] distinct_take del: take_map)
  moreover have "distinct (map f (concat (map h xs)))"
    using Cons.IH d2 Cons.prems(2) by simp
  moreover have "f ` set (take m (g x)) \<inter> f ` set (concat (map h xs)) = {}"
  proof -
    have "f ` set (take m (g x)) \<subseteq> f ` set (g x)"
      by (rule image_mono) (rule set_take_subset)
    moreover have "f ` set (concat (map h xs)) \<subseteq> f ` set (concat (map g xs))"
      using sub by (rule image_mono)
    ultimately show ?thesis using d3 by blast
  qed
  ultimately show ?case using m by (simp del: set_concat)
qed

lemma min_sum_prefix:
  assumes "\<forall>x \<in> set xs. a x \<le> b x \<and> min N (a x) = min N (b x)"
  shows "min N (sum_list (map a xs)) = min (N::nat) (sum_list (map b xs))"
  using assms
proof (induction xs)
  case Nil
  then show ?case by simp
next
  case (Cons x xs)
  have IH: "min N (sum_list (map a xs)) = min N (sum_list (map b xs))"
    using Cons by simp
  have x: "a x \<le> b x" "min N (a x) = min N (b x)" using Cons.prems by simp_all
  show ?case
  proof (cases "a x = b x")
    case True
    then show ?thesis using IH by (simp add: min_def split: if_splits)
  next
    case False
    then have "N \<le> a x" "N \<le> b x" using x by (simp_all add: min_def split: if_splits)
    then show ?thesis by (simp add: min_def)
  qed
qed

lemma first_abort_fulfilled:
  "first_abort (map (\<lambda>x. (f x, Inr (g x))) xs) = None"
  by (induction xs) simp_all

lemma fulfilled_all:
  "fulfilled_conversations (map (\<lambda>x. (f x, Inr (g x, t x))) xs) = concat (map g xs)"
  by (simp add: fulfilled_conversations_def comp_def)

lemma foldl_sum:
  "foldl (\<lambda>sum r. sum + f r) a xs = a + sum_list (map f xs)"
  by (induction xs arbitrary: a) (simp_all add: add.assoc)

lemma limit_pos: "0 < N \<Longrightarrow> limit_or_default N = N"
  by (simp add: limit_or_default_def)

lemma absent_valid: "\<not> date_truthy d \<Longrightarrow> \<not> bound_invalid d"
  by (auto simp: date_truthy_def bound_invalid_def split: option.splits prod.splits)

lemma filter_absent: "\<not> date_truthy d \<Longrightarrow> filter (before_bound d) cs = cs"
  by (simp add: before_bound_absent)

lemma branches_paged:
  assumes "0 < P" and "0 < N" and "N \<le> P * ((N + 24) div 25 + 1)"
  shows "\<exists>m. list_branches (paged_by_status P all) bp N sts
               = map (\<lambda>st. (status_str st,
                             Inr (take (m st) (all (status_str st)),
                                  length (all (status_str st))))) sts
            \<and> (\<forall>st. take N (take (m st) (all (status_str st)))
                       = take N (all (status_str st)))"
proof -
  have "\<forall>st. \<exists>m. fetchConversationPages (paged_by_status P all)
                     (bp\<lparr>q_status := Some (status_str st)\<rparr>) N None
                   = Inr (take m (all (status_str st)), length (all (status_str st)))
                \<and> take N (take m (all (status_str st))) = take N (all (status_str st))"
    using fetch_paged[OF assms, of "bp\<lparr>q_status := Some (status_str st)\<rparr>" "status_str st" all
            for st]
    by simp
  then obtain m where
    m: "\<forall>st. fetchConversationPages (paged_by_status P all)
                     (bp\<lparr>q_status := Some (status_str st)\<rparr>) N None
                   = Inr (take (m st) (all (status_str st)), length (all (status_str st)))
                \<and> take N (take (m st) (all (status_str st))) = take N (all (status_str st))"
    by metis
  show ?thesis
    using m by (intro exI[of _ m]) (simp add: list_branches_def)
qed

lemma merged_count:
  assumes "distinct (map conv_id (concat (map (\<lambda>st. all (status_str st)) sts)))"
    and "\<forall>st. take N (take (m st) (all (status_str st))) = take N (all (status_str st))"
    and "brs = map (\<lambda>st. (status_str st,
                           Inr (take (m st) (all (status_str st)),
                                length (all (status_str st))))) sts"
  shows "first_by_id (fulfilled_conversations brs)
           = concat (map (\<lambda>st. take (m st) (all (status_str st))) sts)"
    and "min N (length (first_by_id (fulfilled_conversations brs)))
           = min N (sum_list (map (\<lambda>st. length (all (status_str st))) sts))"
proof -
  let ?cs = "concat (map (\<lambda>st. take (m st) (all (status_str st))) sts)"
  have ful: "fulfilled_conversations brs = ?cs"
    unfolding assms(3) by (rule fulfilled_all)
  have d: "distinct (map conv_id ?cs)"
    using assms(1) by (rule distinct_concat_prefixes) auto
  show f: "first_by_id (fulfilled_conversations brs) = ?cs"
    unfolding ful using d by (rule first_by_id_distinct)
  have "min N (sum_list (map (\<lambda>st. length (take (m st) (all (status_str st)))) sts))
          = min N (sum_list (map (\<lambda>st. length (all (status_str st))) sts))"
  proof (rule min_sum_prefix, intro ballI conjI)
    fix st
    show "length (take (m st) (all (status_str st))) \<le> length (all (status_str st))"
      by simp
    show "min N (length (take (m st) (all (status_str st))))
            = min N (length (all (status_str st)))"
      using assms(2) by (intro take_take_prefix) simp
  qed
  then show "min N (length (first_by_id (fulfilled_conversations brs)))
           = min N (sum_list (map (\<lambda>st. length (all (status_str st))) sts))"
    unfolding f by (simp add: length_concat comp_def)
qed

lemma searchSingleStatus_paged:
  assumes "0 < P" and "0 < N" and "N \<le> P * ((N + 24) div 25 + 1)"
    and "ss_limitPerStatus params = N"
    and "single_status_request params = Inr q"
    and "\<not> date_truthy (ss_createdBefore params)"
  shows "searchSingleStatus (paged_by_status P all) params
           = Inr \<lparr> sg_status = ss_status params,
                   sg_totalCount = length (all (ss_status params)),
                   sg_conversations =
                     map (render (ss_verbose params)) (take N (all (ss_status params))) \<rparr>"
proof -
  have qs: "q_status q = Some (ss_status params)"
    using assms(5) by (auto simp: single_status_request_def split: sum.splits)
  from fetch_paged[OF assms(1,2,3) qs, of all]
  obtain m where
    f: "fetchConversationPages (paged_by_status P all) q N None
          = Inr (take m (all (ss_status params)), length (all (ss_status params)))"
    and t: "take N (take m (all (ss_status params))) = take N (all (ss_status params))"
    by blast
  show ?thesis
    using assms(4,5,6) f t
    by (simp add: searchSingleStatus_def Let_def del: take_take)
qed

lemma keyword_paged:
  assumes "0 < P" and "0 < N" and "N \<le> P * ((N + 24) div 25 + 1)"
    and "si_limit input = N"
    and "\<not> date_truthy (si_createdBefore input)"
    and "appendCreatedAtFilter
           (Some (buildSearchQuery (the (si_searchTerms input)) (si_searchIn input)))
           (Some (keyword_createdAfter isoDaysAgo input)) None = Inr qd"
  shows "\<exists>kres.
           searchConversationsKeyword cfg (paged_by_status P all) isoDaysAgo input verbose
             = Inr kres
         \<and> map (\<lambda>g. (kg_status g, kg_conversations g)) (kr_resultsByStatus kres)
             = map (\<lambda>st. (status_str st, map (render verbose) (take N (all (status_str st)))))
                 (search_statuses input)
         \<and> map kg_count (kr_resultsByStatus kres)
             = map (\<lambda>st. min N (length (all (status_str st)))) (search_statuses input)
         \<and> kr_totalConversationsFound kres
             = sum_list (map (\<lambda>st. min N (length (all (status_str st))))
                           (search_statuses input))"
proof -
  let ?get = "paged_by_status P all"
  let ?g = "\<lambda>st. \<lparr> sg_status = status_str st,
                   sg_totalCount = length (all (status_str st)),
                   sg_conversations = map (render verbose) (take N (all (status_str st))) \<rparr>"
  have one: "searchSingleStatus ?get (keyword_params cfg isoDaysAgo input verbose st) = Inr (?g st)"
    for st
  proof -
    let ?p = "keyword_params cfg isoDaysAgo input verbose st"
    obtain q where q: "single_status_request ?p = Inr q"
      using assms(6) by (simp add: single_status_request_def keyword_params_def)
    have l: "ss_limitPerStatus ?p = N"
      using assms(2,4) by (simp add: keyword_params_def limit_pos)
    have b: "\<not> date_truthy (ss_createdBefore ?p)"
      using assms(5) by (simp add: keyword_params_def)
    show ?thesis
      using searchSingleStatus_paged[OF assms(1,2,3) l q b, of all]
      by (simp add: keyword_params_def)
  qed
  have brs: "keyword_branches cfg ?get isoDaysAgo input verbose
               = map (\<lambda>st. (status_str st, Inr (?g st))) (search_statuses input)"
    by (simp add: keyword_branches_def one)
  have kc: "keyword_collect (keyword_branches cfg ?get isoDaysAgo input verbose) []
              = Inr (map ?g (search_statuses input))"
    unfolding keyword_collect_char brs first_abort_fulfilled
    by (simp add: fold_branch_def comp_def)
  show ?thesis
    unfolding searchConversationsKeyword_def kc
    by (simp add: comp_def foldl_sum min.commute)
qed

lemma list_single_paged:
  assumes "0 < P" and "0 < N" and "N \<le> P * ((N + 24) div 25 + 1)"
    and "list_params cfg input = Inr bp"
    and "si_limit input = N"
    and "si_status input = Some st" and "si_statuses input = None"
    and "\<not> date_truthy (si_createdBefore input)"
  shows "\<exists>res. searchConversationsList cfg (paged_by_status P all) input verbose = Inr res
             \<and> lr_results res = map (render verbose) (take N (all (status_str st)))"
proof -
  from fetch_paged[OF assms(1,2,3), of "bp\<lparr>q_status := Some (status_str st)\<rparr>"
         "status_str st" all]
  obtain m where
    f: "fetchConversationPages (paged_by_status P all)
          (bp\<lparr>q_status := Some (status_str st)\<rparr>) N None
          = Inr (take m (all (status_str st)), length (all (status_str st)))"
    and t: "take N (take m (all (status_str st))) = take N (all (status_str st))"
    by auto
  have lf: "list_fetch (paged_by_status P all) bp input
              = Inr (take N (all (status_str st)), [status_str st],
                     no_pagination\<lparr> pa_returned := Some (length (take N (all (status_str st)))),
                                    pa_totalAvailable := Some (length (all (status_str st))) \<rparr>)"
    using f assms(2,5,6,7)
    unfolding t[symmetric]
    by (simp add: list_fetch_def limit_pos Let_def del: take_take length_take)
  show ?thesis
    using assms(4,8) lf
    by (simp add: searchConversationsList_def Let_def)
qed

lemma list_multi_paged:
  assumes "0 < P" and "0 < N" and "N \<le> P * ((N + 24) div 25 + 1)"
    and "list_params cfg input = Inr bp"
    and "si_limit input = N"
    and "si_status input = None \<or> si_statuses input \<noteq> None"
    and "\<not> date_truthy (si_createdBefore input)"
    and "distinct (map conv_id (concat (map (\<lambda>st. all (status_str st))
                                          (search_statuses input))))"
  shows "\<exists>res. searchConversationsList cfg (paged_by_status P all) input verbose = Inr res
             \<and> length (lr_results res)
                 = min N (sum_list (map (\<lambda>st. length (all (status_str st)))
                                      (search_statuses input)))
             \<and> distinct (map out_id (lr_results res))"
proof -
  let ?get = "paged_by_status P all"
  let ?sts = "search_statuses input"
  have lim: "limit_or_default (si_limit input) = N"
    using assms(2,5) by (simp add: limit_pos)
  from branches_paged[OF assms(1,2,3), of all bp ?sts]
  obtain m where
    brs: "list_branches ?get bp N ?sts
            = map (\<lambda>st. (status_str st,
                          Inr (take (m st) (all (status_str st)),
                               length (all (status_str st))))) ?sts"
    and tk: "\<forall>st. take N (take (m st) (all (status_str st))) = take N (all (status_str st))"
    by blast
  have na: "first_abort (list_branches ?get bp (limit_or_default (si_limit input)) ?sts) = None"
    unfolding lim brs by (rule first_abort_fulfilled)
  from list_call_multi[OF assms(4,6) absent_valid[OF assms(7)] na refl refl refl, of verbose]
  obtain res where
    r: "searchConversationsList cfg ?get input verbose = Inr res"
    and rs: "lr_results res
               = map (render verbose)
                   (take N (sort_newest_first
                              (first_by_id (fulfilled_conversations
                                              (list_branches ?get bp N ?sts)))))"
    unfolding lim filter_absent[OF assms(7)] by blast
  have len: "length (lr_results res)
               = min N (length (first_by_id (fulfilled_conversations
                                               (list_branches ?get bp N ?sts))))"
    unfolding rs by (simp add: sort_newest_first_def min.commute)
  have d: "distinct (map out_id (lr_results res))"
    unfolding rs using distinct_merged(1)[of N "\<lambda>c. True"] by (simp add: comp_def)
  show ?thesis
    using r len d merged_count(2)[OF assms(8) tk brs] by simp
qed

lemma structured_single_paged:
  assumes "0 < P" and "0 < N" and "N \<le> P * ((N + 24) div 25 + 1)"
    and "appendCreatedAtFilter
           (if truthy (structured_query input) then structured_query input else None)
           (si_createdAfter input) None = Inr qwd"
    and "si_limit input = N"
    and "\<not> nonempty (si_statuses input)"
    and "\<not> date_truthy (si_createdBefore input)"
  shows "\<exists>res. searchConversationsStructured cfg (paged_by_status P all) input verbose = Inr res
             \<and> sr_results res
                 = map (render verbose)
                     (take N (all (case si_status input of
                                     Some st \<Rightarrow> status_str st | None \<Rightarrow> ''all'')))"
proof -
  let ?s = "(case si_status input of Some st \<Rightarrow> status_str st | None \<Rightarrow> ''all'')"
  from fetch_paged[OF assms(1,2,3), of "(structured_params cfg input qwd)\<lparr>q_status := Some ?s\<rparr>"
         ?s all]
  obtain m where
    f: "fetchConversationPages (paged_by_status P all)
          ((structured_params cfg input qwd)\<lparr>q_status := Some ?s\<rparr>) N None
          = Inr (take m (all ?s), length (all ?s))"
    and t: "take N (take m (all ?s)) = take N (all ?s)"
    by auto
  show ?thesis
    using assms(2,4,5,6,7) f t
    by (simp add: searchConversationsStructured_def Let_def limit_pos structured_params_def
          del: take_take)
qed

lemma structured_multi_paged:
  assumes "0 < P" and "0 < N" and "N \<le> P * ((N + 24) div 25 + 1)"
    and "appendCreatedAtFilter
           (if truthy (structured_query input) then structured_query input else None)
           (si_createdAfter input) None = Inr qwd"
    and "si_limit input = N"
    and "nonempty (si_statuses input)"
    and "\<not> date_truthy (si_createdBefore input)"
    and "distinct (map conv_id (concat (map (\<lambda>st. all (status_str st))
                                          (the (si_statuses input)))))"
  shows "\<exists>res. searchConversationsStructured cfg (paged_by_status P all) input verbose = Inr res
             \<and> length (sr_results res)
                 = min N (sum_list (map (\<lambda>st. length (all (status_str st)))
                                      (the (si_statuses input))))
             \<and> distinct (map out_id (sr_results res))"
proof -
  let ?get = "paged_by_status P all"
  let ?sts = "the (si_statuses input)"
  let ?qp = "structured_params cfg input qwd"
  have lim: "limit_or_default (si_limit input) = N"
    using assms(2,5) by (simp add: limit_pos)
  from branches_paged[OF assms(1,2,3), of all ?qp ?sts]
  obtain m where
    brs: "list_branches ?get ?qp N ?sts
            = map (\<lambda>st. (status_str st,
                          Inr (take (m st) (all (status_str st)),
                               length (all (status_str st))))) ?sts"
    and tk: "\<forall>st. take N (take (m st) (all (status_str st))) = take N (all (status_str st))"
    by blast
  note res = structured_call_multi[OF assms(4,6) absent_valid[OF assms(7)] refl refl,
               of cfg ?get verbose, unfolded lim filter_absent[OF assms(7)]]
  have d: "distinct (map conv_id
             (take N (sort_newest_first
                        (first_by_id (fulfilled_conversations (list_branches ?get ?qp N ?sts))))))"
    using distinct_merged(1)[of N "\<lambda>c. True"] by simp
  show ?thesis
    unfolding res using d merged_count(2)[OF assms(8) tk brs]
    by (simp add: comp_def sort_newest_first_def min.commute)
qed

lemma fetchTrace_status:
  assumes "0 < P" and "N \<le> P * ((N + 24) div 25 + 1)" and "q_status params = Some s"
  shows "\<exists>cs t pages.
           fetchTrace (paged_by_status P all) params N None = (Inr (cs, t), pages)
         \<and> take N cs = take N (all s)
         \<and> pages = [1 ..< 1 + length pages]
         \<and> (\<forall>p \<in> set pages. length (take ((p - 1) * P) (all s)) < N
                \<and> (p = 1 \<or> (p - 1) * P < length (all s)))"
  using fetchTrace_paged[OF assms(1,2), of "all s" params]
  unfolding fetchTrace_by_status[OF assms(3)] by blast

lemma distinct_rendered:
  "distinct (map conv_id cs) \<Longrightarrow> distinct (map out_id (map (render v) (take n cs)))"
  by (simp add: comp_def take_map[symmetric] distinct_take del: take_map)

text \<open>
  The cap of \<open>ceil(N / 25) + 1\<close> pages stops the loop whatever it has gathered: with pages
  of five records, a request for thirty of the sixty records of a status ends after three
  pages, with fifteen records.
\<close>

lemma page_cap_stops_early:
  "map_prod (map_sum id (\<lambda>(cs, t). (length cs, t))) id
     (fetchTrace (paged_by_status 5 sixty_per_status)
        \<lparr> q_page = 1, q_size = 30, q_sortField = ''createdAt'', q_sortOrder = ''desc'',
          q_query = None, q_mailbox = None, q_tag = None, q_status = Some ''active'' \<rparr>
        30 None)
     = (Inr (15, 60), [1, 2, 3])"
  by code_simp

text \<open>
  C7, as amended. The upstream holds, for each status, a list of records that it serves in
  pages of \<open>P\<close> records, announcing a next page while records remain. A search asks for
  \<open>N\<close> results and gives no \<open>createdBefore\<close> bound, and the loop's cap of \<open>ceil(N / 25) + 1\<close>
  pages holds \<open>N\<close> records, as it does for every \<open>P\<close> from 25 on. Then:

  \<^item> the loop of one fetch requests the pages \<open>1, 2, ...\<close> in sequence, each one only while
    fewer than \<open>N\<close> records are gathered and the page before announced a next one, and
    the first \<open>N\<close> of the records it gathers are the first \<open>N\<close> of the status;

  \<^item> \<open>searchSingleStatus\<close> delivers the first \<open>min N total\<close> records of its status, so a
    keyword search delivers that many for each status, the sum over the statuses in all;

  \<^item> a list search of one status, and a structured search given no statuses, deliver the
    first \<open>min N total\<close> records of the status, with no id twice when the upstream has
    none twice;

  \<^item> a list search and a structured search over several statuses whose records have ids
    distinct from one another deliver \<open>min N s\<close> records, \<open>s\<close> the sum of the totals of the
    statuses, and no id twice.
\<close>

theorem pagination_completeness:
  assumes "0 < P" and "0 < N" and "N \<le> P * ((N + 24) div 25 + 1)"
    and "si_limit input = N" and "\<not> date_truthy (si_createdBefore input)"
  shows
    "(q_status params = Some s \<longrightarrow>
        (\<exists>cs t pages.
            fetchTrace (paged_by_status P all) params N None = (Inr (cs, t), pages)
          \<and> take N cs = take N (all s)
          \<and> pages = [1 ..< 1 + length pages]
          \<and> (\<forall>p \<in> set pages. length (take ((p - 1) * P) (all s)) < N
                 \<and> (p = 1 \<or> (p - 1) * P < length (all s)))))
   \<and> (ss_limitPerStatus sp = N \<and> single_status_request sp = Inr q
        \<and> \<not> date_truthy (ss_createdBefore sp) \<longrightarrow>
        searchSingleStatus (paged_by_status P all) sp
          = Inr \<lparr> sg_status = ss_status sp,
                  sg_totalCount = length (all (ss_status sp)),
                  sg_conversations =
                    map (render (ss_verbose sp)) (take N (all (ss_status sp))) \<rparr>)
   \<and> (appendCreatedAtFilter
          (Some (buildSearchQuery (the (si_searchTerms input)) (si_searchIn input)))
          (Some (keyword_createdAfter isoDaysAgo input)) None = Inr qd \<longrightarrow>
        (\<exists>kres.
            searchConversationsKeyword cfg (paged_by_status P all) isoDaysAgo input verbose
              = Inr kres
          \<and> map (\<lambda>g. (kg_status g, kg_conversations g)) (kr_resultsByStatus kres)
              = map (\<lambda>st. (status_str st, map (render verbose) (take N (all (status_str st)))))
                  (search_statuses input)
          \<and> map kg_count (kr_resultsByStatus kres)
              = map (\<lambda>st. min N (length (all (status_str st)))) (search_statuses input)
          \<and> kr_totalConversationsFound kres
              = sum_list (map (\<lambda>st. min N (length (all (status_str st))))
                            (search_statuses input))))
   \<and> (list_params cfg input = Inr bp \<and> si_status input = Some st
        \<and> si_statuses input = None \<longrightarrow>
        (\<exists>res.
            searchConversationsList cfg (paged_by_status P all) input verbose = Inr res
          \<and> lr_results res = map (render verbose) (take N (all (status_str st)))
          \<and> length (lr_results res) = min N (length (all (status_str st)))
          \<and> (distinct (map conv_id (all (status_str st))) \<longrightarrow>
                distinct (map out_id (lr_results res)))))
   \<and> (list_params cfg input = Inr bp
        \<and> (si_status input = None \<or> si_statuses input \<noteq> None)
        \<and> distinct (map conv_id (concat (map (\<lambda>st. all (status_str st))
                                             (search_statuses input)))) \<longrightarrow>
        (\<exists>res.
            searchConversationsList cfg (paged_by_status P all) input verbose = Inr res
          \<and> length (lr_results res)
              = min N (sum_list (map (\<lambda>st. length (all (status_str st)))
                                   (search_statuses input)))
          \<and> distinct (map out_id (lr_results res))))
   \<and> (appendCreatedAtFilter
          (if truthy (structured_query input) then structured_query input else None)
          (si_createdAfter input) None = Inr qwd
        \<and> \<not> nonempty (si_statuses input) \<longrightarrow>
        (\<exists>res.
            searchConversationsStructured cfg (paged_by_status P all) input verbose = Inr res
          \<and> sr_results res
              = map (render verbose)
                  (take N (all (case si_status input of
                                  Some st \<Rightarrow> status_str st | None \<Rightarrow> ''all'')))
          \<and> length (sr_results res)
              = min N (length (all (case si_status input of
                                      Some st \<Rightarrow> status_str st | None \<Rightarrow> ''all'')))
          \<and> (distinct (map conv_id (all (case si_status input of
                                            Some st \<Rightarrow> status_str st | None \<Rightarrow> ''all''))) \<longrightarrow>
                distinct (map out_id (sr_results res)))))
   \<and> (appendCreatedAtFilter
          (if truthy (structured_query input) then structured_query input else None)
          (si_createdAfter input) None = Inr qwd
        \<and> nonempty (si_statuses input)
        \<and> distinct (map conv_id (concat (map (\<lambda>st. all (status_str st))
                                             (the (si_statuses input))))) \<longrightarrow>
        (\<exists>res.
            searchConversationsStructured cfg (paged_by_status P all) input verbose = Inr res
          \<and> length (sr_results res)
              = min N (sum_list (map (\<lambda>st. length (all (status_str st)))
                                   (the (si_statuses input))))
          \<and> distinct (map out_id (sr_results res))))"
proof (intro conjI impI)
  assume "q_status params = Some s"
  then show "\<exists>cs t pages.
            fetchTrace (paged_by_status P all) params N None = (Inr (cs, t), pages)
          \<and> take N cs = take N (all s)
          \<and> pages = [1 ..< 1 + length pages]
          \<and> (\<forall>p \<in> set pages. length (take ((p - 1) * P) (all s)) < N
                 \<and> (p = 1 \<or> (p - 1) * P < length (all s)))"
    using assms(1,3) by (intro fetchTrace_status)
next
  assume "ss_limitPerStatus sp = N \<and> single_status_request sp = Inr q
        \<and> \<not> date_truthy (ss_createdBefore sp)"
  then show "searchSingleStatus (paged_by_status P all) sp
          = Inr \<lparr> sg_status = ss_status sp,
                  sg_totalCount = length (all (ss_status sp)),
                  sg_conversations =
                    map (render (ss_verbose sp)) (take N (all (ss_status sp))) \<rparr>"
    using searchSingleStatus_paged[OF assms(1,2,3), of sp q all] by blast
next
  assume "appendCreatedAtFilter
          (Some (buildSearchQuery (the (si_searchTerms input)) (si_searchIn input)))
          (Some (keyword_createdAfter isoDaysAgo input)) None = Inr qd"
  then show "\<exists>kres.
            searchConversationsKeyword cfg (paged_by_status P all) isoDaysAgo input verbose
              = Inr kres
          \<and> map (\<lambda>g. (kg_status g, kg_conversations g)) (kr_resultsByStatus kres)
              = map (\<lambda>st. (status_str st, map (render verbose) (take N (all (status_str st)))))
                  (search_statuses input)
          \<and> map kg_count (kr_resultsByStatus kres)
              = map (\<lambda>st. min N (length (all (status_str st)))) (search_statuses input)
          \<and> kr_totalConversationsFound kres
              = sum_list (map (\<lambda>st. min N (length (all (status_str st))))
                            (search_statuses input))"
    using assms by (intro keyword_paged)
next
  assume h: "list_params cfg input = Inr bp \<and> si_status input = Some st
        \<and> si_statuses input = None"
  then have a: "list_params cfg input = Inr bp" and b: "si_status input = Some st"
    and c: "si_statuses input = None"
    by simp_all
  from list_single_paged[OF assms(1,2,3) a assms(4) b c assms(5), of all verbose]
  obtain res where
    r: "searchConversationsList cfg (paged_by_status P all) input verbose = Inr res"
    and rs: "lr_results res = map (render verbose) (take N (all (status_str st)))"
    by blast
  show "\<exists>res.
            searchConversationsList cfg (paged_by_status P all) input verbose = Inr res
          \<and> lr_results res = map (render verbose) (take N (all (status_str st)))
          \<and> length (lr_results res) = min N (length (all (status_str st)))
          \<and> (distinct (map conv_id (all (status_str st))) \<longrightarrow>
                distinct (map out_id (lr_results res)))"
    using r rs distinct_rendered[of "all (status_str st)" verbose N]
    by (auto simp: min.commute)
next
  assume h: "list_params cfg input = Inr bp
        \<and> (si_status input = None \<or> si_statuses input \<noteq> None)
        \<and> distinct (map conv_id (concat (map (\<lambda>st. all (status_str st))
                                             (search_statuses input))))"
  then show "\<exists>res.
            searchConversationsList cfg (paged_by_status P all) input verbose = Inr res
          \<and> length (lr_results res)
              = min N (sum_list (map (\<lambda>st. length (all (status_str st)))
                                   (search_statuses input)))
          \<and> distinct (map out_id (lr_results res))"
    using list_multi_paged[OF assms(1,2,3) _ assms(4) _ assms(5), of cfg bp all verbose]
    by blast
next
  assume h: "appendCreatedAtFilter
          (if truthy (structured_query input) then structured_query input else None)
          (si_createdAfter input) None = Inr qwd
        \<and> \<not> nonempty (si_statuses input)"
  then have a: "appendCreatedAtFilter
          (if truthy (structured_query input) then structured_query input else None)
          (si_createdAfter input) None = Inr qwd"
    and b: "\<not> nonempty (si_statuses input)"
    by simp_all
  from structured_single_paged[OF assms(1,2,3) a assms(4) b assms(5), of cfg all verbose]
  obtain res where
    r: "searchConversationsStructured cfg (paged_by_status P all) input verbose = Inr res"
    and rs: "sr_results res
              = map (render verbose)
                  (take N (all (case si_status input of
                                  Some st \<Rightarrow> status_str st | None \<Rightarrow> ''all'')))"
    by blast
  show "\<exists>res.
            searchConversationsStructured cfg (paged_by_status P all) input verbose = Inr res
          \<and> sr_results res
              = map (render verbose)
                  (take N (all (case si_status input of
                                  Some st \<Rightarrow> status_str st | None \<Rightarrow> ''all'')))
          \<and> length (sr_results res)
              = min N (length (all (case si_status input of
                                      Some st \<Rightarrow> status_str st | None \<Rightarrow> ''all'')))
          \<and> (distinct (map conv_id (all (case si_status input of
                                            Some st \<Rightarrow> status_str st | None \<Rightarrow> ''all''))) \<longrightarrow>
                distinct (map out_id (sr_results res)))"
    using r rs
      distinct_rendered[of "all (case si_status input of
                                   Some st \<Rightarrow> status_str st | None \<Rightarrow> ''all'')" verbose N]
    by (auto simp: min.commute)
next
  assume h: "appendCreatedAtFilter
          (if truthy (structured_query input) then structured_query input else None)
          (si_createdAfter input) None = Inr qwd
        \<and> nonempty (si_statuses input)
        \<and> distinct (map conv_id (concat (map (\<lambda>st. all (status_str st))
                                             (the (si_statuses input)))))"
  then show "\<exists>res.
            searchConversationsStructured cfg (paged_by_status P all) input verbose = Inr res
          \<and> length (sr_results res)
              = min N (sum_list (map (\<lambda>st. length (all (status_str st)))
                                   (the (si_statuses input))))
          \<and> distinct (map out_id (sr_results res))"
    using structured_multi_paged[OF assms(1,2,3) _ assms(4) _ assms(5), of qwd all cfg verbose]
    by blast
qed

text \<open>
  For \<open>N = 30\<close>, pages of 25 and sixty records under each status: the listing of one
  status delivers the first thirty records, the keyword search thirty for each of its
  three statuses, and the listing of the three statuses thirty records in all.
\<close>

theorem pagination_completeness_witness:
  "(\<exists>res. searchConversationsList (loadConfig Map.empty) (paged_by_status 25 sixty_per_status)
            (sample_input\<lparr> si_limit := 30, si_status := Some Active \<rparr>) False = Inr res
        \<and> lr_results res = map (render False) (take 30 (sixty_per_status ''active''))
        \<and> length (lr_results res) = 30
        \<and> distinct (map out_id (lr_results res)))
   \<and> (\<exists>kres. searchConversationsKeyword (loadConfig Map.empty)
              (paged_by_status 25 sixty_per_status) (\<lambda>n. ''2024-01-15T10:20:30.123Z'')
              (sample_input\<lparr> si_searchTerms := Some [''refund''], si_limit := 30 \<rparr>) False
              = Inr kres
        \<and> map kg_count (kr_resultsByStatus kres) = [30, 30, 30]
        \<and> kr_totalConversationsFound kres = 90)
   \<and> (\<exists>res. searchConversationsList (loadConfig Map.empty)
              (paged_by_status 25 sixty_per_status)
              (sample_input\<lparr> si_limit := 30 \<rparr>) False = Inr res
        \<and> length (lr_results res) = 30
        \<and> distinct (map out_id (lr_results res)))"
proof -
  let ?cfg = "loadConfig Map.empty"
  let ?get = "paged_by_status 25 sixty_per_status"
  let ?mi = "sample_input\<lparr> si_limit := 30 \<rparr>"
  let ?clk = "\<lambda>n::nat. ''2024-01-15T10:20:30.123Z''"
  let ?li = "sample_input\<lparr> si_limit := 30, si_status := Some Active \<rparr>"
  let ?ki = "sample_input\<lparr> si_searchTerms := Some [''refund''], si_limit := 30 \<rparr>"
  let ?bp = "\<lparr> q_page = 1, q_size = 30, q_sortField = ''createdAt'', q_sortOrder = ''desc'',
              q_query = None, q_mailbox = None, q_tag = None, q_status = None \<rparr>"
  let ?qd = "appendCreatedAtFilter
               (Some (buildSearchQuery (the (si_searchTerms ?ki)) (si_searchIn ?ki)))
               (Some (keyword_createdAfter ?clk ?ki)) None"
  have cap: "(30::nat) \<le> 25 * ((30 + 24) div 25 + 1)" by simp
  have nb: "\<not> date_truthy (si_createdBefore ?li)" "\<not> date_truthy (si_createdBefore ?ki)"
    by (simp_all add: sample_input_def date_truthy_def)
  have lp: "list_params ?cfg ?li = Inr ?bp" by code_simp
  have st: "si_status ?li = Some Active" "si_statuses ?li = None"
    by (simp_all add: sample_input_def)
  have len: "length (sixty_per_status ''active'') = 60"
    by (simp add: sixty_per_status_def)
  have d: "distinct (map conv_id (sixty_per_status ''active''))"
    by (simp add: sixty_per_status_def distinct_map comp_def sample_conversation_def inj_on_def)
  have "\<not> isl ?qd" by code_simp
  then have qd: "?qd = Inr (projr ?qd)" by simp
  have ss: "search_statuses ?ki = [Active, Pending, Closed]"
    by (simp add: search_statuses_def sample_input_def nonempty_def default_statuses_def)
  have lens: "length (sixty_per_status s) = 60" for s
    by (simp add: sixty_per_status_def)
  have p1: "0 < (25::nat)" and p2: "0 < (30::nat)" by simp_all
  have lim: "si_limit ?li = 30" "si_limit ?ki = 30" by simp_all
  note l = pagination_completeness[where P = 25 and N = 30 and input = ?li
             and all = sixty_per_status and cfg = ?cfg and bp = ?bp and st = Active
             and verbose = False, OF p1 p2 cap lim(1) nb(1),
             THEN conjunct2, THEN conjunct2, THEN conjunct2, THEN conjunct1]
  note k = pagination_completeness[where P = 25 and N = 30 and input = ?ki
             and all = sixty_per_status and cfg = ?cfg and isoDaysAgo = ?clk
             and qd = "projr ?qd" and verbose = False, OF p1 p2 cap lim(2) nb(2),
             THEN conjunct2, THEN conjunct2, THEN conjunct1]
  have L: "\<exists>res. searchConversationsList ?cfg ?get ?li False = Inr res
        \<and> lr_results res = map (render False) (take 30 (sixty_per_status ''active''))
        \<and> length (lr_results res) = 30
        \<and> distinct (map out_id (lr_results res))"
    using l lp st d len by auto
  have K: "\<exists>kres. searchConversationsKeyword ?cfg ?get ?clk ?ki False = Inr kres
        \<and> map kg_count (kr_resultsByStatus kres) = [30, 30, 30]
        \<and> kr_totalConversationsFound kres = 90"
    using k qd unfolding ss by (auto simp: lens)
  have lpm: "list_params ?cfg ?mi = Inr ?bp" by code_simp
  have multi: "si_status ?mi = None \<or> si_statuses ?mi \<noteq> None"
    by (simp add: sample_input_def)
  have nbm: "\<not> date_truthy (si_createdBefore ?mi)"
    by (simp add: sample_input_def date_truthy_def)
  have ssm: "search_statuses ?mi = [Active, Pending, Closed]"
    by (simp add: search_statuses_def sample_input_def nonempty_def default_statuses_def)
  have dm: "distinct (map conv_id (concat (map (\<lambda>st. sixty_per_status (status_str st))
                                             (search_statuses ?mi))))"
    unfolding ssm by code_simp
  have limm: "si_limit ?mi = 30" by simp
  note m = pagination_completeness[where P = 25 and N = 30 and input = ?mi
             and all = sixty_per_status and cfg = ?cfg and bp = ?bp
             and verbose = False, OF p1 p2 cap limm nbm,
             THEN conjunct2, THEN conjunct2, THEN conjunct2, THEN conjunct2, THEN conjunct1]
  have M: "\<exists>res. searchConversationsList ?cfg ?get ?mi False = Inr res
        \<and> length (lr_results res) = 30
        \<and> distinct (map out_id (lr_results res))"
    using m lpm multi dm unfolding ssm by (auto simp: lens)
  from L K M show ?thesis by blast
qed

text \<open>
  C7 as stated fails in keyword mode: for \<open>N = 30\<close> and sixty records under each of three
  statuses the search delivers 90 records, thirty for each status, all with ids of their
  own. It fails under a \<open>createdBefore\<close> bound too: the listing of one status delivers the 19
  records before the bound among the first thirty, while 49 records of the status are before
  the bound.
\<close>

theorem pagination_completeness_counterexample:
  "map_sum id (\<lambda>r. (kr_totalConversationsFound r, map kg_count (kr_resultsByStatus r),
                     distinct (concat (map (\<lambda>g. map out_id (kg_conversations g))
                                         (kr_resultsByStatus r)))))
     (searchConversationsKeyword (loadConfig Map.empty) (paged_by_status 25 sixty_per_status)
        (\<lambda>n. ''2024-01-15T10:20:30.123Z'')
        (sample_input\<lparr> si_searchTerms := Some [''refund''], si_limit := 30 \<rparr>) False)
     = Inr (90, [30, 30, 30], True)
   \<and> map_sum id (\<lambda>r. length (lr_results r))
       (searchConversationsList (loadConfig Map.empty) (paged_by_status 25 sixty_per_status)
          (sample_input\<lparr> si_status := Some Active, si_limit := 30,
             si_createdBefore := Some (''1970-01-01T00:00:00.990Z'', Some 990) \<rparr>) False)
     = Inr 19
   \<and> length (filter (\<lambda>c. conv_createdAt c < 990) (sixty_per_status ''active'')) = 49"
  by code_simp

section \<open>Properties of the client-side date filter\<close>






section \<open>Properties of the merges over several statuses\<close>









section \<open>Properties of transcripts\<close>

text \<open>
  C9. A transcript holds only entries made from the threads of type \<open>customer\<close> or
  \<open>message\<close> that are not drafts (so no note and no line item), in ascending order of
  \<open>createdAt\<close>; it has \<open>min maxMessages d\<close> entries, where \<open>d\<close> is the number of such
  threads, hence at most \<open>maxMessages\<close>. Under redaction every body is the placeholder;
  otherwise the body of an entry is the thread's body with the Beacon form cleaned and the
  HTML stripped. An absent \<open>transcriptMaxMessages\<close> is read as 10.
\<close>

theorem buildTranscript_dialogue:
  "set (buildTranscript cfg threads maxMessages)
     \<subseteq> transcript_entry cfg `
         {t \<in> set threads. (th_type t = ''customer'' \<or> th_type t = ''message'')
                           \<and> th_state t \<noteq> ''draft''}
   \<and> sorted (map tm_date (buildTranscript cfg threads maxMessages))
   \<and> length (buildTranscript cfg threads maxMessages)
       = min maxMessages (length (filter is_dialogue threads))
   \<and> length (buildTranscript cfg threads maxMessages) \<le> maxMessages
   \<and> (\<not> allowPii cfg \<longrightarrow>
         (\<forall>m \<in> set (buildTranscript cfg threads maxMessages). tm_body m = redacted))
   \<and> (\<forall>t. tm_body (transcript_entry cfg t)
            = (if allowPii cfg
               then stripHtml (cleanBeaconForm (case th_body t of Some b \<Rightarrow> b | None \<Rightarrow> []))
               else redacted))
   \<and> parse_transcriptMaxMessages None = Inr 10"
proof (intro conjI)
  let ?d = "sort_key th_createdAt (filter is_dialogue threads)"
  have bt: "buildTranscript cfg threads maxMessages = map (transcript_entry cfg) (take maxMessages ?d)"
    by (simp add: buildTranscript_def Let_def)
  have date: "\<And>t. tm_date (transcript_entry cfg t) = th_createdAt t"
    by (simp add: transcript_entry_def Let_def)
  show "set (buildTranscript cfg threads maxMessages)
     \<subseteq> transcript_entry cfg `
         {t \<in> set threads. (th_type t = ''customer'' \<or> th_type t = ''message'')
                           \<and> th_state t \<noteq> ''draft''}"
  proof
    fix m assume "m \<in> set (buildTranscript cfg threads maxMessages)"
    then obtain t where t: "t \<in> set (take maxMessages ?d)" and m: "m = transcript_entry cfg t"
      by (auto simp: bt)
    from t have "t \<in> set ?d" by (rule in_set_takeD)
    then have "t \<in> set threads" and "is_dialogue t" by auto
    then show "m \<in> transcript_entry cfg `
         {t \<in> set threads. (th_type t = ''customer'' \<or> th_type t = ''message'')
                           \<and> th_state t \<noteq> ''draft''}"
      using m by (auto simp: is_dialogue_def split: if_splits)
  qed
  have "sorted (map th_createdAt ?d)" by simp
  then have "sorted (map th_createdAt (take maxMessages ?d))"
    by (simp add: sorted_wrt_take take_map[symmetric] del: take_map)
  then show "sorted (map tm_date (buildTranscript cfg threads maxMessages))"
    by (simp add: bt comp_def date)
  show "length (buildTranscript cfg threads maxMessages)
       = min maxMessages (length (filter is_dialogue threads))"
    by (simp add: bt min.commute)
  show "length (buildTranscript cfg threads maxMessages) \<le> maxMessages"
    by (simp add: bt)
  show "\<not> allowPii cfg \<longrightarrow>
         (\<forall>m \<in> set (buildTranscript cfg threads maxMessages). tm_body m = redacted)"
    by (auto simp: bt transcript_entry_def Let_def)
  show "\<forall>t. tm_body (transcript_entry cfg t)
            = (if allowPii cfg
               then stripHtml (cleanBeaconForm (case th_body t of Some b \<Rightarrow> b | None \<Rightarrow> []))
               else redacted)"
    by (simp add: transcript_entry_def Let_def)
  show "parse_transcriptMaxMessages None = Inr 10"
    by (simp add: parse_transcriptMaxMessages_def transcriptMaxMessages_default_def)
qed

text \<open>
  The transcript of the five sample threads: the note, the draft and the line item are left
  out, the customer's message comes before the later staff reply, and a maximum of one keeps
  one entry.
\<close>

theorem buildTranscript_dialogue_witness:
  "map (\<lambda>m. (tm_role m, tm_date m, tm_body m))
     (buildTranscript (loadConfig Map.empty) sample_threads 10)
     = [(''customer'', 0, ''I have a billing question''),
        (''staff'', 3600, ''Happy to help with billing'')]
   \<and> length (buildTranscript (loadConfig Map.empty) sample_threads 1) = 1"
proof -
  have e: "map (\<lambda>m. (tm_role m, tm_date m, tm_body m))
     (buildTranscript (loadConfig Map.empty) sample_threads 10)
     = [(''customer'', 0, ''I have a billing question''),
        (''staff'', 3600, ''Happy to help with billing'')]"
    by code_simp
  have f: "length (filter is_dialogue sample_threads) = 2"
    by code_simp
  from buildTranscript_dialogue[of "loadConfig Map.empty" sample_threads 1] f
  have "length (buildTranscript (loadConfig Map.empty) sample_threads 1) = 1"
    by simp
  with e show ?thesis by simp
qed

section \<open>Properties of redaction\<close>

text \<open>
  With \<open>REDACT_MESSAGE_CONTENT=true\<close> the configuration disallows message content, and an unset
  variable allows it. Under redaction \<open>getThreads\<close> returns the placeholder for every body in
  each of its three formats, and so does the slim conversation summary.
\<close>

lemma redacting_config_allowPii: "\<not> allowPii redacting_config"
  by (simp add: redacting_config_def loadConfig_def)

lemma unset_allowPii: "env ''REDACT_MESSAGE_CONTENT'' = None \<Longrightarrow> allowPii (loadConfig env)"
  by (simp add: loadConfig_def)

lemma getThreads_redacted:
  assumes "\<not> allowPii cfg" and "getThreads cfg getThreadPage input = Inr r"
  shows "\<forall>b \<in> set (threads_result_bodies r). b = Some redacted"
  using assms
  by (auto simp: getThreads_def Let_def buildTranscript_def transcript_entry_def slimThread_def
      split: sum.splits prod.splits if_splits)

lemma summary_slim_redacted:
  assumes "\<not> allowPii cfg" and "\<not> isVerbose cfg verboseArg"
    and "getConversationSummary cfg getConversation getThreadPage cid verboseArg = Inr r"
  shows "\<forall>b \<in> set (summary_result_bodies r). b = Some redacted"
  using assms
  by (auto simp: getConversationSummary_def Let_def split: sum.splits prod.splits option.splits)

text \<open>
  C10. The verbose conversation summary returns the conversation and the threads as they
  were fetched, whatever the configuration: the bodies of its result are the upstream bodies,
  also when redaction is enabled.
\<close>

theorem summary_verbose_not_redacted:
  "getConversation conversationId = Inr conversation
   \<and> fetchThreadPages getThreadPage conversationId 200 = Inr (threads, tot)
   \<and> isVerbose cfg verboseArg
   \<longrightarrow> getConversationSummary cfg getConversation getThreadPage conversationId verboseArg
         = Inr (VerboseSummary conversation threads)
       \<and> summary_result_bodies (VerboseSummary conversation threads) = map th_body threads"
  by (simp add: getConversationSummary_def)

text \<open>
  With redaction enabled, the verbose summary of the sample conversation carries the five
  upstream bodies, while the verbose \<open>getThreads\<close> of the same threads carries five
  placeholders.
\<close>

theorem summary_verbose_not_redacted_witness:
  "\<not> allowPii redacting_config
   \<and> map_sum id summary_result_bodies
       (getConversationSummary redacting_config (\<lambda>cid. Inr (sample_conversation 101 0))
          (threads_upstream sample_threads) ''101'' (Some True))
     = Inr [Some ''<p>Happy to help with billing</p>'', Some ''Internal note'',
            Some ''<p>I have a billing question</p>'', Some ''<p>Draft reply</p>'',
            Some ''Status changed'']
   \<and> map_sum id threads_result_bodies
       (getThreads redacting_config (threads_upstream sample_threads)
          \<lparr> gt_conversationId = ''101'', gt_format = FullFormat, gt_limit = 200,
            gt_verbose = Some True \<rparr>)
     = Inr [Some redacted, Some redacted, Some redacted, Some redacted, Some redacted]"
proof -
  have p: "fetchThreadPages (threads_upstream sample_threads) ''101'' 200
             = Inr (sample_threads, 5)"
    by code_simp
  have v: "isVerbose redacting_config (Some True)"
    by (simp add: isVerbose_def)
  have b: "map th_body sample_threads
     = [Some ''<p>Happy to help with billing</p>'', Some ''Internal note'',
        Some ''<p>I have a billing question</p>'', Some ''<p>Draft reply</p>'',
        Some ''Status changed'']"
    by (simp add: sample_threads_def sample_thread_def)
  have g: "map_sum id threads_result_bodies
       (getThreads redacting_config (threads_upstream sample_threads)
          \<lparr> gt_conversationId = ''101'', gt_format = FullFormat, gt_limit = 200,
            gt_verbose = Some True \<rparr>)
     = Inr [Some redacted, Some redacted, Some redacted, Some redacted, Some redacted]"
    by code_simp
  from summary_verbose_not_redacted[where getConversation = "\<lambda>cid. Inr (sample_conversation 101 0)"
         and conversationId = "''101''" and conversation = "sample_conversation 101 0"
         and getThreadPage = "threads_upstream sample_threads" and threads = sample_threads
         and tot = 5 and cfg = redacting_config and verboseArg = "Some True"] p v
  have s: "getConversationSummary redacting_config (\<lambda>cid. Inr (sample_conversation 101 0))
          (threads_upstream sample_threads) ''101'' (Some True)
        = Inr (VerboseSummary (sample_conversation 101 0) sample_threads)"
    by simp
  show ?thesis
    unfolding s using b g redacting_config_allowPii by simp
qed

section \<open>Properties of the fan-out joins\<close>







section \<open>Properties of the dispatcher\<close>

text \<open>
  C6. When the validator rejects a call, \<open>callTool\<close> returns a result (not an error) that
  carries the validator's errors, suggestions and prerequisites, leaves the handler state as
  it was, and runs no tool, so that no request is issued. Under the rules of the validator as
  the specification gives them, a \<open>createReply\<close> call whose \<open>conversationId\<close> is a string with
  a character that is not a digit is rejected with \<open>Invalid conversation ID format\<close>.
\<close>

theorem validation_gate:
  "(\<not> vr_isValid
        (validate \<lparr> tc_toolName = name,
                    tc_arguments = (case arguments of None \<Rightarrow> [] | Some a \<Rightarrow> a),
                    tc_userQuery = hs_currentUserQuery st,
                    tc_previousCalls = hs_callHistory st \<rparr>) \<longrightarrow>
      (\<exists>f. callTool validate run guidance st name arguments = (ValidationFailed f, st, [])
           \<and> vf_error f = ''API Constraint Validation Failed''
           \<and> vf_errors f =
               vr_errors (validate \<lparr> tc_toolName = name,
                         tc_arguments = (case arguments of None \<Rightarrow> [] | Some a \<Rightarrow> a),
                         tc_userQuery = hs_currentUserQuery st,
                         tc_previousCalls = hs_callHistory st \<rparr>)
           \<and> vf_suggestions f =
               vr_suggestions (validate \<lparr> tc_toolName = name,
                         tc_arguments = (case arguments of None \<Rightarrow> [] | Some a \<Rightarrow> a),
                         tc_userQuery = hs_currentUserQuery st,
                         tc_previousCalls = hs_callHistory st \<rparr>)
           \<and> vf_requiredPrerequisites f =
               vr_requiredPrerequisites (validate \<lparr> tc_toolName = name,
                         tc_arguments = (case arguments of None \<Rightarrow> [] | Some a \<Rightarrow> a),
                         tc_userQuery = hs_currentUserQuery st,
                         tc_previousCalls = hs_callHistory st \<rparr>)))
   \<and> (map_of args ''conversationId'' = Some (Str cid) \<and> \<not> all_digits cid \<longrightarrow>
           \<not> vr_isValid (spec_validateToolCall suggestionsFor prerequisitesFor
                 \<lparr> tc_toolName = ''createReply'', tc_arguments = args,
                   tc_userQuery = q, tc_previousCalls = h \<rparr>)
           \<and> ''Invalid conversation ID format''
               \<in> set (vr_errors (spec_validateToolCall suggestionsFor prerequisitesFor
                         \<lparr> tc_toolName = ''createReply'', tc_arguments = args,
                           tc_userQuery = q, tc_previousCalls = h \<rparr>)))"
  by (auto simp: callTool_def Let_def spec_validateToolCall_def reply_rule_errors_def)

text \<open>
  The call \<open>createReply\<close> with \<open>conversationId: "abc"\<close>: the result is the validation failure,
  and the request list is empty although the tool would have posted.
\<close>

theorem validation_gate_witness:
  "callTool (spec_validateToolCall (\<lambda>ctx. [''Use a numeric conversation ID'']) (\<lambda>ctx. None))
     (\<lambda>name args. (Inr ''sent'', [''POST /conversations/abc/reply'']))
     (\<lambda>name payload ctx. [])
     \<lparr> hs_callHistory = [], hs_currentUserQuery = None \<rparr>
     ''createReply''
     (Some [(''conversationId'', Str ''abc''), (''text'', Str ''<p>Test</p>''),
            (''customer'', Obj [(''id'', Num 1)])])
   = (ValidationFailed
        \<lparr> vf_error = ''API Constraint Validation Failed'',
          vf_errors = [''Invalid conversation ID format''],
          vf_suggestions = [''Use a numeric conversation ID''],
          vf_requiredPrerequisites = None,
          vf_message = ''This call violates Help Scout API constraints'',
          vf_requiredActions = [],
          vf_requirementSuggestions = [''Use a numeric conversation ID''] \<rparr>,
      \<lparr> hs_callHistory = [], hs_currentUserQuery = None \<rparr>, [])"
proof -
  let ?args = "[(''conversationId'', Str ''abc''), (''text'', Str ''<p>Test</p>''),
            (''customer'', Obj [(''id'', Num 1)])]"
  let ?v = "spec_validateToolCall (\<lambda>ctx. [''Use a numeric conversation ID'']) (\<lambda>ctx. None)"
  let ?st = "\<lparr> hs_callHistory = [], hs_currentUserQuery = None \<rparr>"
  have nd: "map_of ?args ''conversationId'' = Some (Str ''abc'') \<and> \<not> all_digits ''abc''"
    by (simp add: all_digits_def is_digit_def)
  have inv: "\<not> vr_isValid (?v \<lparr> tc_toolName = ''createReply'',
                   tc_arguments = (case Some ?args of None \<Rightarrow> [] | Some a \<Rightarrow> a),
                   tc_userQuery = hs_currentUserQuery ?st,
                   tc_previousCalls = hs_callHistory ?st \<rparr>)"
    using validation_gate[where args = ?args and cid = "''abc''"
            and suggestionsFor = "\<lambda>ctx. [''Use a numeric conversation ID'']"
            and prerequisitesFor = "\<lambda>ctx. None" and q = None and h = "[]", THEN conjunct2] nd
    by simp
  from validation_gate[where validate = ?v and st = ?st and name = "''createReply''"
           and arguments = "Some ?args"
           and run = "\<lambda>name args. (Inr ''sent'', [''POST /conversations/abc/reply''])"
           and guidance = "\<lambda>name payload ctx. []", THEN conjunct1] inv
  obtain f where
    c: "callTool ?v (\<lambda>name args. (Inr ''sent'', [''POST /conversations/abc/reply'']))
          (\<lambda>name payload ctx. []) ?st ''createReply'' (Some ?args) = (ValidationFailed f, ?st, [])"
    by blast
  have e: "callTool ?v (\<lambda>name args. (Inr ''sent'', [''POST /conversations/abc/reply'']))
          (\<lambda>name payload ctx. []) ?st ''createReply'' (Some ?args)
        = (ValidationFailed
        \<lparr> vf_error = ''API Constraint Validation Failed'',
          vf_errors = [''Invalid conversation ID format''],
          vf_suggestions = [''Use a numeric conversation ID''],
          vf_requiredPrerequisites = None,
          vf_message = ''This call violates Help Scout API constraints'',
          vf_requiredActions = [],
          vf_requirementSuggestions = [''Use a numeric conversation ID''] \<rparr>, ?st, [])"
    by (simp add: callTool_def Let_def spec_validateToolCall_def reply_rule_errors_def
          all_digits_def is_digit_def)
  from c e show ?thesis by simp
qed

end
